(* ===== verification/Prelude.thy ===== *)
theory Prelude
  imports Complex_Main "HOL-Library.Word"
begin

text \<open>
  What every component of the development shares: the machine types, the result type of
  fallible code (\<open>'e + 'a\<close>, \<open>Inl\<close> an error), its sequencing, and generic facts on lists,
  maps and words.
\<close>

section \<open>Types\<close>

type_synonym byte = "8 word"
type_synonym u64 = "64 word"
type_synonym i128 = "128 word"

text \<open>
  Collections of facts: \<open>model_simps\<close> holds the rewrite rules by which a component's
  operations are evaluated on branches, \<open>frame_simps\<close> the facts that an operation leaves a
  part of its state alone.
\<close>

named_theorems model_simps \<open>branch equations of the operations\<close>
named_theorems frame_simps \<open>what an operation leaves unchanged\<close>

section \<open>Fallible computations\<close>

text \<open>Sequencing: the first error ends the computation, as \<open>?\<close> in Rust and \<open>throw\<close> in JavaScript do.\<close>

definition bindE :: "'e + 'a \<Rightarrow> ('a \<Rightarrow> 'e + 'b) \<Rightarrow> 'e + 'b" where
  "bindE m f = (case m of Inl e \<Rightarrow> Inl e | Inr x \<Rightarrow> f x)"

lemma bindE_simps [simp]:
  "bindE (Inl e) f = Inl e"
  "bindE (Inr x) f = f x"
  by (simp_all add: bindE_def)

lemma bindE_Inr_iff: "bindE m f = Inr y \<longleftrightarrow> (\<exists>x. m = Inr x \<and> f x = Inr y)"
  by (cases m) simp_all

lemma bindE_Inl_iff: "bindE m f = Inl e \<longleftrightarrow> m = Inl e \<or> (\<exists>x. m = Inr x \<and> f x = Inl e)"
  by (cases m) auto

lemma bindE_assoc: "bindE (bindE m f) g = bindE m (\<lambda>x. bindE (f x) g)"
  by (cases m) simp_all

text \<open>Rust's \<open>ok_or\<close>.\<close>

definition ok_or :: "'a option \<Rightarrow> 'e \<Rightarrow> 'e + 'a" where
  "ok_or x e = (case x of None \<Rightarrow> Inl e | Some y \<Rightarrow> Inr y)"

lemma ok_or_simps [simp]: "ok_or None e = Inl e" "ok_or (Some y) e = Inr y"
  by (simp_all add: ok_or_def)

lemma ok_or_Inr_iff: "ok_or x e = Inr y \<longleftrightarrow> x = Some y"
  by (cases x) simp_all

text \<open>A fallible function over a list, left to right, stopping at the first error.\<close>

fun mapE :: "('a \<Rightarrow> 'e + 'b) \<Rightarrow> 'a list \<Rightarrow> 'e + 'b list" where
  "mapE f [] = Inr []"
| "mapE f (x # xs) = bindE (f x) (\<lambda>y. bindE (mapE f xs) (\<lambda>ys. Inr (y # ys)))"

lemma mapE_Inr: "(\<And>x. x \<in> set xs \<Longrightarrow> f x = Inr (g x)) \<Longrightarrow> mapE f xs = Inr (map g xs)"
  by (induction xs) simp_all

section \<open>Operations on a state that may fail\<close>

text \<open>
  An operation takes the state and returns a failure or a result with the new state:
  \<open>'s \<Rightarrow> 'e + 'a \<times> 's\<close>. The combinators below take the rest of the operation as their last
  argument, so that an operation is written in the order of the source's statements:
  \<open>runM m\<close> calls an operation that cannot fail and binds its result, \<open>doM w\<close> performs an
  update, \<open>some_or x e\<close> is \<open>x.ok_or(e)?\<close>, \<open>tryE\<close> is \<open>?\<close> on a result, \<open>ensure b e\<close> is
  \<open>if !b { return Err(e) }\<close>.
\<close>

type_synonym ('s, 'e, 'a) op = "'s \<Rightarrow> 'e + 'a \<times> 's"

definition retM :: "'a \<Rightarrow> ('s, 'e, 'a) op" where
  "retM x s = Inr (x, s)"

definition runM :: "('s \<Rightarrow> 'b \<times> 's) \<Rightarrow> ('b \<Rightarrow> ('s, 'e, 'a) op) \<Rightarrow> ('s, 'e, 'a) op" where
  "runM m k s = (case m s of (x, s') \<Rightarrow> k x s')"

definition doM :: "('s \<Rightarrow> 's) \<Rightarrow> ('s, 'e, 'a) op \<Rightarrow> ('s, 'e, 'a) op" where
  "doM w k s = k (w s)"

definition some_or :: "'b option \<Rightarrow> 'e \<Rightarrow> ('b \<Rightarrow> ('s, 'e, 'a) op) \<Rightarrow> ('s, 'e, 'a) op" where
  "some_or x e k s = (case x of None \<Rightarrow> Inl e | Some y \<Rightarrow> k y s)"

definition tryE :: "'e + 'b \<Rightarrow> ('b \<Rightarrow> ('s, 'e, 'a) op) \<Rightarrow> ('s, 'e, 'a) op" where
  "tryE m k s = (case m of Inl e \<Rightarrow> Inl e | Inr x \<Rightarrow> k x s)"

definition ensure :: "bool \<Rightarrow> 'e \<Rightarrow> ('s, 'e, 'a) op \<Rightarrow> ('s, 'e, 'a) op" where
  "ensure b e k s = (if b then k s else Inl e)"

definition getM :: "('s \<Rightarrow> 'b) \<Rightarrow> ('b \<Rightarrow> ('s, 'e, 'a) op) \<Rightarrow> ('s, 'e, 'a) op" where
  "getM f k s = k (f s) s"

text \<open>Evaluation on each branch, and inversion of a successful run.\<close>

lemma op_simps [model_simps]:
  "retM x s = Inr (x, s)"
  "runM m k s = k (fst (m s)) (snd (m s))"
  "doM w k2 s = k2 (w s)"
  "some_or None e k' s = Inl e"
  "some_or (Some y) e k' s = k' y s"
  "tryE (Inl e) k'' s = Inl e"
  "tryE (Inr z) k'' s = k'' z s"
  "ensure True e k2 s = k2 s"
  "ensure False e k2 s = Inl e"
  "getM f k4 s = k4 (f s) s"
  by (simp_all add: retM_def runM_def doM_def some_or_def tryE_def ensure_def getM_def
        split: prod.splits)

lemma op_Inr_iff:
  "retM x s = Inr r \<longleftrightarrow> r = (x, s)"
  "runM m k s = Inr r \<longleftrightarrow> k (fst (m s)) (snd (m s)) = Inr r"
  "doM w k2 s = Inr r \<longleftrightarrow> k2 (w s) = Inr r"
  "some_or v e k3 s = Inr r \<longleftrightarrow> (\<exists>y. v = Some y \<and> k3 y s = Inr r)"
  "tryE v2 k4 s = Inr r \<longleftrightarrow> (\<exists>y. v2 = Inr y \<and> k4 y s = Inr r)"
  "ensure b e k2 s = Inr r \<longleftrightarrow> b \<and> k2 s = Inr r"
  "getM f k5 s = Inr r \<longleftrightarrow> k5 (f s) s = Inr r"
  by (auto simp: retM_def runM_def doM_def some_or_def tryE_def ensure_def getM_def
        split: prod.splits option.splits sum.splits)

text \<open>
  Running an operation to its end: the host commits the new state of a success and keeps the
  old state of a failure.
\<close>

definition commit :: "('s, 'e, 'a) op \<Rightarrow> 's \<Rightarrow> 's" where
  "commit m s = (case m s of Inl _ \<Rightarrow> s | Inr (_, s') \<Rightarrow> s')"

lemma commit_cases:
  assumes "\<And>e. m s = Inl e \<Longrightarrow> P s" and "\<And>x s'. m s = Inr (x, s') \<Longrightarrow> P s'"
  shows "P (commit m s)"
  using assms by (cases "m s") (auto simp: commit_def)

section \<open>Lists\<close>

lemma sum_list_concat_filter:
  "sum_list (map f (filter P xs)) = (\<Sum>x\<leftarrow>xs. if P x then f x else 0)" for f :: "'a \<Rightarrow> 'b::comm_monoid_add"
  by (induction xs) simp_all

lemma map_filter_append [simp]:
  "List.map_filter f (xs @ ys) = List.map_filter f xs @ List.map_filter f ys"
  by (induction xs) (simp_all add: map_filter_simps split: option.split)

lemma last_in_filter: "filter P xs \<noteq> [] \<Longrightarrow> P (last (filter P xs))"
  using last_in_set [of "filter P xs"] by simp

section \<open>Sums over maps\<close>

text \<open>
  Changing a finitely supported function at one point changes its sum over a finite set by
  the difference at that point. Every balance invariant of the contract is an instance.
\<close>

lemma sum_update_point:
  fixes f :: "'k \<Rightarrow> int"
  assumes "finite A" and "k \<in> A"
  shows "(\<Sum>x\<in>A. (f(k := v)) x) = (\<Sum>x\<in>A. f x) - f k + v"
proof -
  have "(\<Sum>x\<in>A. (f(k := v)) x) = v + (\<Sum>x\<in>A - {k}. f x)"
    using assms by (simp add: sum.remove)
  moreover have "(\<Sum>x\<in>A. f x) = f k + (\<Sum>x\<in>A - {k}. f x)"
    using assms by (simp add: sum.remove)
  ultimately show ?thesis by simp
qed

lemma sum_superset_zero:
  fixes f :: "'k \<Rightarrow> int"
  assumes "finite B" and "A \<subseteq> B" and "\<And>x. x \<in> B - A \<Longrightarrow> f x = 0"
  shows "(\<Sum>x\<in>A. f x) = (\<Sum>x\<in>B. f x)"
  by (rule sum.mono_neutral_left) (use assms in auto)

lemma sum_point_update:
  fixes f :: "'k \<Rightarrow> int"
  assumes "finite A" and "\<And>x. x \<notin> A \<Longrightarrow> f x = 0"
  shows "(\<Sum>x\<in>insert k A. (f(k := v)) x) = (\<Sum>x\<in>A. f x) - f k + v"
proof -
  have "(\<Sum>x\<in>insert k A. (f(k := v)) x) = (\<Sum>x\<in>insert k A. f x) - f k + v"
    using assms(1) by (intro sum_update_point) simp_all
  moreover have "(\<Sum>x\<in>A. f x) = (\<Sum>x\<in>insert k A. f x)"
    by (rule sum_superset_zero) (use assms in auto)
  ultimately show ?thesis by simp
qed

section \<open>Signed reading of words\<close>

text \<open>The values an \<open>i128\<close> takes.\<close>

definition in_i128 :: "int \<Rightarrow> bool" where
  "in_i128 n \<longleftrightarrow> - (2 ^ 127) \<le> n \<and> n < 2 ^ 127"

lemma sint_i128_range: "- (2 ^ 127) \<le> sint (x :: i128) \<and> sint x < 2 ^ 127"
  using sint_ge [of x] sint_lt [of x] by simp

lemma in_i128_sint [simp]: "in_i128 (sint (x :: i128))"
  using sint_i128_range [of x] by (simp add: in_i128_def)

lemma sint_of_int_i128: "in_i128 n \<Longrightarrow> sint (word_of_int n :: i128) = n"
  by (simp add: in_i128_def int_word_sint)

end
