(* ===== verification/Js_Number.thy ===== *)
theory Js_Number
  imports Prelude
begin

text \<open>
  JavaScript numbers: IEEE binary64 values, a finite one being the rational it denotes (the
  sign of zero, which the program never observes, is dropped). The conversions the program
  uses are here: rounding to the nearest double, \<open>Number\<close> of a string, \<open>String\<close> of a number,
  \<open>Number.isSafeInteger\<close> and \<open><\<close>. Strings are lists of code units below 256.
\<close>

section \<open>Doubles\<close>

datatype js_number = NaN | PosInf | NegInf | Fin rat

text \<open>Round half to even, and the position of the leading bit of a positive rational.\<close>

definition rne :: "rat \<Rightarrow> int" where
  "rne q = (let f = \<lfloor>q\<rfloor>; d = q - of_int f in
     if d < 1 / 2 then f else if 1 / 2 < d then f + 1 else if even f then f else f + 1)"

fun bits :: "nat \<Rightarrow> nat" where
  "bits n = (if n = 0 then 0 else Suc (bits (n div 2)))"

declare bits.simps [simp del]

definition floor_log2 :: "rat \<Rightarrow> int" where
  "floor_log2 q = (if 1 \<le> q then int (bits (nat \<lfloor>q\<rfloor>)) - 1 else - int (bits (nat (\<lceil>1 / q\<rceil> - 1))))"

definition pow2 :: "int \<Rightarrow> rat" where
  "pow2 e = (if 0 \<le> e then 2 ^ nat e else 1 / 2 ^ nat (- e))"

text \<open>The double nearest to a rational: 53 significant bits, exponents from -1074, infinite from \<open>2^1024\<close>.\<close>

definition to_double :: "rat \<Rightarrow> js_number" where
  "to_double q =
     (if q = 0 then Fin 0
      else let u = max (floor_log2 \<bar>q\<bar> - 52) (- 1074);
               r = of_int (rne (\<bar>q\<bar> / pow2 u)) * pow2 u
           in if 2 ^ 1024 \<le> r then (if 0 < q then PosInf else NegInf)
              else Fin (if 0 < q then r else - r))"

definition number_of_int :: "int \<Rightarrow> js_number" where
  "number_of_int n = to_double (of_int n)"

lemma bits_bounds: "n < 2 ^ bits n \<and> (0 < n \<longrightarrow> 2 ^ (bits n - 1) \<le> n)"
proof (induction n rule: bits.induct)
  case (1 n)
  show ?case
  proof (cases "n = 0")
    case True
    then show ?thesis by (simp add: bits.simps [of 0])
  next
    case False
    have b: "bits n = Suc (bits (n div 2))" using False by (simp add: bits.simps [of n])
    have IH: "n div 2 < 2 ^ bits (n div 2)" "0 < n div 2 \<Longrightarrow> 2 ^ (bits (n div 2) - 1) \<le> n div 2"
      using "1" False by auto
    have upper: "n < 2 ^ bits n" using IH(1) unfolding b by simp
    have lower: "2 ^ (bits n - 1) \<le> n"
    proof (cases "n div 2 = 0")
      case True
      then have "bits (n div 2) = 0" by (simp add: bits.simps)
      then show ?thesis using False b by simp
    next
      case half: False
      then have "bits (n div 2) \<noteq> 0" by (simp add: bits.simps [of "n div 2"])
      then have "2 ^ (bits n - 1) = 2 * (2::nat) ^ (bits (n div 2) - 1)"
        unfolding b by (simp flip: power_Suc)
      also have "\<dots> \<le> n" using IH(2) half by simp
      finally show ?thesis .
    qed
    from upper lower show ?thesis by blast
  qed
qed

lemma bits_le: "n < 2 ^ k \<Longrightarrow> bits n \<le> k"
proof (rule ccontr)
  assume n: "n < 2 ^ k" and "\<not> bits n \<le> k"
  then have "k \<le> bits n - 1" "bits n \<noteq> 0" by simp_all
  from \<open>bits n \<noteq> 0\<close> have "0 < n" by (cases "n = 0") (simp_all add: bits.simps [of 0])
  have "(2::nat) ^ k \<le> 2 ^ (bits n - 1)" using \<open>k \<le> bits n - 1\<close> by (simp add: power_increasing)
  also have "\<dots> \<le> n" using bits_bounds [of n] \<open>0 < n\<close> by blast
  finally show False using n by simp
qed

lemma rne_of_int [simp]: "rne (of_int k) = k"
  by (simp add: rne_def Let_def)

lemma pow2_nonneg_exp: "e \<le> 0 \<Longrightarrow> of_int k / pow2 e = of_int (k * 2 ^ nat (- e))"
  by (cases "e = 0") (simp_all add: pow2_def)

lemma pow2_pos [simp]: "0 < pow2 e" "pow2 e \<noteq> 0"
  by (simp_all add: pow2_def)

text \<open>Integers up to \<open>2^53\<close> are represented exactly.\<close>

lemma to_double_pos_int:
  assumes "0 < k" and "k \<le> 2 ^ 53"
  shows "to_double (of_int k) = Fin (of_int k)"
proof -
  define u where "u = max (floor_log2 (of_int k) - 52) (- 1074)"
  have ge1: "(1 :: rat) \<le> of_int k" using assms(1) by simp
  have fl: "floor_log2 (of_int k) = int (bits (nat k)) - 1"
    using ge1 by (simp add: floor_log2_def)
  have small: "of_int k < (2 :: rat) ^ 1024"
  proof -
    have "of_int k \<le> (2 :: rat) ^ 53" using assms(2) by (metis of_int_le_iff of_int_numeral of_int_power)
    also have "\<dots> < 2 ^ 1024" by simp
    finally show ?thesis .
  qed
  have "of_int (rne (of_int k / pow2 u)) * pow2 u = of_int k"
  proof (cases "k = 2 ^ 53")
    case True
    have "bits (nat k) = 54"
    proof (rule antisym)
      show "bits (nat k) \<le> 54" unfolding True by (rule bits_le) simp
      show "54 \<le> bits (nat k)"
      proof (rule ccontr)
        assume "\<not> 54 \<le> bits (nat k)"
        then have "(2::nat) ^ bits (nat k) \<le> 2 ^ 53" by (intro power_increasing) simp_all
        moreover have "nat k < 2 ^ bits (nat k)" using bits_bounds by blast
        ultimately show False unfolding True by simp
      qed
    qed
    then have "u = 1" by (simp add: u_def fl)
    moreover have "of_int k / pow2 1 = of_int (2 ^ 52)" unfolding True by (simp add: pow2_def)
    ultimately show ?thesis by (simp only: rne_of_int) (simp add: True pow2_def)
  next
    case False
    then have "nat k < 2 ^ 53" using assms by (simp add: nat_less_iff)
    then have "bits (nat k) \<le> 53" by (rule bits_le)
    then have "u \<le> 0" by (simp add: u_def fl)
    then have "of_int k / pow2 u = of_int (k * 2 ^ nat (- u))" by (rule pow2_nonneg_exp)
    then have "rne (of_int k / pow2 u) = k * 2 ^ nat (- u)" by (simp only: rne_of_int)
    moreover have "pow2 u = 1 / 2 ^ nat (- u)" using \<open>u \<le> 0\<close> by (cases "u = 0") (simp_all add: pow2_def)
    ultimately show ?thesis by simp
  qed
  then show ?thesis
    using assms(1) small by (simp add: to_double_def u_def)
qed

lemma to_double_neg: "0 < q \<Longrightarrow> to_double q = Fin r \<Longrightarrow> to_double (- q) = Fin (- r)"
  by (auto simp: to_double_def Let_def split: if_splits)

lemma number_of_int_exact: "\<bar>n\<bar> \<le> 2 ^ 53 \<Longrightarrow> number_of_int n = Fin (of_int n)"
proof -
  assume n: "\<bar>n\<bar> \<le> 2 ^ 53"
  consider "n = 0" | "0 < n" | "n < 0" by linarith
  then show ?thesis
  proof cases
    case 1
    then show ?thesis by (simp add: number_of_int_def to_double_def)
  next
    case 2
    then show ?thesis using n to_double_pos_int by (simp add: number_of_int_def)
  next
    case 3
    then have "to_double (of_int (- n)) = Fin (of_int (- n))"
      using n by (intro to_double_pos_int) simp_all
    with 3 to_double_neg [of "of_int (- n)"] show ?thesis by (simp add: number_of_int_def)
  qed
qed

text \<open>\<open>Number.isSafeInteger\<close> and the order; comparisons with \<open>NaN\<close> are false.\<close>

definition is_safe_integer :: "js_number \<Rightarrow> bool" where
  "is_safe_integer x = (case x of Fin q \<Rightarrow> q = of_int \<lfloor>q\<rfloor> \<and> \<bar>q\<bar> \<le> 2 ^ 53 - 1 | _ \<Rightarrow> False)"

fun js_less :: "js_number \<Rightarrow> js_number \<Rightarrow> bool" where
  "js_less (Fin a) (Fin b) = (a < b)"
| "js_less NaN _ = False"
| "js_less _ NaN = False"
| "js_less NegInf NegInf = False"
| "js_less PosInf PosInf = False"
| "js_less NegInf _ = True"
| "js_less _ PosInf = True"
| "js_less _ _ = False"

fun js_add :: "js_number \<Rightarrow> js_number \<Rightarrow> js_number" where
  "js_add (Fin a) (Fin b) = to_double (a + b)"
| "js_add NaN _ = NaN"
| "js_add _ NaN = NaN"
| "js_add PosInf NegInf = NaN"
| "js_add NegInf PosInf = NaN"
| "js_add PosInf _ = PosInf"
| "js_add _ PosInf = PosInf"
| "js_add _ _ = NegInf"

lemma is_safe_integerE:
  assumes "is_safe_integer x"
  obtains n where "x = Fin (of_int n)" and "\<bar>n\<bar> \<le> 2 ^ 53 - 1"
proof -
  from assms obtain q where q: "x = Fin q" "q = of_int \<lfloor>q\<rfloor>" "\<bar>q\<bar> \<le> 2 ^ 53 - 1"
    by (cases x) (simp_all add: is_safe_integer_def)
  from q(3) have "\<bar>of_int \<lfloor>q\<rfloor>\<bar> \<le> (of_int (2 ^ 53 - 1) :: rat)" by (subst (asm) q(2)) simp
  then have "\<bar>\<lfloor>q\<rfloor>\<bar> \<le> 2 ^ 53 - 1" by (metis of_int_abs of_int_le_iff)
  with q that show ?thesis by metis
qed

lemma js_add_exact:
  assumes "\<bar>a\<bar> \<le> 2 ^ 53" and "\<bar>b\<bar> \<le> 2 ^ 53" and "\<bar>a + b\<bar> \<le> 2 ^ 53"
  shows "js_add (number_of_int a) (number_of_int b) = number_of_int (a + b)"
  using assms by (simp add: number_of_int_exact [of a] number_of_int_exact [of b])
    (simp add: number_of_int_def)

lemma js_less_exact:
  assumes "\<bar>a\<bar> \<le> 2 ^ 53" and "\<bar>b\<bar> \<le> 2 ^ 53"
  shows "js_less (number_of_int a) (number_of_int b) \<longleftrightarrow> a < b"
  using assms by (simp add: number_of_int_exact)

section \<open>Characters\<close>

definition is_digit :: "char \<Rightarrow> bool" where
  "is_digit c \<longleftrightarrow> 48 \<le> (of_char c :: nat) \<and> (of_char c :: nat) \<le> 57"

definition digit_value :: "char \<Rightarrow> nat" where
  "digit_value c = of_char c - 48"

definition digit_char :: "nat \<Rightarrow> char" where
  "digit_char d = char_of (48 + d)"

text \<open>White space and line terminators of ECMAScript below code unit 256.\<close>

definition is_space :: "char \<Rightarrow> bool" where
  "is_space c \<longleftrightarrow> (of_char c :: nat) \<in> {9, 10, 11, 12, 13, 32, 160}"

definition js_trim :: "string \<Rightarrow> string" where
  "js_trim s = rev (dropWhile is_space (rev (dropWhile is_space s)))"

lemma digit_char_digit: "d < 10 \<Longrightarrow> is_digit (digit_char d) \<and> digit_value (digit_char d) = d"
  by (simp add: is_digit_def digit_char_def digit_value_def)

lemma digit_not_space: "is_digit c \<Longrightarrow> \<not> is_space c"
  by (auto simp: is_digit_def is_space_def)

lemma js_trim_no_space: "\<forall>c\<in>set s. \<not> is_space c \<Longrightarrow> js_trim s = s"
proof -
  have d: "dropWhile is_space t = t" if "\<forall>c\<in>set t. \<not> is_space c" for t
    using that by (cases t) auto
  assume "\<forall>c\<in>set s. \<not> is_space c"
  then show ?thesis by (simp add: js_trim_def d)
qed

section \<open>Decimal digits\<close>

text \<open>The digits of a natural number, as \<open>String\<close> of an integer and of a BigInt prints them.\<close>

fun dec_digits :: "nat \<Rightarrow> string" where
  "dec_digits n = (if n < 10 then [digit_char n] else dec_digits (n div 10) @ [digit_char (n mod 10)])"

declare dec_digits.simps [simp del]

definition dec_int :: "int \<Rightarrow> string" where
  "dec_int n = (if n < 0 then CHR ''-'' # dec_digits (nat (- n)) else dec_digits (nat n))"

definition digits_value :: "string \<Rightarrow> nat" where
  "digits_value s = foldl (\<lambda>a c. a * 10 + digit_value c) 0 s"

lemma dec_digits_digits: "\<forall>c\<in>set (dec_digits n). is_digit c"
proof (induction n rule: dec_digits.induct)
  case (1 n)
  then show ?case by (subst dec_digits.simps) (auto simp: digit_char_digit)
qed

lemma dec_digits_nonempty [simp]: "dec_digits n \<noteq> []"
  by (subst dec_digits.simps) simp

lemma digits_value_dec_digits [simp]: "digits_value (dec_digits n) = n"
proof (induction n rule: dec_digits.induct)
  case (1 n)
  show ?case
  proof (cases "n < 10")
    case True
    then show ?thesis by (subst dec_digits.simps) (simp add: digits_value_def digit_char_digit)
  next
    case False
    then have "digits_value (dec_digits n) = digits_value (dec_digits (n div 10)) * 10 + n mod 10"
      by (subst dec_digits.simps) (simp add: digits_value_def digit_char_digit)
    also have "\<dots> = n" using "1" False by simp
    finally show ?thesis .
  qed
qed

section \<open>From strings\<close>

text \<open>
  \<open>StringToNumber\<close> and \<open>StringToBigInt\<close> of ECMAScript: surrounding white space is dropped, the
  empty string is zero, \<open>0x\<close>, \<open>0o\<close> and \<open>0b\<close> literals carry no sign; anything else must be a
  decimal literal (for a BigInt, without fraction or exponent).
\<close>

definition radix_digit :: "char \<Rightarrow> nat" where
  "radix_digit c = (let n = of_char c :: nat in
     if 48 \<le> n \<and> n \<le> 57 then n - 48
     else if 97 \<le> n \<and> n \<le> 122 then n - 87 else if 65 \<le> n \<and> n \<le> 90 then n - 55 else 99)"

definition radix_value :: "nat \<Rightarrow> string \<Rightarrow> nat option" where
  "radix_value b s = (if s \<noteq> [] \<and> list_all (\<lambda>c. radix_digit c < b) s
     then Some (foldl (\<lambda>a c. a * b + radix_digit c) 0 s) else None)"

definition radix_prefix :: "char \<Rightarrow> nat option" where
  "radix_prefix c = (if c = CHR ''x'' \<or> c = CHR ''X'' then Some 16
     else if c = CHR ''o'' \<or> c = CHR ''O'' then Some 8
     else if c = CHR ''b'' \<or> c = CHR ''B'' then Some 2 else None)"

fun prefixed_literal :: "string \<Rightarrow> nat option option" where
  "prefixed_literal (z # c # s) = (if z = CHR ''0'' then map_option (\<lambda>b. radix_value b s) (radix_prefix c) else None)"
| "prefixed_literal _ = None"

fun split_sign :: "string \<Rightarrow> bool \<times> string" where
  "split_sign (c # s) = (if c = CHR ''-'' then (True, s) else if c = CHR ''+'' then (False, s) else (False, c # s))"
| "split_sign [] = (False, [])"

definition exponent_part :: "string \<Rightarrow> int option" where
  "exponent_part s = (case s of [] \<Rightarrow> Some 0
     | c # r \<Rightarrow> (case split_sign r of (neg, ds) \<Rightarrow>
         if (c = CHR ''e'' \<or> c = CHR ''E'') \<and> ds \<noteq> [] \<and> list_all is_digit ds
         then Some (if neg then - int (digits_value ds) else int (digits_value ds)) else None))"

definition pow10 :: "int \<Rightarrow> rat" where
  "pow10 e = (if 0 \<le> e then 10 ^ nat e else 1 / 10 ^ nat (- e))"

definition unsigned_decimal :: "string \<Rightarrow> js_number" where
  "unsigned_decimal s =
     (if s = ''Infinity'' then PosInf
      else let ip = takeWhile is_digit s; r = dropWhile is_digit s;
               dot = (r \<noteq> [] \<and> hd r = CHR ''.'');
               fp = (if dot then takeWhile is_digit (tl r) else []);
               r' = (if dot then dropWhile is_digit (tl r) else r)
           in if ip = [] \<and> fp = [] then NaN
              else (case exponent_part r' of None \<Rightarrow> NaN
                | Some e \<Rightarrow> to_double (of_nat (digits_value (ip @ fp)) * pow10 (e - int (length fp)))))"

fun js_negate :: "js_number \<Rightarrow> js_number" where
  "js_negate NaN = NaN"
| "js_negate PosInf = NegInf"
| "js_negate NegInf = PosInf"
| "js_negate (Fin q) = Fin (- q)"

definition number_of_string :: "string \<Rightarrow> js_number" where
  "number_of_string s0 = (let s = js_trim s0 in
     if s = [] then Fin 0
     else case prefixed_literal s of
         Some None \<Rightarrow> NaN
       | Some (Some n) \<Rightarrow> number_of_int (int n)
       | None \<Rightarrow> (case split_sign s of (neg, r) \<Rightarrow>
           if neg then js_negate (unsigned_decimal r) else unsigned_decimal r))"

definition bigint_of_string :: "string \<Rightarrow> int option" where
  "bigint_of_string s0 = (let s = js_trim s0 in
     if s = [] then Some 0
     else case prefixed_literal s of
         Some None \<Rightarrow> None
       | Some (Some n) \<Rightarrow> Some (int n)
       | None \<Rightarrow> (case split_sign s of (neg, r) \<Rightarrow>
           if r \<noteq> [] \<and> list_all is_digit r
           then Some (if neg then - int (digits_value r) else int (digits_value r)) else None))"

section \<open>To strings\<close>

text \<open>
  \<open>Number::toString\<close>: the fewest decimal digits that read back as the same double, the closest
  such when there are several. Integers up to \<open>2^53\<close> print their decimal digits.
\<close>

definition floor_log10 :: "rat \<Rightarrow> int" where
  "floor_log10 q = (if 1 \<le> q then int (length (dec_digits (nat \<lfloor>q\<rfloor>))) - 1
     else - int (length (dec_digits (nat (\<lceil>1 / q\<rceil> - 1)))))"

definition candidate :: "rat \<Rightarrow> nat \<Rightarrow> int option" where
  "candidate q k = (let u = pow10 (floor_log10 q + 1 - int k); lo = \<lfloor>q / u\<rfloor>;
       ok = (\<lambda>m. to_double (of_int m * u) = Fin q);
       d = 2 * (q / u - of_int lo)
     in if ok lo \<and> (\<not> ok (lo + 1) \<or> d < 1 \<or> d = 1 \<and> even lo) then Some lo
        else if ok (lo + 1) then Some (lo + 1) else None)"

definition shortest :: "rat \<Rightarrow> string \<times> int" where
  "shortest q = (case dropWhile (\<lambda>k. candidate q k = None) [1..<18] of
       [] \<Rightarrow> ([], 0)
     | k # _ \<Rightarrow> (let m = the (candidate q k) in
         if m = 10 ^ k then (dec_digits (10 ^ (k - 1)), floor_log10 q + 2)
         else (dec_digits (nat m), floor_log10 q + 1)))"

definition format_digits :: "string \<Rightarrow> int \<Rightarrow> string" where
  "format_digits ds n = (let k = int (length ds); e = n - 1;
       ex = CHR ''e'' # (if e < 0 then CHR ''-'' else CHR ''+'') # dec_digits (nat \<bar>e\<bar>)
     in if k \<le> n \<and> n \<le> 21 then ds @ replicate (nat (n - k)) (CHR ''0'')
        else if 0 < n \<and> n \<le> 21 then take (nat n) ds @ ''.'' @ drop (nat n) ds
        else if - 6 < n \<and> n \<le> 0 then ''0.'' @ replicate (nat (- n)) (CHR ''0'') @ ds
        else if k = 1 then ds @ ex
        else take 1 ds @ ''.'' @ drop 1 ds @ ex)"

fun number_to_string :: "js_number \<Rightarrow> string" where
  "number_to_string NaN = ''NaN''"
| "number_to_string PosInf = ''Infinity''"
| "number_to_string NegInf = ''-Infinity''"
| "number_to_string (Fin q) =
     (if q = of_int \<lfloor>q\<rfloor> \<and> \<bar>q\<bar> \<le> 2 ^ 53 then dec_int \<lfloor>q\<rfloor>
      else if q < 0 then CHR ''-'' # (case shortest (- q) of (ds, n) \<Rightarrow> format_digits ds n)
      else (case shortest q of (ds, n) \<Rightarrow> format_digits ds n))"

section \<open>Round trips\<close>

lemma prefixed_literal_digits: "\<forall>c\<in>set s. is_digit c \<Longrightarrow> prefixed_literal s = None"
  by (cases s rule: prefixed_literal.cases) (auto simp: radix_prefix_def is_digit_def)

lemma prefixed_literal_minus: "prefixed_literal (CHR ''-'' # s) = None"
  by (cases s) simp_all

lemma split_sign_digit: "is_digit c \<Longrightarrow> split_sign (c # s) = (False, c # s)"
  by (auto simp: is_digit_def)

lemma split_sign_digits: "\<forall>c\<in>set s. is_digit c \<Longrightarrow> split_sign s = (False, s)"
  by (cases s) (simp_all add: split_sign_digit del: split_sign.simps(1))

lemma unsigned_decimal_digits:
  assumes "\<forall>c\<in>set s. is_digit c" and "s \<noteq> []"
  shows "unsigned_decimal s = to_double (of_nat (digits_value s))"
proof -
  have inf: "s \<noteq> ''Infinity''" using assms(1) by (auto simp: is_digit_def)
  have tw: "takeWhile is_digit s = s" and dw: "dropWhile is_digit s = []" using assms(1) by simp_all
  show ?thesis unfolding unsigned_decimal_def Let_def tw dw
    using inf assms(2) by (simp add: exponent_part_def pow10_def)
qed

lemma js_trim_dec_int [simp]: "js_trim (dec_int n) = dec_int n"
proof (rule js_trim_no_space)
  have "is_digit c \<or> c = CHR ''-''" if "c \<in> set (dec_int n)" for c
    using that dec_digits_digits by (auto simp: dec_int_def split: if_splits)
  moreover have "\<not> is_space (CHR ''-'')" by (simp add: is_space_def)
  ultimately show "\<forall>c\<in>set (dec_int n). \<not> is_space c" using digit_not_space by blast
qed

lemma dec_int_nonempty [simp]: "dec_int n \<noteq> []"
  by (simp add: dec_int_def)

lemma bigint_of_string_dec_int [simp]: "bigint_of_string (dec_int n) = Some n"
proof (cases "n < 0")
  case True
  then show ?thesis
    using dec_digits_digits [of "nat (- n)"] js_trim_dec_int [of n]
    by (simp add: bigint_of_string_def dec_int_def prefixed_literal_minus list_all_iff)
next
  case False
  then show ?thesis
    using dec_digits_digits [of "nat n"] js_trim_dec_int [of n]
    by (simp add: bigint_of_string_def dec_int_def prefixed_literal_digits split_sign_digits list_all_iff)
qed

lemma number_of_string_dec_int:
  assumes "\<bar>n\<bar> \<le> 2 ^ 53"
  shows "number_of_string (dec_int n) = number_of_int n"
proof (cases "n < 0")
  case True
  have "unsigned_decimal (dec_digits (nat (- n))) = number_of_int (- n)"
    using True by (simp add: unsigned_decimal_digits dec_digits_digits number_of_int_def)
  then show ?thesis
    using True js_trim_dec_int [of n] assms
    by (simp add: number_of_string_def dec_int_def prefixed_literal_minus number_of_int_exact)
next
  case False
  then show ?thesis
    using dec_digits_digits [of "nat n"] js_trim_dec_int [of n]
    by (simp add: number_of_string_def dec_int_def prefixed_literal_digits split_sign_digits
        unsigned_decimal_digits number_of_int_def)
qed

lemma number_to_string_int: "\<bar>n\<bar> \<le> 2 ^ 53 \<Longrightarrow> number_to_string (number_of_int n) = dec_int n"
proof -
  assume n: "\<bar>n\<bar> \<le> 2 ^ 53"
  have "\<bar>of_int n\<bar> \<le> (2 ^ 53 :: rat)"
    using n by (metis of_int_abs of_int_le_iff of_int_numeral of_int_power)
  with n show ?thesis by (simp add: number_of_int_exact)
qed

text \<open>\<open>Number(String(n)) = n\<close> for the integers a double represents exactly.\<close>

lemma number_string_roundtrip:
  "\<bar>n\<bar> \<le> 2 ^ 53 \<Longrightarrow> number_of_string (number_to_string (number_of_int n)) = number_of_int n"
  by (simp add: number_to_string_int number_of_string_dec_int)

end
