(* ===== verification/Js_Value.thy ===== *)
theory Js_Value
  imports Js_Number
begin

text \<open>
  JavaScript values as the backend sees them: data parsed from JSON or read from a driver, and
  host objects of a library (\<open>Ext\<close>). The conversions are those of ECMAScript that the program
  applies to untrusted data: truthiness, \<open>??\<close>, property reads, \<open>String\<close>, \<open>Number\<close>, \<open>BigInt\<close>
  and \<open>JSON.stringify\<close>. A computation that may throw returns \<open>exn + 'a\<close>; one on a state returns
  the state in both cases, because a thrown exception undoes nothing.
\<close>

section \<open>Values\<close>

datatype exn = Exn (exn_name: string) (exn_message: string)

abbreviation type_error :: "string \<Rightarrow> exn" where "type_error \<equiv> Exn ''TypeError''"
abbreviation range_error :: "string \<Rightarrow> exn" where "range_error \<equiv> Exn ''RangeError''"
abbreviation syntax_error :: "string \<Rightarrow> exn" where "syntax_error \<equiv> Exn ''SyntaxError''"

datatype 'x jsval =
    Undef | Null | Bool bool | Num js_number | BigInt int | Str string
  | Arr "'x jsval list" | Obj "(string \<times> 'x jsval) list" | Ext 'x

fun truthy :: "'x jsval \<Rightarrow> bool" where
  "truthy Undef = False"
| "truthy Null = False"
| "truthy (Bool b) = b"
| "truthy (Num x) = (x \<noteq> NaN \<and> x \<noteq> Fin 0)"
| "truthy (BigInt n) = (n \<noteq> 0)"
| "truthy (Str s) = (s \<noteq> [])"
| "truthy _ = True"

text \<open>\<open>v ?? d\<close>.\<close>

fun nullish :: "'x jsval \<Rightarrow> 'x jsval \<Rightarrow> 'x jsval" where
  "nullish Undef d = d"
| "nullish Null d = d"
| "nullish v d = v"

text \<open>
  An own property of an object; other values have none of the names the program reads. Reading
  a property of \<open>undefined\<close> or \<open>null\<close> throws, which the program's guards exclude.
\<close>

fun get_prop :: "'x jsval \<Rightarrow> string \<Rightarrow> 'x jsval" where
  "get_prop (Obj fs) k = (case map_of fs k of None \<Rightarrow> Undef | Some v \<Rightarrow> v)"
| "get_prop _ k = Undef"

section \<open>Conversions\<close>

lemma bindE_cong [fundef_cong]:
  "m = m' \<Longrightarrow> (\<And>x. m' = Inr x \<Longrightarrow> f x = f' x) \<Longrightarrow> bindE m f = bindE m' f'"
  by (cases m') simp_all

lemma mapE_cong [fundef_cong]:
  "xs = ys \<Longrightarrow> (\<And>x. x \<in> set ys \<Longrightarrow> f x = g x) \<Longrightarrow> mapE f xs = mapE g ys"
proof (induction ys arbitrary: xs)
  case (Cons y ys)
  then have "mapE f ys = mapE g ys" by simp
  with Cons.prems show ?case by simp
qed simp

fun join :: "string \<Rightarrow> string list \<Rightarrow> string" where
  "join sep [] = []"
| "join sep [s] = s"
| "join sep (s # ss) = s @ sep @ join sep ss"

text \<open>
  \<open>String(v)\<close>. An array joins its elements with commas, \<open>null\<close> and \<open>undefined\<close> as nothing. A
  parsed object inherits \<open>toString\<close> and \<open>valueOf\<close>; a data property of the name \<open>toString\<close>
  shadows the method, and the conversion then throws. Host objects convert by a parameter.
\<close>

fun js_to_string :: "('x \<Rightarrow> exn + string) \<Rightarrow> 'x jsval \<Rightarrow> exn + string" where
  "js_to_string xs Undef = Inr ''undefined''"
| "js_to_string xs Null = Inr ''null''"
| "js_to_string xs (Bool b) = Inr (if b then ''true'' else ''false'')"
| "js_to_string xs (Num x) = Inr (number_to_string x)"
| "js_to_string xs (BigInt n) = Inr (dec_int n)"
| "js_to_string xs (Str s) = Inr s"
| "js_to_string xs (Arr vs) =
     bindE (mapE (\<lambda>v. if v = Undef \<or> v = Null then Inr [] else js_to_string xs v) vs)
       (\<lambda>ss. Inr (join '','' ss))"
| "js_to_string xs (Obj fs) =
     (if map_of fs ''toString'' = None then Inr ''[object Object]''
      else Inl (type_error ''Cannot convert object to primitive value''))"
| "js_to_string xs (Ext x) = xs x"

text \<open>\<open>Number(v)\<close>: objects go through their string.\<close>

fun js_to_number :: "('x \<Rightarrow> exn + string) \<Rightarrow> 'x jsval \<Rightarrow> exn + js_number" where
  "js_to_number xs Undef = Inr NaN"
| "js_to_number xs Null = Inr (Fin 0)"
| "js_to_number xs (Bool b) = Inr (Fin (if b then 1 else 0))"
| "js_to_number xs (Num x) = Inr x"
| "js_to_number xs (BigInt n) = Inr (number_of_int n)"
| "js_to_number xs (Str s) = Inr (number_of_string s)"
| "js_to_number xs v = bindE (js_to_string xs v) (\<lambda>s. Inr (number_of_string s))"

text \<open>\<open>BigInt(v)\<close>.\<close>

definition bigint_from_string :: "string \<Rightarrow> exn + int" where
  "bigint_from_string s = (case bigint_of_string s of Some n \<Rightarrow> Inr n
     | None \<Rightarrow> Inl (syntax_error (''Cannot convert '' @ s @ '' to a BigInt'')))"

definition bigint_from_number :: "js_number \<Rightarrow> exn + int" where
  "bigint_from_number x =
     (let e = Inl (range_error (''The number '' @ number_to_string x @
        '' cannot be converted to a BigInt because it is not an integer''))
      in case x of Fin q \<Rightarrow> if q = of_int \<lfloor>q\<rfloor> then Inr \<lfloor>q\<rfloor> else e | _ \<Rightarrow> e)"

fun js_to_bigint :: "('x \<Rightarrow> exn + string) \<Rightarrow> 'x jsval \<Rightarrow> exn + int" where
  "js_to_bigint xs Undef = Inl (type_error ''Cannot convert undefined to a BigInt'')"
| "js_to_bigint xs Null = Inl (type_error ''Cannot convert null to a BigInt'')"
| "js_to_bigint xs (Bool b) = Inr (if b then 1 else 0)"
| "js_to_bigint xs (Num x) = bigint_from_number x"
| "js_to_bigint xs (BigInt n) = Inr n"
| "js_to_bigint xs (Str s) = bigint_from_string s"
| "js_to_bigint xs v = bindE (js_to_string xs v) bigint_from_string"

lemma bigint_from_number_of_int [simp]:
  "\<bar>n\<bar> \<le> 2 ^ 53 \<Longrightarrow> bigint_from_number (number_of_int n) = Inr n"
  by (simp add: bigint_from_number_def number_of_int_exact Let_def)

lemma bigint_from_dec_int [simp]: "bigint_from_string (dec_int n) = Inr n"
  by (simp add: bigint_from_string_def)

section \<open>JSON text\<close>

definition hex_char :: "nat \<Rightarrow> char" where
  "hex_char d = char_of (if d < 10 then 48 + d else 87 + d)"

definition json_char :: "char \<Rightarrow> string" where
  "json_char c = (let n = of_char c :: nat in
     if c = CHR 0x22 then [CHR 0x5C, CHR 0x22] else if c = CHR 0x5C then [CHR 0x5C, CHR 0x5C]
     else if n = 8 then CHR 0x5C # ''b'' else if n = 9 then CHR 0x5C # ''t''
     else if n = 10 then CHR 0x5C # ''n'' else if n = 12 then CHR 0x5C # ''f''
     else if n = 13 then CHR 0x5C # ''r''
     else if n < 32 then CHR 0x5C # ''u00'' @ [hex_char (n div 16), hex_char (n mod 16)]
     else [c])"

definition json_quote :: "string \<Rightarrow> string" where
  "json_quote s = CHR 0x22 # concat (map json_char s) @ [CHR 0x22]"

definition json_number :: "js_number \<Rightarrow> string" where
  "json_number x = (case x of Fin q \<Rightarrow> number_to_string x | _ \<Rightarrow> ''null'')"

text \<open>
  \<open>JSON.stringify(v)\<close>; \<open>None\<close> is \<open>undefined\<close>, which an array prints as \<open>null\<close> and an object
  drops. A BigInt anywhere in the value throws. The values given to it here hold no host object.
\<close>

fun json_stringify :: "'x jsval \<Rightarrow> exn + string option" where
  "json_stringify Undef = Inr None"
| "json_stringify Null = Inr (Some ''null'')"
| "json_stringify (Bool b) = Inr (Some (if b then ''true'' else ''false''))"
| "json_stringify (Num x) = Inr (Some (json_number x))"
| "json_stringify (BigInt n) = Inl (type_error ''Do not know how to serialize a BigInt'')"
| "json_stringify (Str s) = Inr (Some (json_quote s))"
| "json_stringify (Arr vs) =
     bindE (mapE json_stringify vs) (\<lambda>ts.
       Inr (Some (''['' @ join '','' (map (\<lambda>t. case t of None \<Rightarrow> ''null'' | Some s \<Rightarrow> s) ts) @ '']'')))"
| "json_stringify (Obj fs) =
     bindE (mapE (\<lambda>(k, v). bindE (json_stringify v) (\<lambda>t. Inr (map_option (\<lambda>s. json_quote k @ '':'' @ s) t))) fs)
       (\<lambda>ts. Inr (Some (CHR 0x7B # join '','' (List.map_filter (\<lambda>t. t) ts) @ [CHR 0x7D])))"
| "json_stringify (Ext x) = Inr None"

lemma mapE_Inl: "x \<in> set xs \<Longrightarrow> f x = Inl e \<Longrightarrow> (\<And>y e'. y \<in> set xs \<Longrightarrow> f y = Inl e' \<Longrightarrow> e' = e) \<Longrightarrow>
  mapE f xs = Inl e"
proof (induction xs)
  case (Cons a xs)
  show ?case
  proof (cases "f a")
    case (Inl e')
    with Cons.prems(3) [of a e'] show ?thesis by simp
  next
    case (Inr y)
    then have "x \<in> set xs" using Cons.prems(1,2) by force
    then have "mapE f xs = Inl e" using Cons.prems(2,3) by (rule Cons.IH) simp_all
    with Inr show ?thesis by simp
  qed
qed simp

lemma mapE_error: "mapE f xs = Inl e \<Longrightarrow> \<exists>x\<in>set xs. f x = Inl e"
  by (induction xs) (auto simp: bindE_Inl_iff)

lemma json_only_error: "json_stringify v = Inl e \<Longrightarrow> e = type_error ''Do not know how to serialize a BigInt''"
proof (induction v arbitrary: e rule: json_stringify.induct)
  case (7 vs)
  then obtain v where "v \<in> set vs" "json_stringify v = Inl e"
    by (auto simp: bindE_Inl_iff dest: mapE_error)
  with 7 show ?case by blast
next
  case (8 fs)
  from "8.prems" have "mapE (\<lambda>(k, v). bindE (json_stringify v) (\<lambda>t. Inr (map_option (\<lambda>s. json_quote k @ '':'' @ s) t))) fs = Inl e"
    by (simp add: bindE_Inl_iff)
  then obtain k v where kv: "(k, v) \<in> set fs" "json_stringify v = Inl e"
    by (auto simp: bindE_Inl_iff dest!: mapE_error)
  then show ?case using "8.IH" [OF kv(1) refl] by blast
qed simp_all

text \<open>An object with a BigInt among its properties cannot be serialised.\<close>

lemma json_bigint_throws:
  assumes "(k, BigInt n) \<in> set fs"
  shows "json_stringify (Obj fs) = Inl (type_error ''Do not know how to serialize a BigInt'')"
proof -
  have "mapE (\<lambda>(k, v). bindE (json_stringify v) (\<lambda>t. Inr (map_option (\<lambda>s. json_quote k @ '':'' @ s) t))) fs
      = Inl (type_error ''Do not know how to serialize a BigInt'')"
    by (rule mapE_Inl [OF assms]) (auto simp: bindE_Inl_iff dest: json_only_error)
  then show ?thesis by simp
qed

section \<open>Computations on a state\<close>

type_synonym ('s, 'a) js = "'s \<Rightarrow> (exn + 'a) \<times> 's"

definition js_return :: "'a \<Rightarrow> ('s, 'a) js" where
  "js_return x s = (Inr x, s)"

definition js_throw :: "exn \<Rightarrow> ('s, 'a) js" where
  "js_throw e s = (Inl e, s)"

definition js_bind :: "('s, 'a) js \<Rightarrow> ('a \<Rightarrow> ('s, 'b) js) \<Rightarrow> ('s, 'b) js" where
  "js_bind m f s = (case m s of (Inl e, s') \<Rightarrow> (Inl e, s') | (Inr x, s') \<Rightarrow> f x s')"

definition js_lift :: "exn + 'a \<Rightarrow> ('s, 'a) js" where
  "js_lift m s = (m, s)"

definition js_try :: "('s, 'a) js \<Rightarrow> (exn \<Rightarrow> ('s, 'a) js) \<Rightarrow> ('s, 'a) js" where
  "js_try m h s = (case m s of (Inl e, s') \<Rightarrow> h e s' | (Inr x, s') \<Rightarrow> (Inr x, s'))"

definition js_read :: "('s \<Rightarrow> 'a) \<Rightarrow> ('s, 'a) js" where
  "js_read f s = (Inr (f s), s)"

definition js_modify :: "('s \<Rightarrow> 's) \<Rightarrow> ('s, unit) js" where
  "js_modify f s = (Inr (), f s)"

fun js_each :: "('a \<Rightarrow> ('s, unit) js) \<Rightarrow> 'a list \<Rightarrow> ('s, unit) js" where
  "js_each f [] = js_return ()"
| "js_each f (x # xs) = js_bind (f x) (\<lambda>_. js_each f xs)"

lemma js_simps [model_simps]:
  "js_return x s = (Inr x, s)"
  "js_throw e s = (Inl e, s)"
  "js_lift r s = (r, s)"
  "js_read f s = (Inr (f s), s)"
  "js_modify g s = (Inr (), g s)"
  by (simp_all add: js_return_def js_throw_def js_lift_def js_read_def js_modify_def)

lemma js_bind_run [model_simps]:
  "m s = (Inr x, s') \<Longrightarrow> js_bind m f s = f x s'"
  "m s = (Inl e, s') \<Longrightarrow> js_bind m f s = (Inl e, s')"
  by (simp_all add: js_bind_def)

lemma js_bind_simps [model_simps]:
  "js_bind (js_return x) f s = f x s"
  "js_bind (js_throw e) f s = (Inl e, s)"
  "js_bind (js_lift (Inr x)) f s = f x s"
  "js_bind (js_lift (Inl e)) f s = (Inl e, s)"
  "js_bind (js_read g) f1 s = f1 (g s) s"
  "js_bind (js_modify h) f2 s = f2 () (h s)"
  by (simp_all add: js_bind_def js_simps)

lemma js_bind_assoc: "js_bind (js_bind m f) g = js_bind m (\<lambda>x. js_bind (f x) g)"
  by (rule ext) (simp add: js_bind_def split: prod.split sum.split)

lemma js_try_run [model_simps]:
  "m s = (Inr x, s') \<Longrightarrow> js_try m h s = (Inr x, s')"
  "m s = (Inl e, s') \<Longrightarrow> js_try m h s = h e s'"
  by (simp_all add: js_try_def)

lemma js_each_append: "js_each f (xs @ ys) = js_bind (js_each f xs) (\<lambda>_. js_each f ys)"
  by (induction xs) (simp_all add: js_bind_assoc, simp_all add: fun_eq_iff js_bind_def js_return_def)

end
