(* ===== verification/Store.thy ===== *)
theory Store
  imports Js_Value
begin

text \<open>
  \<open>backend/src/db/store.js\<close>: the event cache. A database is its three tables; each method of
  \<open>CacheStore\<close> is a function of the same name, the SQL of both dialects translated statement by
  statement. The database engine and its Node driver are a parameter (\<open>driver\<close>): how a value
  binds to an integer or a text column, the collation, the order in which rows are scanned
  (SQL leaves the order of ties open), SQLite's date functions and the errors raised.
\<close>

section \<open>Tables\<close>

datatype dialect = Sqlite | Postgres

record meter_row =
  mr_event_id :: "string option"
  mr_contract_id :: "string option"
  mr_ledger :: "int option"
  mr_device_id :: string
  mr_operator :: "string option"
  mr_units :: int
  mr_rate_per_unit :: int
  mr_cost :: int
  mr_balance_after :: "int option"
  mr_seq :: "int option"
  mr_ledger_ts :: "int option"
  mr_emitted_at :: "string option"
  mr_raw :: "string option"

record pending_row =
  pr_id :: nat
  pr_device_id :: string
  pr_device_pubkey :: string
  pr_seq :: int
  pr_delta_units :: int
  pr_timestamp_ms :: int
  pr_tx_hash :: "string option"
  pr_accepted_at :: string

text \<open>
  \<open>meter_columns\<close> is \<open>None\<close> while the table does not exist; a cache file written by an older
  version has the table without the column \<open>ledger_ts\<close>.
\<close>

record db =
  meter_columns :: "string list option"
  meta :: "string \<rightharpoonup> string option"
  meter_events :: "meter_row list"
  pending_readings :: "pending_row list"
  next_pending :: nat

record 'x driver =
  dialect :: dialect
  bind_int :: "'x jsval \<Rightarrow> exn + int option"
  bind_text :: "'x jsval \<Rightarrow> exn + string option"
  text_le :: "string \<Rightarrow> string \<Rightarrow> bool"
  scan :: "meter_row list \<Rightarrow> meter_row list"
  sqlite_date :: "string \<Rightarrow> string option"
  sqlite_hour :: "string \<Rightarrow> string option"
  not_null_violation :: "string \<Rightarrow> exn"
  no_column :: "string \<Rightarrow> exn"
  sum_overflow :: exn

type_synonym 'a db_op = "(db, 'a) js"

section \<open>Opening the store\<close>

definition meter_schema :: "string list" where
  "meter_schema = [''id'', ''event_id'', ''contract_id'', ''ledger'', ''device_id'', ''operator'', ''units'',
     ''rate_per_unit'', ''cost'', ''balance_after'', ''seq'', ''ledger_ts'', ''emitted_at'', ''raw'']"

definition store_kind :: "'x jsval \<Rightarrow> dialect" where
  "store_kind databaseUrl = (if truthy databaseUrl then Postgres else Sqlite)"

definition create_tables :: "db \<Rightarrow> db" where
  "create_tables s = (case meter_columns s of None \<Rightarrow> s\<lparr>meter_columns := Some meter_schema\<rparr> | Some _ \<Rightarrow> s)"

definition migrateCompat :: "db \<Rightarrow> db" where
  "migrateCompat s = (case meter_columns s of
       None \<Rightarrow> s
     | Some cols \<Rightarrow> if ''ledger_ts'' \<in> set cols then s
         else s\<lparr>meter_columns := Some (cols @ [''ledger_ts'']),
                meter_events := map (\<lambda>r. r\<lparr>mr_ledger_ts := None\<rparr>) (meter_events s)\<rparr>)"

definition open_store :: "'x driver \<Rightarrow> db \<Rightarrow> db" where
  "open_store drv s = (case dialect drv of
       Sqlite \<Rightarrow> migrateCompat (create_tables s)
     | Postgres \<Rightarrow> create_tables s)"

text \<open>A statement that names a column the table lacks fails.\<close>

definition has_column :: "string \<Rightarrow> db \<Rightarrow> bool" where
  "has_column c s = (case meter_columns s of None \<Rightarrow> False | Some cols \<Rightarrow> c \<in> set cols)"

definition need_column :: "'x driver \<Rightarrow> string \<Rightarrow> unit db_op" where
  "need_column drv c s = (if has_column c s then (Inr (), s) else (Inl (no_column drv c), s))"

section \<open>The ledger watermark\<close>

definition getLastLedger :: "js_number db_op" where
  "getLastLedger = js_bind (js_read (\<lambda>s. meta s ''last_ledger'')) (\<lambda>row.
     js_return (case row of
         None \<Rightarrow> Fin 0
       | Some None \<Rightarrow> Fin 0
       | Some (Some v) \<Rightarrow> number_of_string v))"

definition setLastLedger :: "'x driver \<Rightarrow> js_number \<Rightarrow> unit db_op" where
  "setLastLedger drv ledger =
     js_bind (js_lift (bind_text drv (Str (number_to_string ledger)))) (\<lambda>v.
     js_modify (\<lambda>s. s\<lparr>meta := (meta s)(''last_ledger'' \<mapsto> v)\<rparr>))"

section \<open>Ingesting an event\<close>

text \<open>The row a caller passes: an object whose absent properties are \<open>undefined\<close>.\<close>

record 'x event_row =
  er_event_id :: "'x jsval"
  er_contract_id :: "'x jsval"
  er_ledger :: "'x jsval"
  er_device_id :: "'x jsval"
  er_operator :: "'x jsval"
  er_units :: "'x jsval"
  er_rate_per_unit :: "'x jsval"
  er_cost :: "'x jsval"
  er_balance_after :: "'x jsval"
  er_seq :: "'x jsval"
  er_ledger_ts :: "'x jsval"
  er_emitted_at :: "'x jsval"
  er_raw :: "'x jsval"

abbreviation zero :: "'x jsval" where "zero \<equiv> Num (Fin 0)"

definition ingest_ctx :: "'x event_row \<Rightarrow> 'x event_row" where
  "ingest_ctx row = row\<lparr>
     er_contract_id := nullish (er_contract_id row) Null,
     er_ledger := nullish (er_ledger row) Null,
     er_operator := nullish (er_operator row) Null,
     er_units := nullish (er_units row) zero,
     er_rate_per_unit := nullish (er_rate_per_unit row) zero,
     er_cost := nullish (er_cost row) zero,
     er_balance_after := nullish (er_balance_after row) Null,
     er_seq := nullish (er_seq row) Null,
     er_ledger_ts := nullish (er_ledger_ts row) Null,
     er_emitted_at := nullish (er_emitted_at row) Null,
     er_raw := nullish (er_raw row) Null\<rparr>"

text \<open>
  Binding the thirteen parameters, in their order. The result carries the columns declared
  \<open>NOT NULL\<close> as options: the row is complete when all of them hold a value.
\<close>

definition bind_row ::
    "'x driver \<Rightarrow> 'x event_row \<Rightarrow>
     exn + (string option \<times> int option \<times> int option \<times> int option \<times> (string \<Rightarrow> int \<Rightarrow> int \<Rightarrow> int \<Rightarrow> meter_row))" where
  "bind_row drv ctx =
     bindE (bind_text drv (er_event_id ctx)) (\<lambda>event_id.
     bindE (bind_text drv (er_contract_id ctx)) (\<lambda>contract_id.
     bindE (bind_int drv (er_ledger ctx)) (\<lambda>ledger.
     bindE (bind_text drv (er_device_id ctx)) (\<lambda>device_id.
     bindE (bind_text drv (er_operator ctx)) (\<lambda>operator.
     bindE (bind_int drv (er_units ctx)) (\<lambda>units.
     bindE (bind_int drv (er_rate_per_unit ctx)) (\<lambda>rate.
     bindE (bind_int drv (er_cost ctx)) (\<lambda>cost.
     bindE (bind_int drv (er_balance_after ctx)) (\<lambda>balance_after.
     bindE (bind_int drv (er_seq ctx)) (\<lambda>seq.
     bindE (bind_int drv (er_ledger_ts ctx)) (\<lambda>ledger_ts.
     bindE (bind_text drv (er_emitted_at ctx)) (\<lambda>emitted_at.
     bindE (bind_text drv (er_raw ctx)) (\<lambda>raw.
       Inr (device_id, units, rate, cost, \<lambda>d u r c.
         \<lparr>mr_event_id = event_id, mr_contract_id = contract_id, mr_ledger = ledger,
          mr_device_id = d, mr_operator = operator, mr_units = u, mr_rate_per_unit = r,
          mr_cost = c, mr_balance_after = balance_after, mr_seq = seq, mr_ledger_ts = ledger_ts,
          mr_emitted_at = emitted_at, mr_raw = raw\<rparr>))))))))))))))"

definition complete_row ::
    "string option \<times> int option \<times> int option \<times> int option \<times> (string \<Rightarrow> int \<Rightarrow> int \<Rightarrow> int \<Rightarrow> meter_row) \<Rightarrow>
     string + meter_row" where
  "complete_row p = (case p of (device_id, units, rate, cost, mk) \<Rightarrow>
     bindE (ok_or device_id ''device_id'') (\<lambda>d.
     bindE (ok_or units ''units'') (\<lambda>u.
     bindE (ok_or rate ''rate_per_unit'') (\<lambda>r.
     bindE (ok_or cost ''cost'') (\<lambda>c. Inr (mk d u r c))))))"

text \<open>A unique column admits one row per value and any number of NULLs.\<close>

definition known_event :: "string option \<Rightarrow> db \<Rightarrow> bool" where
  "known_event k s = (k \<noteq> None \<and> k \<in> set (map mr_event_id (meter_events s)))"

definition insert_event :: "meter_row \<Rightarrow> db \<Rightarrow> db" where
  "insert_event r s = (if known_event (mr_event_id r) s then s
     else s\<lparr>meter_events := meter_events s @ [r]\<rparr>)"

text \<open>
  SQLite's \<open>INSERT OR IGNORE\<close> skips a row that violates \<open>UNIQUE\<close> or \<open>NOT NULL\<close>; Postgres'
  \<open>ON CONFLICT (event_id) DO NOTHING\<close> covers the unique column only.
\<close>

definition ingest :: "'x driver \<Rightarrow> 'x event_row \<Rightarrow> unit db_op" where
  "ingest drv row =
     js_bind (need_column drv ''ledger_ts'') (\<lambda>_.
     js_bind (js_lift (bind_row drv (ingest_ctx row))) (\<lambda>vals.
       case complete_row vals of
         Inl column \<Rightarrow> (case dialect drv of
             Sqlite \<Rightarrow> js_return ()
           | Postgres \<Rightarrow> js_throw (not_null_violation drv column))
       | Inr r \<Rightarrow> js_modify (insert_event r)))"

section \<open>Ordering\<close>

text \<open>A stable sort by an order given as a function: SQL's \<open>ORDER BY\<close> on the scanned rows.\<close>

fun insort_by :: "('a \<Rightarrow> 'a \<Rightarrow> bool) \<Rightarrow> 'a \<Rightarrow> 'a list \<Rightarrow> 'a list" where
  "insort_by le x [] = [x]"
| "insort_by le x (y # ys) = (if le x y then x # y # ys else y # insort_by le x ys)"

definition sort_by :: "('a \<Rightarrow> 'a \<Rightarrow> bool) \<Rightarrow> 'a list \<Rightarrow> 'a list" where
  "sort_by le xs = foldr (insort_by le) xs []"

text \<open>Ascending order of a nullable column: NULL is first in SQLite and last in Postgres.\<close>

definition null_le :: "dialect \<Rightarrow> ('a \<Rightarrow> 'a \<Rightarrow> bool) \<Rightarrow> 'a option \<Rightarrow> 'a option \<Rightarrow> bool" where
  "null_le d le x y = (case (x, y) of
       (Some a, Some b) \<Rightarrow> le a b
     | (None, None) \<Rightarrow> True
     | (None, Some _) \<Rightarrow> d = Sqlite
     | (Some _, None) \<Rightarrow> d = Postgres)"

section \<open>Queries\<close>

text \<open>The \<open>WHERE\<close> clause of \<open>metricsFor\<close> and \<open>aggregate\<close>: a comparison with NULL is not true.\<close>

definition compare_text :: "(string \<Rightarrow> string \<Rightarrow> bool) \<Rightarrow> string option \<Rightarrow> string option \<Rightarrow> bool" where
  "compare_text cmp x y = (case (x, y) of (Some a, Some b) \<Rightarrow> cmp a b | _ \<Rightarrow> False)"

definition where_clause ::
    "'x driver \<Rightarrow> 'x jsval \<Rightarrow> 'x jsval \<Rightarrow> 'x jsval \<Rightarrow> exn + (meter_row \<Rightarrow> bool)" where
  "where_clause drv deviceId frm to =
     bindE (bind_text drv deviceId) (\<lambda>d.
     bindE (if truthy frm then bindE (bind_text drv frm) (\<lambda>f. Inr (\<lambda>r. compare_text (text_le drv) f (mr_emitted_at r)))
            else Inr (\<lambda>r. True)) (\<lambda>after.
     bindE (if truthy to then bindE (bind_text drv to) (\<lambda>t. Inr (\<lambda>r. compare_text (text_le drv) (mr_emitted_at r) t))
            else Inr (\<lambda>r. True)) (\<lambda>before.
       Inr (\<lambda>r. d = Some (mr_device_id r) \<and> after r \<and> before r))))"

text \<open>Both drivers return integers as JavaScript numbers.\<close>

record sample =
  sm_device_id :: string
  sm_units :: js_number
  sm_cost :: js_number
  sm_rate_per_unit :: js_number
  sm_balance_after :: "js_number option"
  sm_seq :: "js_number option"
  sm_emitted_at :: "string option"

definition sample_of :: "meter_row \<Rightarrow> sample" where
  "sample_of r = \<lparr>sm_device_id = mr_device_id r, sm_units = number_of_int (mr_units r),
     sm_cost = number_of_int (mr_cost r), sm_rate_per_unit = number_of_int (mr_rate_per_unit r),
     sm_balance_after = map_option number_of_int (mr_balance_after r),
     sm_seq = map_option number_of_int (mr_seq r), sm_emitted_at = mr_emitted_at r\<rparr>"

definition seq_le :: "'x driver \<Rightarrow> meter_row \<Rightarrow> meter_row \<Rightarrow> bool" where
  "seq_le drv r1 r2 = null_le (dialect drv) (\<le>) (mr_seq r1) (mr_seq r2)"

definition metricsFor :: "'x driver \<Rightarrow> 'x jsval \<Rightarrow> 'x jsval \<Rightarrow> 'x jsval \<Rightarrow> sample list db_op" where
  "metricsFor drv deviceId frm to =
     js_bind (js_lift (where_clause drv deviceId frm to)) (\<lambda>P.
     js_read (\<lambda>s. map sample_of (sort_by (seq_le drv) (filter P (scan drv (meter_events s))))))"

text \<open>
  \<open>SUM\<close> of an integer column: SQLite accumulates in 64 bits and raises on overflow, Postgres'
  sum is exact.
\<close>

definition in_i64 :: "int \<Rightarrow> bool" where
  "in_i64 n \<longleftrightarrow> - (2 ^ 63) \<le> n \<and> n < 2 ^ 63"

fun sum_i64 :: "int \<Rightarrow> int list \<Rightarrow> int option" where
  "sum_i64 acc [] = Some acc"
| "sum_i64 acc (n # ns) = (if in_i64 (acc + n) then sum_i64 (acc + n) ns else None)"

definition sql_sum :: "'x driver \<Rightarrow> int list \<Rightarrow> exn + int" where
  "sql_sum drv ns = (case dialect drv of
       Sqlite \<Rightarrow> ok_or (sum_i64 0 ns) (sum_overflow drv)
     | Postgres \<Rightarrow> Inr (sum_list ns))"

text \<open>\<open>MIN\<close> and \<open>MAX\<close> ignore NULLs and are NULL without a value.\<close>

fun sql_max :: "int option list \<Rightarrow> int option" where
  "sql_max [] = None"
| "sql_max (None # xs) = sql_max xs"
| "sql_max (Some n # xs) = (case sql_max xs of None \<Rightarrow> Some n | Some m \<Rightarrow> Some (max n m))"

definition sql_min :: "int option list \<Rightarrow> int option" where
  "sql_min xs = map_option uminus (sql_max (map (map_option uminus) xs))"

record bucket_row =
  bk_bucket :: "string option"
  bk_total_units :: js_number
  bk_total_cost :: js_number
  bk_event_count :: js_number
  bk_min_balance :: "js_number option"
  bk_max_balance :: "js_number option"

text \<open>\<open>left(emitted_at, n)\<close> on Postgres, \<open>date\<close> and \<open>strftime\<close> on SQLite.\<close>

definition bucket_of :: "'x driver \<Rightarrow> 'x jsval \<Rightarrow> meter_row \<Rightarrow> string option" where
  "bucket_of drv granularity r = (case mr_emitted_at r of None \<Rightarrow> None
     | Some e \<Rightarrow>
       if granularity = Str ''hour''
       then (case dialect drv of Sqlite \<Rightarrow> sqlite_hour drv e | Postgres \<Rightarrow> Some (take 13 e @ '':00:00''))
       else (case dialect drv of Sqlite \<Rightarrow> sqlite_date drv e | Postgres \<Rightarrow> Some (take 10 e)))"

definition bucket_row_of ::
    "'x driver \<Rightarrow> string option \<Rightarrow> meter_row list \<Rightarrow> exn + bucket_row" where
  "bucket_row_of drv b rs =
     bindE (sql_sum drv (map mr_units rs)) (\<lambda>units.
     bindE (sql_sum drv (map mr_cost rs)) (\<lambda>cost.
       Inr \<lparr>bk_bucket = b, bk_total_units = number_of_int units, bk_total_cost = number_of_int cost,
         bk_event_count = number_of_int (int (length rs)),
         bk_min_balance = map_option number_of_int (sql_min (map mr_balance_after rs)),
         bk_max_balance = map_option number_of_int (sql_max (map mr_balance_after rs))\<rparr>))"

definition aggregate ::
    "'x driver \<Rightarrow> 'x jsval \<Rightarrow> 'x jsval \<Rightarrow> 'x jsval \<Rightarrow> 'x jsval \<Rightarrow> bucket_row list db_op" where
  "aggregate drv deviceId frm to granularity0 =
     (let granularity = (if granularity0 = Undef then Str ''day'' else granularity0);
          key = bucket_of drv granularity
      in js_bind (js_lift (where_clause drv deviceId frm to)) (\<lambda>P.
         js_bind (js_read (\<lambda>s. filter P (scan drv (meter_events s)))) (\<lambda>rows.
         js_lift (mapE (\<lambda>b. bucket_row_of drv b (filter (\<lambda>r. key r = b) rows))
           (sort_by (null_le (dialect drv) (text_le drv)) (remdups (map key rows)))))))"

definition latestSequence :: "'x driver \<Rightarrow> 'x jsval \<Rightarrow> js_number db_op" where
  "latestSequence drv deviceId =
     js_bind (js_lift (bind_text drv deviceId)) (\<lambda>d.
     js_read (\<lambda>s. case sql_max (map mr_seq (filter (\<lambda>r. d = Some (mr_device_id r)) (meter_events s))) of
         None \<Rightarrow> Fin 0 | Some n \<Rightarrow> number_of_int n))"

record device_row =
  dv_device_id :: string
  dv_event_count :: js_number
  dv_total_units :: js_number
  dv_total_cost :: js_number
  dv_last_ledger :: "js_number option"
  dv_last_activity :: "js_number option"

definition device_row_of :: "'x driver \<Rightarrow> string \<Rightarrow> meter_row list \<Rightarrow> exn + device_row" where
  "device_row_of drv d rs =
     bindE (sql_sum drv (map mr_units rs)) (\<lambda>units.
     bindE (sql_sum drv (map mr_cost rs)) (\<lambda>cost.
       Inr \<lparr>dv_device_id = d, dv_event_count = number_of_int (int (length rs)),
         dv_total_units = number_of_int units, dv_total_cost = number_of_int cost,
         dv_last_ledger = map_option number_of_int (sql_max (map mr_ledger rs)),
         dv_last_activity = map_option number_of_int (sql_max (map mr_ledger_ts rs))\<rparr>))"

definition listDevices :: "'x driver \<Rightarrow> device_row list db_op" where
  "listDevices drv =
     js_bind (need_column drv ''ledger_ts'') (\<lambda>_.
     js_bind (js_read (\<lambda>s. scan drv (meter_events s))) (\<lambda>rows.
       let group = (\<lambda>d. filter (\<lambda>r. mr_device_id r = d) rows);
           last = (\<lambda>d. sql_max (map mr_ledger (group d)))
       in js_lift (mapE (\<lambda>d. device_row_of drv d (group d))
            (sort_by (\<lambda>d1 d2. null_le (dialect drv) (\<le>) (last d2) (last d1)) (remdups (map mr_device_id rows))))))"

section \<open>Pending readings\<close>

text \<open>
  A plain \<open>INSERT\<close>: a NULL in a \<open>NOT NULL\<close> column raises in both dialects. Postgres draws the
  id from a sequence, which a failed insert advances as well. \<open>now\<close> is the clock's ISO string.
\<close>

definition recordPendingReading ::
    "'x driver \<Rightarrow> string \<Rightarrow> 'x jsval \<Rightarrow> 'x jsval \<Rightarrow> 'x jsval \<Rightarrow> 'x jsval \<Rightarrow> 'x jsval \<Rightarrow> 'x jsval \<Rightarrow> unit db_op" where
  "recordPendingReading drv now device_id device_pubkey sequence delta_units timestamp_ms tx_hash =
     js_bind (js_lift (bind_text drv device_id)) (\<lambda>d.
     js_bind (js_lift (bind_text drv device_pubkey)) (\<lambda>k.
     js_bind (js_lift (bind_int drv sequence)) (\<lambda>q.
     js_bind (js_lift (bind_int drv delta_units)) (\<lambda>u.
     js_bind (js_lift (bind_int drv timestamp_ms)) (\<lambda>t.
     js_bind (js_lift (bind_text drv (nullish tx_hash Null))) (\<lambda>h.
     js_bind (js_lift (bind_text drv (Str now))) (\<lambda>a.
     js_bind (js_read next_pending) (\<lambda>i.
       case (d, k, q, u, t, a) of
         (Some d', Some k', Some q', Some u', Some t', Some a') \<Rightarrow>
           js_modify (\<lambda>s. s\<lparr>next_pending := Suc i, pending_readings := pending_readings s @
             [\<lparr>pr_id = i, pr_device_id = d', pr_device_pubkey = k', pr_seq = q', pr_delta_units = u',
               pr_timestamp_ms = t', pr_tx_hash = h, pr_accepted_at = a'\<rparr>]\<rparr>)
       | _ \<Rightarrow> js_bind (js_modify (\<lambda>s. if dialect drv = Postgres then s\<lparr>next_pending := Suc i\<rparr> else s)) (\<lambda>_.
           js_throw (not_null_violation drv
             (if d = None then ''device_id'' else if k = None then ''device_pubkey'' else if q = None then ''seq''
              else if u = None then ''delta_units'' else if t = None then ''timestamp_ms'' else ''accepted_at'')))))))))))"

definition pendingReadings :: "'x driver \<Rightarrow> 'x jsval \<Rightarrow> pending_row list db_op" where
  "pendingReadings drv deviceId =
     (if truthy deviceId
      then js_bind (js_lift (bind_text drv deviceId)) (\<lambda>d.
        js_read (\<lambda>s. sort_by (\<lambda>r1 r2. pr_id r1 \<le> pr_id r2)
          (filter (\<lambda>r. d = Some (pr_device_id r)) (pending_readings s))))
      else js_read (\<lambda>s. sort_by (\<lambda>r1 r2. pr_id r1 \<le> pr_id r2) (pending_readings s)))"

end
