(* ===== verification/Sql_Text.thy ===== *)
theory Sql_Text
  imports Store
begin

text \<open>
  The statements of \<open>backend/src/db/store.js\<close> as the text that is sent, with its arguments.
  \<open>_ph\<close> writes a placeholder: \<open>?\<close> for SQLite, which binds the arguments in the order of the
  placeholders, and \<open>$n\<close> for Postgres, which binds them by number. White space between the words
  of a statement is written as one blank.
\<close>

section \<open>Statements\<close>

definition ph :: "dialect \<Rightarrow> nat \<Rightarrow> string" where
  "ph d n = (case d of Sqlite \<Rightarrow> ''?'' | Postgres \<Rightarrow> CHR ''$'' # dec_int (int n))"

text \<open>The conditions of \<open>metricsFor\<close> and \<open>aggregate\<close>, pushed with their arguments.\<close>

definition push_condition ::
    "dialect \<Rightarrow> string \<Rightarrow> 'x jsval \<Rightarrow> string list \<times> 'x jsval list \<Rightarrow> string list \<times> 'x jsval list" where
  "push_condition d c v wa = (case wa of (w, args) \<Rightarrow>
     if truthy v then (w @ [c @ ph d (length args + 1)], args @ [v]) else (w, args))"

definition where_text ::
    "dialect \<Rightarrow> 'x jsval \<Rightarrow> 'x jsval \<Rightarrow> 'x jsval \<Rightarrow> string list \<times> 'x jsval list" where
  "where_text d deviceId frm to =
     push_condition d ''emitted_at <= '' to
       (push_condition d ''emitted_at >= '' frm ([''device_id = '' @ ph d 1], [deviceId]))"

definition quoted :: "string \<Rightarrow> string" where
  "quoted s = CHR 0x27 # s @ [CHR 0x27]"

definition bucket_text :: "dialect \<Rightarrow> 'x jsval \<Rightarrow> string" where
  "bucket_text d granularity =
     (if granularity = Str ''hour''
      then (case d of
          Sqlite \<Rightarrow> ''strftime('' @ quoted ''%Y-%m-%dT%H:00:00'' @ '', emitted_at)''
        | Postgres \<Rightarrow> ''left(emitted_at, 13) || '' @ quoted '':00:00'')
      else (case d of Sqlite \<Rightarrow> ''date(emitted_at)'' | Postgres \<Rightarrow> ''left(emitted_at, 10)''))"

definition event_columns :: string where
  "event_columns = ''(event_id, contract_id, ledger, device_id, operator, units, rate_per_unit, cost, balance_after, seq, ledger_ts, emitted_at, raw)''"

text \<open>The calls of \<open>CacheStore\<close> that send a statement.\<close>

datatype 'x store_call =
    RecordPendingReading string "'x jsval" "'x jsval" "'x jsval" "'x jsval" "'x jsval" "'x jsval"
  | PendingReadings "'x jsval"
  | GetLastLedger
  | SetLastLedger js_number
  | Ingest "'x event_row"
  | MetricsFor "'x jsval" "'x jsval" "'x jsval"
  | Aggregate "'x jsval" "'x jsval" "'x jsval" "'x jsval"
  | LatestSequence "'x jsval"
  | ListDevices

definition event_args :: "'x event_row \<Rightarrow> 'x jsval list" where
  "event_args ctx =
     [er_event_id ctx, er_contract_id ctx, er_ledger ctx, er_device_id ctx, er_operator ctx, er_units ctx,
      er_rate_per_unit ctx, er_cost ctx, er_balance_after ctx, er_seq ctx, er_ledger_ts ctx, er_emitted_at ctx,
      er_raw ctx]"

fun statement :: "dialect \<Rightarrow> 'x store_call \<Rightarrow> string \<times> 'x jsval list" where
  "statement d (RecordPendingReading now device_id device_pubkey sequence delta_units timestamp_ms tx_hash) =
     (''INSERT INTO pending_readings (device_id, device_pubkey, seq, delta_units, timestamp_ms, tx_hash, accepted_at) VALUES (''
        @ join '', '' (map (ph d) [1, 2, 3, 4, 5, 6, 7]) @ '')'',
      [device_id, device_pubkey, sequence, delta_units, timestamp_ms, nullish tx_hash Null, Str now])"
| "statement d (PendingReadings deviceId) =
     (if truthy deviceId
      then (''SELECT * FROM pending_readings WHERE device_id = '' @ ph d 1 @ '' ORDER BY id'', [deviceId])
      else (''SELECT * FROM pending_readings ORDER BY id'', []))"
| "statement d GetLastLedger = (''SELECT value FROM meta WHERE key = '' @ quoted ''last_ledger'', [])"
| "statement d (SetLastLedger ledger) =
     (''INSERT INTO meta (key, value) VALUES ('' @ quoted ''last_ledger'' @
      (case d of
         Sqlite \<Rightarrow> '', ?) ON CONFLICT(key) DO UPDATE SET value = excluded.value''
       | Postgres \<Rightarrow> '', '' @ ph d 1 @ '') ON CONFLICT (key) DO UPDATE SET value = EXCLUDED.value''),
      [Str (number_to_string ledger)])"
| "statement d (Ingest row) =
     ((case d of
         Sqlite \<Rightarrow> ''INSERT OR IGNORE INTO meter_events '' @ event_columns
           @ '' VALUES (?, ?, ?, ?, ?, ?, ?, ?, ?, ?, ?, ?, ?)''
       | Postgres \<Rightarrow> ''INSERT INTO meter_events '' @ event_columns
           @ '' VALUES ($1, $2, $3, $4, $5, $6, $7, $8, $9, $10, $11, $12, $13) ON CONFLICT (event_id) DO NOTHING''),
      event_args (ingest_ctx row))"
| "statement d (MetricsFor deviceId frm to) =
     (case where_text d deviceId frm to of (w, args) \<Rightarrow>
       (''SELECT device_id, units, cost, rate_per_unit, balance_after, seq, emitted_at FROM meter_events WHERE ''
          @ join '' AND '' w @ '' ORDER BY seq ASC'', args))"
| "statement d (Aggregate deviceId frm to granularity) =
     (case where_text d deviceId frm to of (w, args) \<Rightarrow>
       (''SELECT '' @ bucket_text d granularity
          @ '' AS bucket, SUM(units) AS total_units, SUM(cost) AS total_cost, COUNT(*) AS event_count, ''
          @ ''MIN(balance_after) AS min_balance, MAX(balance_after) AS max_balance FROM meter_events WHERE ''
          @ join '' AND '' w @ '' GROUP BY bucket ORDER BY bucket ASC'', args))"
| "statement d (LatestSequence deviceId) =
     (''SELECT MAX(seq) AS seq FROM meter_events WHERE device_id = '' @ ph d 1, [deviceId])"
| "statement d ListDevices =
     (''SELECT device_id, COUNT(*) AS event_count, SUM(units) AS total_units, SUM(cost) AS total_cost, ''
        @ ''MAX(ledger) AS last_ledger, MAX(ledger_ts) AS last_activity FROM meter_events ''
        @ ''GROUP BY device_id ORDER BY last_ledger DESC'', [])"

section \<open>What the drivers bind\<close>

text \<open>
  The numbers of the arguments that the placeholders of a text stand for, in the order of the
  text, as SQLite and Postgres document them; a placeholder inside a quoted literal is none.
\<close>

fun leading_number :: "nat \<Rightarrow> string \<Rightarrow> nat" where
  "leading_number n [] = n"
| "leading_number n (c # cs) = (if is_digit c then leading_number (10 * n + digit_value c) cs else n)"

fun placeholders :: "dialect \<Rightarrow> bool \<Rightarrow> nat \<Rightarrow> string \<Rightarrow> nat list" where
  "placeholders d q k [] = []"
| "placeholders d q k (c # cs) =
     (if c = CHR 0x27 then placeholders d (\<not> q) k cs
      else if q then placeholders d q k cs
      else if d = Sqlite \<and> c = CHR ''?'' then Suc k # placeholders d q (Suc k) cs
      else if d = Postgres \<and> c = CHR ''$'' then leading_number 0 cs # placeholders d q k cs
      else placeholders d q k cs)"

lemma ph_simps [simp]:
  "ph Sqlite n = ''?''"
  "ph Postgres 1 = ''$1''" "ph Postgres (Suc 0) = ''$1''" "ph Postgres 2 = ''$2''" "ph Postgres 3 = ''$3''"
  "ph Postgres 4 = ''$4''" "ph Postgres 5 = ''$5''" "ph Postgres 6 = ''$6''" "ph Postgres 7 = ''$7''"
  subgoal by (simp add: ph_def)
  subgoal by code_simp
  subgoal by code_simp
  subgoal by code_simp
  subgoal by code_simp
  subgoal by code_simp
  subgoal by code_simp
  subgoal by code_simp
  subgoal by code_simp
  done

text \<open>The arguments in the order in which a driver binds them; a missing one is an error.\<close>

fun bound_args :: "nat list \<Rightarrow> 'a list \<Rightarrow> 'a list option" where
  "bound_args [] args = Some []"
| "bound_args (k # ks) args =
     (if 1 \<le> k \<and> k \<le> length args then map_option ((#) (args ! (k - 1))) (bound_args ks args) else None)"

lemma bound_args_upt:
  "1 \<le> m \<Longrightarrow> m \<le> Suc (length args) \<Longrightarrow> bound_args [m..<Suc (length args)] args = Some (drop (m - 1) args)"
proof (induction "Suc (length args) - m" arbitrary: m)
  case 0
  then show ?case by simp
next
  case (Suc n)
  then have "m < Suc (length args)" by simp
  moreover have "args ! (m - 1) # drop m args = drop (m - 1) args"
    using Suc.prems calculation Cons_nth_drop_Suc [of "m - 1" args] by simp
  ultimately show ?case using Suc.hyps(1) [of "Suc m"] Suc.hyps(2) Suc.prems
    by (simp add: upt_conv_Cons del: upt_Suc)
qed

lemma bound_args_all: "bound_args [1..<Suc (length args)] args = Some args"
  using bound_args_upt [of 1 args] by simp

text \<open>Every statement has one placeholder for each argument, in their order.\<close>

lemma where_text_cases:
  "where_text d deviceId frm to =
     ((''device_id = '' @ ph d 1)
        # (if truthy frm then [''emitted_at >= '' @ ph d 2] else [])
        @ (if truthy to then [''emitted_at <= '' @ ph d (if truthy frm then 3 else 2)] else []),
      deviceId # (if truthy frm then [frm] else []) @ (if truthy to then [to] else []))"
  by (simp add: where_text_def push_condition_def numeral_2_eq_2 numeral_3_eq_3)

lemmas placeholder_simps = is_digit_def digit_value_def quoted_def event_columns_def event_args_def

text \<open>The parts of the queries with optional conditions, each read once.\<close>

lemma placeholders_where:
  "placeholders d False 0 (join '' AND '' (fst (where_text d deviceId frm to)) @ CHR '' '' # s) =
     [1..<Suc (length (snd (where_text d deviceId frm to)))] @
     placeholders d False (if d = Sqlite then length (snd (where_text d deviceId frm to)) else 0) s"
  by (cases d; cases "truthy frm"; cases "truthy to") (simp_all add: where_text_cases placeholder_simps)

lemma placeholders_bucket: "placeholders d False k (bucket_text d g @ s) = placeholders d False k s"
  by (cases d; cases "g = Str ''hour''") (simp_all add: bucket_text_def quoted_def)

lemma placeholders_aggregate:
  "placeholders d False k (''SELECT '' @ s) = placeholders d False k s"
  "placeholders d False k ('' AS bucket, SUM(units) AS total_units, SUM(cost) AS total_cost, COUNT(*) AS event_count, '' @ s)
    = placeholders d False k s"
  "placeholders d False k (''MIN(balance_after) AS min_balance, MAX(balance_after) AS max_balance FROM meter_events WHERE '' @ s)
    = placeholders d False k s"
  "placeholders d False k ''GROUP BY bucket ORDER BY bucket ASC'' = []"
  by simp_all

lemma placeholders_metrics:
  "placeholders d False k
     (''SELECT device_id, units, cost, rate_per_unit, balance_after, seq, emitted_at FROM meter_events WHERE '' @ s)
    = placeholders d False k s"
  "placeholders d False k ''ORDER BY seq ASC'' = []"
  by simp_all

lemma placeholders_statement:
  "placeholders d False 0 (fst (statement d c)) = [1..<Suc (length (snd (statement d c)))]"
proof (cases c)
  case (Aggregate a f t g)
  show ?thesis
    by (simp only: Aggregate statement.simps split_beta fst_conv snd_conv append_assoc placeholders_aggregate
      placeholders_bucket placeholders_where append_Nil2)
next
  case (MetricsFor a f t)
  show ?thesis
    by (simp only: MetricsFor statement.simps split_beta fst_conv snd_conv append_assoc placeholders_metrics
      placeholders_where append_Nil2)
qed (cases d; simp add: placeholder_simps)+

text \<open>
  The same call with its values replaced: what is left is which conditions are pushed and the
  granularity.
\<close>

definition blank_value :: "'x jsval \<Rightarrow> 'x jsval" where
  "blank_value v = (if truthy v then Str ''x'' else Null)"

definition blank_row :: "'x event_row" where
  "blank_row = \<lparr>er_event_id = Null, er_contract_id = Null, er_ledger = Null, er_device_id = Null,
     er_operator = Null, er_units = Null, er_rate_per_unit = Null, er_cost = Null, er_balance_after = Null,
     er_seq = Null, er_ledger_ts = Null, er_emitted_at = Null, er_raw = Null\<rparr>"

fun blank :: "'x store_call \<Rightarrow> 'x store_call" where
  "blank (RecordPendingReading now a b c d e f) = RecordPendingReading [] Null Null Null Null Null Null"
| "blank (PendingReadings deviceId) = PendingReadings (blank_value deviceId)"
| "blank GetLastLedger = GetLastLedger"
| "blank (SetLastLedger ledger) = SetLastLedger NaN"
| "blank (Ingest row) = Ingest blank_row"
| "blank (MetricsFor deviceId frm to) = MetricsFor Null (blank_value frm) (blank_value to)"
| "blank (Aggregate deviceId frm to granularity) =
     Aggregate Null (blank_value frm) (blank_value to) (if granularity = Str ''hour'' then granularity else Null)"
| "blank (LatestSequence deviceId) = LatestSequence Null"
| "blank ListDevices = ListDevices"

lemma truthy_blank [simp]: "truthy (blank_value v) = truthy v"
  by (simp add: blank_value_def)

lemma where_text_blank: "fst (where_text d a (blank_value frm) (blank_value to)) = fst (where_text d b frm to)"
  by (simp add: where_text_cases)

lemma bucket_text_blank: "bucket_text d (if g = Str ''hour'' then g else Null) = bucket_text d g"
  by (simp add: bucket_text_def)

lemma statement_blank: "fst (statement d (blank c)) = fst (statement d c)"
proof (cases c)
  case (Aggregate a f t g)
  then show ?thesis using where_text_blank [of d Null f t a] bucket_text_blank [of d g]
    by (simp add: split_beta del: if_split_asm)
next
  case (MetricsFor a f t)
  then show ?thesis using where_text_blank [of d Null f t a] by (simp add: split_beta)
qed (simp_all)

lemma statement_args_dialect: "snd (statement d c) = snd (statement d' c)"
  by (cases c) (simp_all add: where_text_cases)

section \<open>The model of the statements binds these arguments\<close>

lemma where_clause_binds:
  "bindE (where_clause drv deviceId frm to) (\<lambda>_. Inr ()) =
     bindE (mapE (bind_text drv) (snd (where_text (dialect drv) deviceId frm to))) (\<lambda>_. Inr ())"
  by (simp add: where_clause_def where_text_cases bindE_assoc)

section \<open>Properties\<close>

text \<open>C38. Every statement of the cache, in both dialects, has exactly one placeholder for each of its
  arguments, in their order; what the driver binds is the same list of values whichever database
  is used; and no value reaches the text of a statement: replacing every value of a call by a
  fixed one (which conditions are pushed and the granularity aside) leaves the text as it is.
\<close>

theorem statements_bind_every_value:
  "placeholders d False 0 (fst (statement d c)) = [1..<Suc (length (snd (statement d c)))] \<and>
   bound_args (placeholders d False 0 (fst (statement d c))) (snd (statement d c)) = Some (snd (statement Sqlite c)) \<and>
   fst (statement d (blank c)) = fst (statement d c)"
  using placeholders_statement [of d c] bound_args_all [of "snd (statement d c)"]
  by (simp only: statement_blank statement_args_dialect [of d c Sqlite] simp_thms)

end
