(* ===== verification/Bytes.thy ===== *)
theory Bytes
  imports Prelude
begin

text \<open>
  Byte-level encodings: the big-endian encoding of \<open>u64\<close> (Rust's \<open>to_be_bytes\<close>), the
  interface of a fixed-width codec, and its consequence for concatenated fields, on which the
  unambiguity of the signed payload rests.
\<close>

unbundle bit_operations_syntax

definition u64_to_be_bytes :: "u64 \<Rightarrow> byte list" where
  "u64_to_be_bytes w = map (\<lambda>i. ucast (drop_bit (8 * (7 - i)) w)) [0..<8]"

lemma length_u64_to_be_bytes [simp]: "length (u64_to_be_bytes w) = 8"
  by (simp add: u64_to_be_bytes_def)

lemma bit_u64_to_be_bytes:
  assumes "i < 8" and "n < 8"
  shows "bit (u64_to_be_bytes w ! i) n \<longleftrightarrow> bit w (8 * (7 - i) + n)"
  using assms by (simp add: u64_to_be_bytes_def bit_unsigned_iff bit_drop_bit_eq)

lemma u64_to_be_bytes_inj: "u64_to_be_bytes v = u64_to_be_bytes w \<Longrightarrow> v = w"
proof (rule bit_word_eqI)
  fix m :: nat
  assume eq: "u64_to_be_bytes v = u64_to_be_bytes w" and m: "m < LENGTH(64)"
  define i where "i = 7 - m div 8"
  have i: "i < 8" "8 * (7 - i) + m mod 8 = m"
    using m by (auto simp: i_def)
  have "bit v m \<longleftrightarrow> bit (u64_to_be_bytes v ! i) (m mod 8)"
    using i by (simp add: bit_u64_to_be_bytes)
  also have "\<dots> \<longleftrightarrow> bit w m"
    unfolding eq using i by (simp add: bit_u64_to_be_bytes)
  finally show "bit v m \<longleftrightarrow> bit w m" .
qed

section \<open>Fixed-width codecs\<close>

text \<open>
  What a field of a byte payload promises: on valid values it encodes to a fixed number of
  bytes, and injectively.
\<close>

locale fixed_codec =
  fixes enc :: "'a \<Rightarrow> byte list"
    and width :: nat
    and valid :: "'a \<Rightarrow> bool"
  assumes enc_width: "valid a \<Longrightarrow> length (enc a) = width"
    and enc_inj: "valid a \<Longrightarrow> valid b \<Longrightarrow> enc a = enc b \<Longrightarrow> a = b"
begin

text \<open>A field at the front of a longer payload can be read off unambiguously.\<close>

lemma enc_append_inj:
  assumes "valid a" and "valid b" and "enc a @ xs = enc b @ ys"
  shows "a = b \<and> xs = ys"
  using assms enc_width [of a] enc_width [of b] enc_inj [of a b] by simp

end

interpretation be64: fixed_codec u64_to_be_bytes 8 "\<lambda>_. True"
  by unfold_locales (auto dest: u64_to_be_bytes_inj)

interpretation raw_key: fixed_codec "\<lambda>pk. pk" 32 "\<lambda>pk. length pk = 32"
  by unfold_locales auto

section \<open>The signed payload\<close>

text \<open>
  \<open>SIGNING_DOMAIN\<close> and the payload
  \<open>SIGNING_DOMAIN || device_pubkey || data_seq(be) || delta_units(be) || timestamp(be)\<close>
  that the contract, the gateway and the device emulator build. A byte string literal is the
  list of its character codes.
\<close>

definition bytes_of_string :: "string \<Rightarrow> byte list" where
  "bytes_of_string s = map of_char s"

definition signed_payload :: "byte list \<Rightarrow> u64 \<Rightarrow> u64 \<Rightarrow> u64 \<Rightarrow> byte list" where
  "signed_payload pk seq delta ts =
     bytes_of_string ''iot-billing-v1'' @ pk @ u64_to_be_bytes seq
       @ u64_to_be_bytes delta @ u64_to_be_bytes ts"

lemma length_signed_payload: "length pk = 32 \<Longrightarrow> length (signed_payload pk q d t) = 70"
  by (simp add: signed_payload_def bytes_of_string_def)

lemma signed_payload_inj:
  assumes "length pk = 32" and "length pk' = 32"
    and eq: "signed_payload pk q d t = signed_payload pk' q' d' t'"
  shows "pk = pk' \<and> q = q' \<and> d = d' \<and> t = t'"
proof -
  have "pk @ u64_to_be_bytes q @ u64_to_be_bytes d @ u64_to_be_bytes t =
        pk' @ u64_to_be_bytes q' @ u64_to_be_bytes d' @ u64_to_be_bytes t'"
    using eq by (simp add: signed_payload_def)
  then have pk: "pk = pk'"
    and "u64_to_be_bytes q @ u64_to_be_bytes d @ u64_to_be_bytes t =
         u64_to_be_bytes q' @ u64_to_be_bytes d' @ u64_to_be_bytes t'"
    using raw_key.enc_append_inj [OF assms(1,2)] by blast+
  then have "q = q'" and "u64_to_be_bytes d @ u64_to_be_bytes t = u64_to_be_bytes d' @ u64_to_be_bytes t'"
    using be64.enc_append_inj by blast+
  then show ?thesis
    using pk be64.enc_append_inj u64_to_be_bytes_inj by blast
qed

end
