(* ===== verification/Readings.thy ===== *)
theory Readings
  imports Store Bytes
begin

text \<open>
  \<open>backend/src/api/readings.js\<close>: the telemetry gateway. A device posts a signed reading; the
  gateway checks the fields and the signature, relays the reading to the contract when a relayer
  is configured, and records it. Node's crypto, the Stellar SDK and the network are parameters.
  A handler that throws outside its \<open>try\<close> blocks leaves the request unanswered, with the
  rejection unhandled: the \<open>Inl\<close> case of \<open>post_reading\<close>.
\<close>

section \<open>Node's buffers\<close>

definition hex_digit :: "char \<Rightarrow> nat option" where
  "hex_digit c = (if radix_digit c < 16 then Some (radix_digit c) else None)"

text \<open>\<open>Buffer.from(s, 'hex')\<close>: whole bytes up to the first pair that is not hexadecimal.\<close>

fun hex_decode :: "string \<Rightarrow> byte list" where
  "hex_decode (a # b # s) = (case (hex_digit a, hex_digit b) of
       (Some x, Some y) \<Rightarrow> of_nat (16 * x + y) # hex_decode s
     | _ \<Rightarrow> [])"
| "hex_decode _ = []"

definition to_uint8 :: "js_number \<Rightarrow> byte" where
  "to_uint8 x = (case x of Fin q \<Rightarrow> of_int (if 0 \<le> q then \<lfloor>q\<rfloor> else \<lceil>q\<rceil>) | _ \<Rightarrow> 0)"

text \<open>
  \<open>Buffer.from(v, 'hex')\<close> of a parsed value: a string is decoded, an array is taken as bytes;
  a number, a boolean, \<open>null\<close> and \<open>undefined\<close> throw. What Node makes of other objects is a
  parameter.
\<close>

record 'x node =
  buffer_of_object :: "'x jsval \<Rightarrow> exn + byte list"
  host_text :: "'x \<Rightarrow> exn + string"
  create_public_key :: "byte list \<Rightarrow> exn + unit"
  ed25519_check :: "byte list \<Rightarrow> byte list \<Rightarrow> byte list \<Rightarrow> bool"

definition invalid_buffer :: exn where
  "invalid_buffer = type_error (''The first argument must be of type string or an instance of Buffer, ''
     @ ''ArrayBuffer, or Array or an Array-like Object.'')"

definition buffer_from :: "'x node \<Rightarrow> 'x jsval \<Rightarrow> exn + byte list" where
  "buffer_from node v = (case v of
       Str s \<Rightarrow> Inr (hex_decode s)
     | Arr vs \<Rightarrow> mapE (\<lambda>e. bindE (js_to_number (host_text node) e) (\<lambda>x. Inr (to_uint8 x))) vs
     | Obj fs \<Rightarrow> buffer_of_object node v
     | Ext x \<Rightarrow> buffer_of_object node v
     | _ \<Rightarrow> Inl invalid_buffer)"

text \<open>\<open>SIGNING_DOMAIN\<close> and \<open>u64be\<close>: \<open>writeBigUInt64BE\<close> accepts 64 unsigned bits.\<close>

definition SIGNING_DOMAIN :: "byte list" where
  "SIGNING_DOMAIN = bytes_of_string ''iot-billing-v1''"

definition u64be :: "js_number \<Rightarrow> exn + byte list" where
  "u64be n = bindE (bigint_from_number n) (\<lambda>k.
     if 0 \<le> k \<and> k < 2 ^ 64 then Inr (u64_to_be_bytes (of_int k))
     else Inl (range_error ''The value of \"value\" is out of range.''))"

section \<open>Verifying a signature\<close>

definition verifyDeviceSignature ::
    "'x node \<Rightarrow> 'x jsval \<Rightarrow> js_number \<Rightarrow> js_number \<Rightarrow> js_number \<Rightarrow> 'x jsval \<Rightarrow> exn + bool" where
  "verifyDeviceSignature node devicePubkeyHex seq deltaUnits timestampMs signatureHex =
     bindE (buffer_from node devicePubkeyHex) (\<lambda>pubkey.
     if length pubkey \<noteq> 32 then Inr False
     else bindE (buffer_from node signatureHex) (\<lambda>signature.
     if length signature \<noteq> 64 then Inr False
     else (case create_public_key node pubkey of
         Inl _ \<Rightarrow> Inr False
       | Inr _ \<Rightarrow>
         bindE (u64be seq) (\<lambda>q. bindE (u64be deltaUnits) (\<lambda>u. bindE (u64be timestampMs) (\<lambda>t.
           Inr (ed25519_check node pubkey (SIGNING_DOMAIN @ pubkey @ q @ u @ t) signature)))))))"

definition parseU64 :: "'x node \<Rightarrow> 'x jsval \<Rightarrow> string \<Rightarrow> exn + js_number" where
  "parseU64 node v name =
     bindE (js_to_number (host_text node) v) (\<lambda>n.
     if \<not> is_safe_integer n \<or> js_less n (Fin 0)
     then Inl (type_error (name @ '' must be a non-negative safe integer''))
     else Inr n)"

section \<open>Relaying\<close>

text \<open>
  The arguments of the contract call as tagged values (\<open>Address.toScVal\<close>, \<open>nativeToScVal\<close>), the
  transaction, and the answer of the RPC server to its submission. An account is its sequence
  number; the transaction built on it carries the next one.
\<close>

datatype relay_arg = ArgAddress string | ArgU64 js_number | ArgBytes "byte list"

record relay_tx =
  tx_source :: string
  tx_sequence :: int
  tx_contract :: string
  tx_function :: string
  tx_args :: "relay_arg list"
  tx_passphrase :: string
  tx_timeout :: nat

record send_result =
  res_status :: string
  res_hash :: string
  res_errors :: "(bool \<times> string option) list"

record ('n, 'p) stellar =
  keypair_public :: "string \<Rightarrow> exn + string"
  contract_id_ok :: "string \<Rightarrow> exn + unit"
  address_ok :: "string \<Rightarrow> exn + unit"
  encode_pubkey :: "byte list \<Rightarrow> exn + string"
  get_account :: "string \<Rightarrow> ('n, int) js"
  prepare_transaction :: "relay_tx \<Rightarrow> ('n, 'p) js"
  send_transaction :: "string \<Rightarrow> 'p \<Rightarrow> ('n, send_result) js"

definition relay_args :: "string \<Rightarrow> js_number \<Rightarrow> js_number \<Rightarrow> js_number \<Rightarrow> byte list \<Rightarrow> relay_arg list" where
  "relay_args deviceAddress deltaUnits seq timestampMs sig =
     [ArgAddress deviceAddress, ArgU64 deltaUnits, ArgU64 seq, ArgU64 timestampMs, ArgBytes sig]"

definition relay_tx_of :: "string \<Rightarrow> int \<Rightarrow> string \<Rightarrow> string \<Rightarrow> relay_arg list \<Rightarrow> relay_tx" where
  "relay_tx_of relayer account contractId passphrase args = \<lparr>tx_source = relayer, tx_sequence = account + 1,
     tx_contract = contractId, tx_function = ''submit_reading'', tx_args = args, tx_passphrase = passphrase, tx_timeout = 30\<rparr>"

definition error_codes :: "(bool \<times> string option) list \<Rightarrow> string list" where
  "error_codes infos = List.map_filter (\<lambda>(has, other). if has then other else None) infos"

definition relay_outcome :: "send_result \<Rightarrow> exn + string" where
  "relay_outcome res =
     (if res_status res = ''PENDING'' \<or> res_status res = ''SUCCESS'' then Inr (res_hash res)
      else if res_status res = ''ERROR''
      then let codes = join '' / '' (error_codes (res_errors res)) in
        Inl (Exn ''Error'' (''contract rejected: '' @ (if codes = [] then res_status res else codes)))
      else Inl (Exn ''Error'' (''sendTransaction status='' @ res_status res)))"

definition relayReading ::
    "'x node \<Rightarrow> ('n, 'p) stellar \<Rightarrow> string \<Rightarrow> string \<Rightarrow> string \<Rightarrow> string \<Rightarrow> 'x jsval \<Rightarrow>
     js_number \<Rightarrow> js_number \<Rightarrow> js_number \<Rightarrow> ('n, string) js" where
  "relayReading node sdk passphrase contractId relayerSecret deviceAddress sigHex deltaUnits seq timestampMs =
     js_bind (js_lift (keypair_public sdk relayerSecret)) (\<lambda>relayer.
     js_bind (js_lift (contract_id_ok sdk contractId)) (\<lambda>_.
     js_bind (js_lift (buffer_from node sigHex)) (\<lambda>sig.
     js_bind (js_lift (address_ok sdk deviceAddress)) (\<lambda>_.
     js_bind (get_account sdk relayer) (\<lambda>account.
     js_bind (prepare_transaction sdk
        (relay_tx_of relayer account contractId passphrase (relay_args deviceAddress deltaUnits seq timestampMs sig))) (\<lambda>prepared.
     js_bind (send_transaction sdk relayer prepared) (\<lambda>res.
     js_lift (relay_outcome res))))))))"

section \<open>The route\<close>

record gateway_config =
  cfg_contract_id :: string
  cfg_relayer_secret :: string
  cfg_passphrase :: string

record 'x reply =
  reply_status :: nat
  reply_body :: "'x jsval"

record 'n gateway =
  gw_db :: db
  gw_net :: 'n
  gw_console :: "string list"

definition on_db :: "'a db_op \<Rightarrow> ('n gateway, 'a) js" where
  "on_db m s = (case m (gw_db s) of (r, c) \<Rightarrow> (r, s\<lparr>gw_db := c\<rparr>))"

definition on_net :: "('n, 'a) js \<Rightarrow> ('n gateway, 'a) js" where
  "on_net m s = (case m (gw_net s) of (r, n) \<Rightarrow> (r, s\<lparr>gw_net := n\<rparr>))"

definition error_reply :: "nat \<Rightarrow> string \<Rightarrow> 'x reply" where
  "error_reply status msg = \<lparr>reply_status = status, reply_body = Obj [(''error'', Str msg)]\<rparr>"

lemma error_reply_status [simp]: "reply_status (error_reply n msg) = n"
  by (simp add: error_reply_def)

definition required_fields :: "string list" where
  "required_fields = [''device_pubkey'', ''seq'', ''delta_units'', ''timestamp_ms'', ''signature'']"

definition missing_fields :: "'x jsval \<Rightarrow> string" where
  "missing_fields body = join '', '' (filter (\<lambda>k. get_prop body k = Undef) required_fields)"

text \<open>The dash of the note is its UTF-8 encoding.\<close>

definition accepted_note :: string where
  "accepted_note = ''accepted; no relayer configured '' @ [CHR 0xE2, CHR 0x80, CHR 0x94] @ '' not submitted on-chain''"

text \<open>The handler from the accepted signature on.\<close>

definition accept_reading ::
    "'x node \<Rightarrow> ('n, 'p) stellar \<Rightarrow> 'x driver \<Rightarrow> gateway_config \<Rightarrow> string \<Rightarrow> 'x jsval \<Rightarrow> 'x jsval \<Rightarrow>
     js_number \<Rightarrow> js_number \<Rightarrow> js_number \<Rightarrow> ('n gateway, 'x reply) js" where
  "accept_reading node sdk drv cfg now devicePubkeyHex signatureHex seqN deltaN tsN =
     (case bindE (buffer_from node devicePubkeyHex) (encode_pubkey sdk) of
        Inl _ \<Rightarrow> js_return (error_reply 400 ''invalid device_pubkey'')
      | Inr deviceAddress \<Rightarrow>
        let record = (\<lambda>tx_hash. on_db (recordPendingReading drv now (Str deviceAddress) devicePubkeyHex
              (Num seqN) (Num deltaN) (Num tsN) tx_hash)) in
        if cfg_contract_id cfg \<noteq> [] \<and> cfg_relayer_secret cfg \<noteq> []
        then js_try
          (js_bind (on_net (relayReading node sdk (cfg_passphrase cfg) (cfg_contract_id cfg)
              (cfg_relayer_secret cfg) deviceAddress signatureHex deltaN seqN tsN)) (\<lambda>txHash.
           js_bind (record (Str txHash)) (\<lambda>_.
           js_return \<lparr>reply_status = 200, reply_body = Obj [(''ok'', Bool True),
             (''tx_hash'', Str txHash), (''device_id'', Str deviceAddress)]\<rparr>)))
          (\<lambda>e. js_bind (js_modify (\<lambda>s. s\<lparr>gw_console := gw_console s @ [''[gateway] relay failed: '' @ exn_message e]\<rparr>)) (\<lambda>_.
             js_return (error_reply 502 (''relay failed: '' @ exn_message e))))
        else js_bind (record Null) (\<lambda>_.
           js_return \<lparr>reply_status = 202, reply_body = Obj [(''ok'', Bool True), (''relayed'', Bool False),
             (''device_id'', Str deviceAddress), (''note'', Str accepted_note)]\<rparr>))"

definition post_reading ::
    "'x node \<Rightarrow> ('n, 'p) stellar \<Rightarrow> 'x driver \<Rightarrow> gateway_config \<Rightarrow> string \<Rightarrow> 'x jsval \<Rightarrow> ('n gateway, 'x reply) js" where
  "post_reading node sdk drv cfg now body =
     (let devicePubkeyHex = get_prop body ''device_pubkey''; signatureHex = get_prop body ''signature'' in
      if missing_fields body \<noteq> [] then js_return (error_reply 400 (''missing fields: '' @ missing_fields body))
      else case bindE (parseU64 node (get_prop body ''seq'') ''seq'') (\<lambda>q.
             bindE (parseU64 node (get_prop body ''delta_units'') ''delta_units'') (\<lambda>d.
             bindE (parseU64 node (get_prop body ''timestamp_ms'') ''timestamp_ms'') (\<lambda>t. Inr (q, d, t)))) of
        Inl e \<Rightarrow> js_return (error_reply 400 (exn_message e))
      | Inr (seqN, deltaN, tsN) \<Rightarrow>
        js_bind (js_lift (verifyDeviceSignature node devicePubkeyHex seqN deltaN tsN signatureHex)) (\<lambda>valid.
        if \<not> valid then js_return (error_reply 401 ''invalid device signature'')
        else accept_reading node sdk drv cfg now devicePubkeyHex signatureHex seqN deltaN tsN))"

section \<open>Numbers and payloads\<close>

lemma parseU64_Inr:
  assumes "parseU64 node v name = Inr x"
  obtains n where "x = number_of_int n" and "0 \<le> n" and "n < 2 ^ 53"
proof -
  from assms have safe: "is_safe_integer x" and nonneg: "\<not> js_less x (Fin 0)"
    by (auto simp: parseU64_def bindE_Inr_iff split: if_splits)
  from safe obtain n where n: "x = Fin (of_int n)" "\<bar>n\<bar> \<le> 2 ^ 53 - 1" by (rule is_safe_integerE)
  then have "0 \<le> n" using nonneg by simp
  with n that [of n] show thesis by (simp add: number_of_int_exact)
qed

lemma u64be_int: "0 \<le> n \<Longrightarrow> n < 2 ^ 53 \<Longrightarrow> u64be (number_of_int n) = Inr (u64_to_be_bytes (of_int n))"
  by (simp add: u64be_def)

text \<open>
  The message whose signature the gateway checks is the contract's payload of the key, the
  sequence number, the units and the timestamp.
\<close>

lemma verify_payload:
  assumes "buffer_from node pk = Inr k" and "length k = 32"
    and "buffer_from node sg = Inr sig" and "length sig = 64" and "create_public_key node k = Inr ()"
    and "0 \<le> q" "q < 2 ^ 53" and "0 \<le> u" "u < 2 ^ 53" and "0 \<le> t" "t < 2 ^ 53"
  shows "verifyDeviceSignature node pk (number_of_int q) (number_of_int u) (number_of_int t) sg =
    Inr (ed25519_check node k (signed_payload k (of_int q) (of_int u) (of_int t)) sig)"
  using assms
  by (simp add: verifyDeviceSignature_def u64be_int signed_payload_def SIGNING_DOMAIN_def)

text \<open>An accepted signature is one over that payload.\<close>

lemma verify_True:
  assumes "verifyDeviceSignature node pk q u t sg = Inr True"
  obtains k sig where "buffer_from node pk = Inr k" "length k = 32" "buffer_from node sg = Inr sig" "length sig = 64"
    "create_public_key node k = Inr ()"
  using assms by (auto simp: verifyDeviceSignature_def bindE_Inr_iff split: if_splits sum.splits)

section \<open>Every outcome of the route\<close>

text \<open>
  The request is refused, or throws, with nothing done; or the signature was accepted, and then
  the reading went to the relay or to the table of pending readings.
\<close>

lemma post_reading_cases:
  fixes node :: "'x node"
  obtains (refused) r where "\<And>sdk. post_reading node (sdk :: ('n, 'p) stellar) drv cfg now body s = (Inr r, s)"
        "reply_status r \<in> {400, 401}"
    | (crashed) e where "\<And>sdk. post_reading node (sdk :: ('n, 'p) stellar) drv cfg now body s = (Inl e, s)"
        "missing_fields body = []"
    | (accepted) q u t where
        "parseU64 node (get_prop body ''seq'') ''seq'' = Inr q"
        "parseU64 node (get_prop body ''delta_units'') ''delta_units'' = Inr u"
        "parseU64 node (get_prop body ''timestamp_ms'') ''timestamp_ms'' = Inr t"
        "verifyDeviceSignature node (get_prop body ''device_pubkey'') q u t (get_prop body ''signature'') = Inr True"
        "\<And>sdk. post_reading node (sdk :: ('n, 'p) stellar) drv cfg now body s =
           accept_reading node sdk drv cfg now (get_prop body ''device_pubkey'') (get_prop body ''signature'') q u t s"
proof (cases "missing_fields body = []")
  case False
  then show thesis by (intro refused) (simp add: post_reading_def Let_def js_simps, simp)
next
  case none: True
  let ?p = "bindE (parseU64 node (get_prop body ''seq'') ''seq'') (\<lambda>q.
             bindE (parseU64 node (get_prop body ''delta_units'') ''delta_units'') (\<lambda>d.
             bindE (parseU64 node (get_prop body ''timestamp_ms'') ''timestamp_ms'') (\<lambda>t. Inr (q, d, t))))"
  show thesis
  proof (cases ?p)
    case (Inl e)
    with none show thesis by (intro refused) (simp add: post_reading_def Let_def js_simps, simp)
  next
    case p: (Inr qut)
    obtain q u t where qut: "qut = (q, u, t)" by (metis prod_cases3)
    let ?v = "verifyDeviceSignature node (get_prop body ''device_pubkey'') q u t (get_prop body ''signature'')"
    show thesis
    proof (cases ?v)
      case (Inl e)
      with none p qut show thesis by (intro crashed) (simp_all add: post_reading_def Let_def js_bind_simps)
    next
      case v: (Inr valid)
      show thesis
      proof (cases valid)
        case False
        with none p qut v show thesis
          by (intro refused) (simp add: post_reading_def Let_def js_bind_simps js_simps, simp)
      next
        case True
        from p qut have "parseU64 node (get_prop body ''seq'') ''seq'' = Inr q"
          "parseU64 node (get_prop body ''delta_units'') ''delta_units'' = Inr u"
          "parseU64 node (get_prop body ''timestamp_ms'') ''timestamp_ms'' = Inr t"
          by (auto simp: bindE_Inr_iff)
        moreover have "post_reading node sdk drv cfg now body s = accept_reading node sdk drv cfg now
            (get_prop body ''device_pubkey'') (get_prop body ''signature'') q u t s" for sdk :: "('n, 'p) stellar"
          using none p qut v True by (simp add: post_reading_def Let_def js_bind_simps)
        ultimately show thesis using True v by (intro accepted) simp_all
      qed
    qed
  qed
qed

end
