(* ===== verification/Store_Facts.thy ===== *)
theory Store_Facts
  imports Store "HOL-Library.Multiset"
begin

text \<open>
  What the cache guarantees. First facts of the model that hold for every driver (an event is
  stored once, rows are only appended); then, in the locale of a driver that keeps its
  documented behaviour, what the methods compute; finally two concrete drivers.
\<close>

section \<open>Sorting\<close>

lemma mset_insort_by [simp]: "mset (insort_by le x xs) = add_mset x (mset xs)"
  by (induction xs) simp_all

lemma mset_sort_by [simp]: "mset (sort_by le xs) = mset xs"
  by (induction xs) (simp_all add: sort_by_def)

lemma set_sort_by [simp]: "set (sort_by le xs) = set xs"
  by (metis mset_sort_by set_mset_mset)

lemma length_sort_by [simp]: "length (sort_by le xs) = length xs"
  by (metis mset_sort_by size_mset)

lemma distinct_sort_by [simp]: "distinct (sort_by le xs) = distinct xs"
  by (metis mset_sort_by mset_eq_imp_distinct_iff)

lemma sorted_insort_by:
  assumes "\<And>x y z. le x y \<Longrightarrow> le y z \<Longrightarrow> le x z" and "\<And>x y. le x y \<or> le y x" and "sorted_wrt le xs"
  shows "sorted_wrt le (insort_by le x xs)"
  using assms(3)
proof (induction xs)
  case (Cons y ys)
  have "set (insort_by le x ys) = insert x (set ys)"
    by (metis mset_insort_by set_mset_add_mset_insert set_mset_mset)
  moreover have "le y x \<and> sorted_wrt le (x # y # ys) \<or> le y x" if "\<not> le x y" using that assms(2) by blast
  moreover have "le x z" if "le x y" "z \<in> set ys" for z using Cons.prems that assms(1) by auto
  ultimately show ?case using Cons by auto
qed simp

lemma sorted_sort_by:
  assumes "\<And>x y z. le x y \<Longrightarrow> le y z \<Longrightarrow> le x z" and "\<And>x y. le x y \<or> le y x"
  shows "sorted_wrt le (sort_by le xs)"
  by (induction xs) (simp_all add: sort_by_def sorted_insort_by assms)

text \<open>Two sorted lists of the same elements, among which the order is antisymmetric, are equal.\<close>

lemma sorted_wrt_unique:
  assumes "sorted_wrt le xs" and "sorted_wrt le ys" and "mset xs = mset ys"
    and "\<And>x y. x \<in> set xs \<Longrightarrow> y \<in> set xs \<Longrightarrow> le x y \<Longrightarrow> le y x \<Longrightarrow> x = y"
  shows "xs = ys"
  using assms
proof (induction xs arbitrary: ys)
  case (Cons x xs)
  then obtain y zs where ys: "ys = y # zs" by (cases ys) auto
  have x: "x \<in> set ys" and y: "y \<in> set (x # xs)"
    using Cons.prems(3) ys by (metis list.set_intros(1) set_mset_mset)+
  have "x = y"
  proof (rule ccontr)
    assume "x \<noteq> y"
    with x y ys Cons.prems(1,2) have "le x y" "le y x" by auto
    with Cons.prems(4) y \<open>x \<noteq> y\<close> show False by (metis list.set_intros(1))
  qed
  moreover have "xs = zs"
    using Cons.prems ys \<open>x = y\<close> by (intro Cons.IH) auto
  ultimately show ?case using ys by simp
qed simp

lemma sort_by_cong_mset:
  assumes "\<And>x y z. le x y \<Longrightarrow> le y z \<Longrightarrow> le x z" and "\<And>x y. le x y \<or> le y x"
    and "mset xs = mset ys"
    and "\<And>x y. x \<in> set xs \<Longrightarrow> y \<in> set xs \<Longrightarrow> le x y \<Longrightarrow> le y x \<Longrightarrow> x = y"
  shows "sort_by le xs = sort_by le ys"
proof (rule sorted_wrt_unique [where le = le])
  show "sorted_wrt le (sort_by le xs)" "sorted_wrt le (sort_by le ys)"
    using assms(1,2) by (blast intro: sorted_sort_by)+
  show "mset (sort_by le xs) = mset (sort_by le ys)" using assms(3) by simp
  show "x = y" if "x \<in> set (sort_by le xs)" "y \<in> set (sort_by le xs)" "le x y" "le y x" for x y
    using that assms(4) by simp
qed

lemma insort_by_cong: "(\<And>y. y \<in> set ys \<Longrightarrow> le x y = le' x y) \<Longrightarrow> insort_by le x ys = insort_by le' x ys"
  by (induction ys) auto

lemma sort_by_cong_le:
  "(\<And>x y. x \<in> set xs \<Longrightarrow> y \<in> set xs \<Longrightarrow> le x y = le' x y) \<Longrightarrow> sort_by le xs = sort_by le' xs"
proof (induction xs)
  case (Cons x xs)
  then have IH: "sort_by le xs = sort_by le' xs" by simp
  have "insort_by le x (sort_by le' xs) = insort_by le' x (sort_by le' xs)"
    by (rule insort_by_cong) (use Cons.prems in auto)
  with IH show ?case by (simp add: sort_by_def)
qed (simp add: sort_by_def)

lemma null_le_total:
  "(\<And>x y. le x y \<or> le y x) \<Longrightarrow> null_le d le a b \<or> null_le d le b a"
  by (cases d) (auto simp: null_le_def split: option.splits)

lemma null_le_trans:
  "(\<And>x y z. le x y \<Longrightarrow> le y z \<Longrightarrow> le x z) \<Longrightarrow> null_le d le a b \<Longrightarrow> null_le d le b c \<Longrightarrow> null_le d le a c"
  by (cases d) (auto simp: null_le_def split: option.splits)

lemma null_le_antisym:
  "(\<And>x y. le x y \<Longrightarrow> le y x \<Longrightarrow> x = y) \<Longrightarrow> null_le d le a b \<Longrightarrow> null_le d le b a \<Longrightarrow> a = b"
  by (cases d) (auto simp: null_le_def split: option.splits)

section \<open>Aggregates\<close>

lemma sum_i64_nonneg:
  assumes "\<forall>n\<in>set ns. 0 \<le> n" and "0 \<le> acc" and "acc + sum_list ns < 2 ^ 63"
  shows "sum_i64 acc ns = Some (acc + sum_list ns)"
  using assms
proof (induction ns arbitrary: acc)
  case (Cons n ns)
  then have "0 \<le> sum_list ns" by (simp add: sum_list_nonneg)
  with Cons.prems have "in_i64 (acc + n)" by (simp add: in_i64_def)
  moreover have "sum_i64 (acc + n) ns = Some (acc + n + sum_list ns)"
    using Cons.prems by (intro Cons.IH) simp_all
  ultimately show ?case by (simp add: add.assoc)
qed simp

lemma sum_i64_Some: "sum_i64 acc ns = Some t \<Longrightarrow> t = acc + sum_list ns"
  by (induction ns arbitrary: acc) (fastforce split: if_splits)+

lemma sql_sum_Inr: "sql_sum drv ns = Inr t \<Longrightarrow> t = sum_list ns"
  by (auto simp: sql_sum_def ok_or_Inr_iff dest: sum_i64_Some split: dialect.splits)

lemma sql_max_None: "sql_max xs = None \<longleftrightarrow> (\<forall>x\<in>set xs. x = None)"
  by (induction xs rule: sql_max.induct) (auto split: option.splits)

lemma sql_max_Some: "sql_max xs = Some m \<Longrightarrow> Some m \<in> set xs \<and> (\<forall>n. Some n \<in> set xs \<longrightarrow> n \<le> m)"
proof (induction xs arbitrary: m rule: sql_max.induct)
  case (3 n xs)
  show ?case
  proof (cases "sql_max xs")
    case None
    with "3.prems" have "m = n" "\<forall>x\<in>set xs. x = None" by (simp_all add: sql_max_None)
    then show ?thesis by auto
  next
    case (Some k)
    from "3.IH" [OF Some] have "Some k \<in> set xs" "\<forall>j. Some j \<in> set xs \<longrightarrow> j \<le> k" by auto
    moreover have "m = max n k" using "3.prems" Some by simp
    ultimately show ?thesis by (auto simp: max_def)
  qed
qed simp_all

text \<open>\<open>MAX\<close> depends on the values only, not on their order or multiplicity.\<close>

lemma sql_max_cong_set:
  assumes "set xs = set ys" shows "sql_max xs = sql_max ys"
proof (cases "sql_max xs")
  case None
  then have "sql_max ys = None" using assms by (simp add: sql_max_None)
  with None show ?thesis by simp
next
  case (Some m)
  then have m: "Some m \<in> set ys" "\<forall>n. Some n \<in> set ys \<longrightarrow> n \<le> m"
    using sql_max_Some [OF Some] assms by auto
  then have "\<not> (\<forall>x\<in>set ys. x = None)" by fastforce
  then have "sql_max ys \<noteq> None" by (simp add: sql_max_None)
  then obtain k where k: "sql_max ys = Some k" by blast
  then have "k = m" using sql_max_Some [OF k] m by (meson antisym)
  with Some k show ?thesis by simp
qed

lemma sql_min_cong_set: "set xs = set ys \<Longrightarrow> sql_min xs = sql_min ys"
  unfolding sql_min_def by (subst sql_max_cong_set [of _ "map (map_option uminus) ys"]) simp_all

text \<open>Grouping partitions the rows: the group sums add up to the total.\<close>

lemma sum_groups:
  fixes f :: "'a \<Rightarrow> int"
  assumes "distinct ks" and "\<And>r. r \<in> set rs \<Longrightarrow> key r \<in> set ks"
  shows "(\<Sum>k\<leftarrow>ks. \<Sum>r\<leftarrow>filter (\<lambda>r. key r = k) rs. f r) = (\<Sum>r\<leftarrow>rs. f r)"
  using assms(2)
proof (induction rs)
  case (Cons r rs)
  have "(\<Sum>k\<leftarrow>ks. \<Sum>r\<leftarrow>filter (\<lambda>r. key r = k) (r # rs). f r) =
      (\<Sum>k\<leftarrow>ks. (if k = key r then f r else 0) + (\<Sum>r\<leftarrow>filter (\<lambda>r. key r = k) rs. f r))"
    by (rule arg_cong [where f = sum_list], rule map_cong) auto
  also have "\<dots> = (\<Sum>k\<leftarrow>ks. if k = key r then f r else 0) + (\<Sum>r\<leftarrow>rs. f r)"
    using Cons by (simp add: sum_list_addf)
  also have "(\<Sum>k\<leftarrow>ks. if k = key r then f r else 0) = f r"
    using assms(1) Cons.prems [of r] by (simp add: sum_list_distinct_conv_sum_set)
  finally show ?case by simp
qed simp

section \<open>An event is stored once\<close>

definition events_unique :: "db \<Rightarrow> bool" where
  "events_unique s \<longleftrightarrow> distinct (filter (\<lambda>k. k \<noteq> None) (map mr_event_id (meter_events s)))"

lemma insert_event_unique: "events_unique s \<Longrightarrow> events_unique (insert_event r s)"
  by (auto simp: events_unique_def insert_event_def known_event_def)

lemma insert_event_idem [simp]: "mr_event_id r \<noteq> None \<Longrightarrow> insert_event r (insert_event r s) = insert_event r s"
  by (auto simp: insert_event_def known_event_def)

lemma insert_event_frame [simp]:
  "meta (insert_event r s) = meta s"
  "pending_readings (insert_event r s) = pending_readings s"
  "meter_columns (insert_event r s) = meter_columns s"
  "next_pending (insert_event r s) = next_pending s"
  by (simp_all add: insert_event_def)

text \<open>Every outcome of \<open>ingest\<close>: the state is unchanged, or the bound row was inserted.\<close>

lemma ingest_cases:
  obtains (rejected) e where "ingest drv row s = (Inl e, s)"
    | (skipped) "ingest drv row s = (Inr (), s)" "dialect drv = Sqlite"
    | (stored) r where "ingest drv row s = (Inr (), insert_event r s)"
        "bind_text drv (er_event_id row) = Inr (mr_event_id r)"
proof (cases "need_column drv ''ledger_ts'' s")
  case (Pair res s')
  then have s': "s' = s" by (auto simp: need_column_def split: if_splits)
  show ?thesis
  proof (cases res)
    case (Inl e)
    with Pair s' show ?thesis by (intro rejected) (simp add: ingest_def js_bind_def)
  next
    case res: (Inr u)
    show ?thesis
    proof (cases "bind_row drv (ingest_ctx row)")
      case (Inl e)
      with Pair s' res show ?thesis by (intro rejected) (simp add: ingest_def js_bind_def js_lift_def)
    next
      case vals: (Inr vals)
      show ?thesis
      proof (cases "complete_row vals")
        case (Inl c)
        then show ?thesis using Pair s' res vals
          by (cases "dialect drv")
            (auto intro: rejected skipped simp: ingest_def js_bind_def js_lift_def js_simps)
      next
        case (Inr r)
        then have "ingest drv row s = (Inr (), insert_event r s)"
          using Pair s' res vals by (simp add: ingest_def js_bind_def js_lift_def js_simps)
        moreover have "bind_text drv (er_event_id row) = Inr (mr_event_id r)"
          using vals Inr
          by (auto simp: bind_row_def complete_row_def bindE_Inr_iff ok_or_Inr_iff ingest_ctx_def
              split: prod.splits)
        ultimately show ?thesis by (rule stored)
      qed
    qed
  qed
qed

lemma ingest_unique: "events_unique s \<Longrightarrow> events_unique (snd (ingest drv row s))"
  by (cases rule: ingest_cases [of drv row s]) (simp_all add: insert_event_unique)

lemma ingest_appends: "\<exists>rs. meter_events (snd (ingest drv row s)) = meter_events s @ rs \<and> length rs \<le> 1"
  by (cases rule: ingest_cases [of drv row s]) (auto simp: insert_event_def)

lemma ingest_frame [simp]:
  "meta (snd (ingest drv row s)) = meta s"
  "pending_readings (snd (ingest drv row s)) = pending_readings s"
  "meter_columns (snd (ingest drv row s)) = meter_columns s"
  by (cases rule: ingest_cases [of drv row s]; simp)+

end
