(* ===== verification/Store_Driver.thy ===== *)
theory Store_Driver
  imports Store_Facts "HOL-Library.List_Lexorder" "HOL-Library.Char_ord"
begin

text \<open>
  The contract between the cache and its database driver, what the methods of the cache
  compute under it, and two drivers that keep it, one per dialect.
\<close>

section \<open>ISO timestamps\<close>

text \<open>
  The strings of \<open>Date.prototype.toISOString\<close> for the years 0 to 9999:
  \<open>YYYY-MM-DDTHH:MM:SS.sssZ\<close> with a day of the calendar.
\<close>

definition field :: "nat \<Rightarrow> nat \<Rightarrow> string \<Rightarrow> nat" where
  "field i n e = digits_value (take n (drop i e))"

definition days_in_month :: "nat \<Rightarrow> nat \<Rightarrow> nat" where
  "days_in_month y m = (if m = 2 then (if y mod 4 = 0 \<and> (y mod 100 \<noteq> 0 \<or> y mod 400 = 0) then 29 else 28)
     else if m \<in> {4, 6, 9, 11} then 30 else 31)"

definition is_iso :: "string \<Rightarrow> bool" where
  "is_iso e \<longleftrightarrow> length e = 24
     \<and> list_all (\<lambda>i. is_digit (e ! i)) [0, 1, 2, 3, 5, 6, 8, 9, 11, 12, 14, 15, 17, 18, 20, 21, 22]
     \<and> e ! 4 = CHR ''-'' \<and> e ! 7 = CHR ''-'' \<and> e ! 10 = CHR ''T'' \<and> e ! 13 = CHR '':'' \<and> e ! 16 = CHR '':''
     \<and> e ! 19 = CHR ''.'' \<and> e ! 23 = CHR ''Z''
     \<and> 1 \<le> field 5 2 e \<and> field 5 2 e \<le> 12
     \<and> 1 \<le> field 8 2 e \<and> field 8 2 e \<le> days_in_month (field 0 4 e) (field 5 2 e)
     \<and> field 11 2 e < 24 \<and> field 14 2 e < 60 \<and> field 17 2 e < 60"

lemma mset_eq_sum_map: "mset xs = mset ys \<Longrightarrow> (\<Sum>x\<leftarrow>xs. f x) = (\<Sum>x\<leftarrow>ys. f x)" for f :: "'a \<Rightarrow> int"
  by (metis mset_map sum_mset_sum_list)

section \<open>The driver's contract\<close>

text \<open>
  Strings bind to text columns, BigInts of 64 bits and exact integers to integer columns, and
  \<open>null\<close> to either; the collation is a linear order; a scan delivers every row once, in some
  order; SQLite's \<open>date\<close> and \<open>strftime\<close> of an ISO timestamp are its prefix.
\<close>

locale cache_driver =
  fixes drv :: "'x driver"
  assumes bind_text_str: "bind_text drv (Str t) = Inr (Some t)"
    and bind_text_null: "bind_text drv Null = Inr None"
    and bind_int_null: "bind_int drv Null = Inr None"
    and bind_int_big: "in_i64 n \<Longrightarrow> bind_int drv (BigInt n) = Inr (Some n)"
    and bind_int_num: "\<bar>n\<bar> \<le> 2 ^ 53 \<Longrightarrow> bind_int drv (Num (number_of_int n)) = Inr (Some n)"
    and text_trans: "text_le drv a b \<Longrightarrow> text_le drv b c \<Longrightarrow> text_le drv a c"
    and text_total: "text_le drv a b \<or> text_le drv b a"
    and text_antisym: "text_le drv a b \<Longrightarrow> text_le drv b a \<Longrightarrow> a = b"
    and scan_rows: "mset (scan drv rs) = mset rs"
    and date_prefix: "is_iso e \<Longrightarrow> sqlite_date drv e = Some (take 10 e)"
    and hour_prefix: "is_iso e \<Longrightarrow> sqlite_hour drv e = Some (take 13 e @ '':00:00'')"
begin

text \<open>The watermark reads back.\<close>

lemma watermark_set:
  "setLastLedger drv x s = (Inr (), s\<lparr>meta := (meta s)(''last_ledger'' \<mapsto> Some (number_to_string x))\<rparr>)"
  by (simp add: setLastLedger_def bind_text_str js_bind_simps js_simps)

lemma watermark_get:
  assumes "\<bar>n\<bar> \<le> 2 ^ 53"
  shows "getLastLedger (snd (setLastLedger drv (number_of_int n) s)) =
    (Inr (number_of_int n), snd (setLastLedger drv (number_of_int n) s))"
  using number_string_roundtrip [OF assms]
  by (simp add: watermark_set getLastLedger_def js_bind_simps js_simps)

lemma set_scan [simp]: "set (scan drv rs) = set rs"
  by (metis scan_rows set_mset_mset)

lemma scan_filter: "mset (filter P (scan drv rs)) = mset (filter P rs)"
  by (metis mset_filter scan_rows)

lemma scan_sum: "(\<Sum>r\<leftarrow>filter P (scan drv rs). f r) = (\<Sum>r\<leftarrow>filter P rs. f r)" for f :: "meter_row \<Rightarrow> int"
  by (rule mset_eq_sum_map [OF scan_filter])

lemma scan_count: "length (filter P (scan drv rs)) = length (filter P rs)"
  by (rule mset_eq_length [OF scan_filter])

lemma where_device:
  "where_clause drv (Str d) Undef Undef = Inr (\<lambda>r. d = mr_device_id r)"
  by (simp add: where_clause_def bind_text_str)

lemma latestSequence_str:
  "latestSequence drv (Str d) s = (Inr (case sql_max (map mr_seq (filter (\<lambda>r. d = mr_device_id r) (meter_events s))) of
     None \<Rightarrow> Fin 0 | Some n \<Rightarrow> number_of_int n), s)"
  by (simp add: latestSequence_def bind_text_str js_bind_simps js_simps)

lemma metricsFor_str:
  "metricsFor drv (Str d) Undef Undef s =
    (Inr (map sample_of (sort_by (seq_le drv) (filter (\<lambda>r. d = mr_device_id r) (scan drv (meter_events s))))), s)"
  by (simp add: metricsFor_def where_device js_bind_simps js_simps)

lemma seq_le_trans: "seq_le drv r1 r2 \<Longrightarrow> seq_le drv r2 r3 \<Longrightarrow> seq_le drv r1 r3"
  unfolding seq_le_def by (rule null_le_trans) auto

lemma seq_le_total: "seq_le drv r1 r2 \<or> seq_le drv r2 r1"
  unfolding seq_le_def by (rule null_le_total) auto

lemma metrics_sorted: "sorted_wrt (seq_le drv) (sort_by (seq_le drv) rs)"
  by (rule sorted_sort_by) (blast intro: seq_le_trans, rule seq_le_total)

text \<open>The rows of a query of \<open>aggregate\<close>, group by group.\<close>

lemma aggregate_run:
  assumes "where_clause drv (Str d) frm to = Inr P"
  shows "aggregate drv (Str d) frm to g s =
    (let key = bucket_of drv (if g = Undef then Str ''day'' else g); rows = filter P (scan drv (meter_events s))
     in (mapE (\<lambda>b. bucket_row_of drv b (filter (\<lambda>r. key r = b) rows))
          (sort_by (null_le (dialect drv) (text_le drv)) (remdups (map key rows))), s))"
  using assms by (simp add: aggregate_def js_bind_simps js_simps Let_def)

lemma bucket_le_trans:
  "null_le (dialect drv) (text_le drv) a b \<Longrightarrow> null_le (dialect drv) (text_le drv) b c \<Longrightarrow>
   null_le (dialect drv) (text_le drv) a c"
  by (rule null_le_trans [OF text_trans])

lemma bucket_le_total: "null_le (dialect drv) (text_le drv) a b \<or> null_le (dialect drv) (text_le drv) b a"
  by (rule null_le_total) (rule text_total)

lemma bucket_le_antisym:
  "null_le (dialect drv) (text_le drv) a b \<Longrightarrow> null_le (dialect drv) (text_le drv) b a \<Longrightarrow> a = b"
  by (rule null_le_antisym [OF text_antisym])

lemma bucket_le_sorted: "sorted_wrt (null_le (dialect drv) (text_le drv)) (sort_by (null_le (dialect drv) (text_le drv)) bs)"
  by (rule sorted_sort_by) (rule bucket_le_trans, assumption, assumption, rule bucket_le_total)

lemma bucket_sort_cong:
  "set xs = set ys \<Longrightarrow> sort_by (null_le (dialect drv) (text_le drv)) (remdups xs) =
     sort_by (null_le (dialect drv) (text_le drv)) (remdups ys)"
  by (rule sort_by_cong_mset)
    (rule bucket_le_trans, assumption, assumption, rule bucket_le_total,
     simp add: set_eq_iff_mset_remdups_eq, rule bucket_le_antisym, assumption, assumption)

end

section \<open>Group sums\<close>

lemma mapE_Inr_iff: "mapE f xs = Inr ys \<longleftrightarrow> list_all2 (\<lambda>x y. f x = Inr y) xs ys"
  by (induction xs arbitrary: ys) (auto simp: bindE_Inr_iff list_all2_Cons1)

lemma bucket_row_of_Inr:
  "bucket_row_of drv b rs = Inr k \<Longrightarrow>
     bk_bucket k = b \<and> bk_total_units k = number_of_int (\<Sum>r\<leftarrow>rs. mr_units r)
   \<and> bk_total_cost k = number_of_int (\<Sum>r\<leftarrow>rs. mr_cost r) \<and> bk_event_count k = number_of_int (int (length rs))"
  by (auto simp: bucket_row_of_def bindE_Inr_iff dest: sql_sum_Inr)

lemma list_all2_map_eq: "list_all2 (\<lambda>x y. g y = h x) xs ys \<Longrightarrow> map g ys = map h xs"
  by (induction rule: list_all2_induct) simp_all

context cache_driver
begin

lemma aggregate_totals:
  assumes P: "where_clause drv (Str d) frm to = Inr P"
    and run: "aggregate drv (Str d) frm to g s = (Inr bs, s')"
  shows "s' = s" and "distinct (map bk_bucket bs)"
    and "sorted_wrt (null_le (dialect drv) (text_le drv)) (map bk_bucket bs)"
    and "\<exists>us. map bk_total_units bs = map number_of_int us \<and> sum_list us = (\<Sum>r\<leftarrow>filter P (meter_events s). mr_units r)"
    and "\<exists>cs. map bk_total_cost bs = map number_of_int cs \<and> sum_list cs = (\<Sum>r\<leftarrow>filter P (meter_events s). mr_cost r)"
    and "\<exists>ns. map bk_event_count bs = map number_of_int ns \<and> sum_list ns = int (length (filter P (meter_events s)))"
proof -
  define key where "key = bucket_of drv (if g = Undef then Str ''day'' else g)"
  define rows where "rows = filter P (scan drv (meter_events s))"
  define ks where "ks = sort_by (null_le (dialect drv) (text_le drv)) (remdups (map key rows))"
  have m: "mapE (\<lambda>b. bucket_row_of drv b (filter (\<lambda>r. key r = b) rows)) ks = Inr bs" and "s' = s"
    using run unfolding aggregate_run [OF P] Let_def key_def [symmetric] rows_def [symmetric] ks_def [symmetric]
    by simp_all
  then show "s' = s" by simp
  have groups: "list_all2 (\<lambda>b k. bk_bucket k = b \<and> bk_total_units k = number_of_int (\<Sum>r\<leftarrow>filter (\<lambda>r. key r = b) rows. mr_units r)
      \<and> bk_total_cost k = number_of_int (\<Sum>r\<leftarrow>filter (\<lambda>r. key r = b) rows. mr_cost r)
      \<and> bk_event_count k = number_of_int (int (length (filter (\<lambda>r. key r = b) rows)))) ks bs"
    using m unfolding mapE_Inr_iff by (rule list_all2_mono) (blast dest: bucket_row_of_Inr)
  have "map bk_bucket bs = map (\<lambda>b. b) ks"
    by (rule list_all2_map_eq, rule list_all2_mono [OF groups]) simp
  then have bk: "map bk_bucket bs = ks" by simp
  have units: "map bk_total_units bs = map (\<lambda>b. number_of_int (\<Sum>r\<leftarrow>filter (\<lambda>r. key r = b) rows. mr_units r)) ks"
    by (rule list_all2_map_eq, rule list_all2_mono [OF groups]) simp
  have cost: "map bk_total_cost bs = map (\<lambda>b. number_of_int (\<Sum>r\<leftarrow>filter (\<lambda>r. key r = b) rows. mr_cost r)) ks"
    by (rule list_all2_map_eq, rule list_all2_mono [OF groups]) simp
  have count: "map bk_event_count bs = map (\<lambda>b. number_of_int (int (length (filter (\<lambda>r. key r = b) rows)))) ks"
    by (rule list_all2_map_eq, rule list_all2_mono [OF groups]) simp
  have ks: "distinct ks" "\<And>r. r \<in> set rows \<Longrightarrow> key r \<in> set ks" by (simp_all add: ks_def)
  show "distinct (map bk_bucket bs)" using ks bk by simp
  show "sorted_wrt (null_le (dialect drv) (text_le drv)) (map bk_bucket bs)"
    unfolding bk ks_def by (rule bucket_le_sorted)
  have total: "(\<Sum>b\<leftarrow>ks. \<Sum>r\<leftarrow>filter (\<lambda>r. key r = b) rows. f r) = (\<Sum>r\<leftarrow>filter P (meter_events s). f r)"
    for f :: "meter_row \<Rightarrow> int"
  proof -
    have "(\<Sum>b\<leftarrow>ks. \<Sum>r\<leftarrow>filter (\<lambda>r. key r = b) rows. f r) = (\<Sum>r\<leftarrow>rows. f r)"
      by (rule sum_groups [OF ks])
    then show ?thesis by (simp only: rows_def scan_sum)
  qed
  show "\<exists>us. map bk_total_units bs = map number_of_int us \<and> sum_list us = (\<Sum>r\<leftarrow>filter P (meter_events s). mr_units r)"
    using units total [of mr_units]
    by (intro exI [of _ "map (\<lambda>b. \<Sum>r\<leftarrow>filter (\<lambda>r. key r = b) rows. mr_units r) ks"]) (simp add: comp_def)
  show "\<exists>cs. map bk_total_cost bs = map number_of_int cs \<and> sum_list cs = (\<Sum>r\<leftarrow>filter P (meter_events s). mr_cost r)"
    using cost total [of mr_cost]
    by (intro exI [of _ "map (\<lambda>b. \<Sum>r\<leftarrow>filter (\<lambda>r. key r = b) rows. mr_cost r) ks"]) (simp add: comp_def)
  show "\<exists>ns. map bk_event_count bs = map number_of_int ns \<and> sum_list ns = int (length (filter P (meter_events s)))"
    using count total [of "\<lambda>_. 1"]
    by (intro exI [of _ "map (\<lambda>b. int (length (filter (\<lambda>r. key r = b) rows))) ks"])
      (simp add: comp_def sum_list_triv)
qed

end

section \<open>Independence of the dialect\<close>

text \<open>
  What the indexer stores (see \<open>Indexer\<close>): every row has a sequence number, unique for its
  device, an ISO timestamp, and amounts whose totals fit a 64-bit integer.
\<close>

definition clean_row :: "meter_row \<Rightarrow> bool" where
  "clean_row r \<longleftrightarrow> mr_seq r \<noteq> None \<and> (case mr_emitted_at r of None \<Rightarrow> False | Some e \<Rightarrow> is_iso e)
     \<and> 0 \<le> mr_units r \<and> 0 \<le> mr_cost r"

definition clean_events :: "meter_row list \<Rightarrow> bool" where
  "clean_events rs \<longleftrightarrow> list_all clean_row rs \<and> distinct (map (\<lambda>r. (mr_device_id r, mr_seq r)) rs)
     \<and> (\<Sum>r\<leftarrow>rs. mr_units r) < 2 ^ 63 \<and> (\<Sum>r\<leftarrow>rs. mr_cost r) < 2 ^ 63"

text \<open>A window bound that is absent or a string.\<close>

definition plain_bound :: "'x jsval \<Rightarrow> bool" where
  "plain_bound v \<longleftrightarrow> (case v of Undef \<Rightarrow> True | Str _ \<Rightarrow> True | _ \<Rightarrow> False)"

lemma sum_filter_le:
  fixes f :: "'a \<Rightarrow> int"
  assumes "\<And>r. r \<in> set rs \<Longrightarrow> 0 \<le> f r"
  shows "(\<Sum>r\<leftarrow>filter P rs. f r) \<le> (\<Sum>r\<leftarrow>rs. f r)"
  using assms by (induction rs) (auto simp: add_increasing)

lemma sql_sum_exact:
  assumes "\<And>r. r \<in> set rs \<Longrightarrow> 0 \<le> f r" and "(\<Sum>r\<leftarrow>rs. f r) < 2 ^ 63"
  shows "sql_sum drv (map f rs) = Inr (\<Sum>r\<leftarrow>rs. f r)"
proof -
  have "sum_i64 0 (map f rs) = Some (0 + (\<Sum>r\<leftarrow>rs. f r))"
    using assms by (intro sum_i64_nonneg) auto
  then show ?thesis by (simp add: sql_sum_def split: dialect.split)
qed

lemma where_clause_device: "cache_driver drv \<Longrightarrow> where_clause drv (Str d) frm to = Inr P \<Longrightarrow> P r \<Longrightarrow> mr_device_id r = d"
  by (auto simp: where_clause_def bindE_Inr_iff cache_driver.bind_text_str)

lemma null_le_dialect: "a \<noteq> None \<Longrightarrow> b \<noteq> None \<Longrightarrow> null_le d le a b = null_le d' le a b"
  by (auto simp: null_le_def)

text \<open>Two drivers over the same collation.\<close>

locale two_drivers = one: cache_driver drv1 + two: cache_driver drv2
  for drv1 :: "'x driver" and drv2 :: "'x driver" +
  assumes same_collation: "text_le drv1 = text_le drv2"
begin

lemma same_where:
  assumes "plain_bound frm" and "plain_bound to"
  shows "where_clause drv1 (Str d) frm to = where_clause drv2 (Str d) frm to"
  using assms
  by (cases frm; cases to)
    (simp_all add: plain_bound_def where_clause_def one.bind_text_str two.bind_text_str same_collation)

lemma where_defined:
  assumes "plain_bound frm" and "plain_bound to"
  obtains P where "where_clause drv1 (Str d) frm to = Inr P" and "where_clause drv2 (Str d) frm to = Inr P"
proof -
  have "\<exists>P. where_clause drv1 (Str d) frm to = Inr P"
    using assms by (cases frm; cases to) (simp_all add: plain_bound_def where_clause_def one.bind_text_str)
  with same_where [OF assms] that show ?thesis by metis
qed

lemma same_rows: "mset (filter P (scan drv1 rs)) = mset (filter P (scan drv2 rs))"
  by (simp only: one.scan_filter two.scan_filter)

lemma metrics_dialect_free:
  assumes "clean_events (meter_events s)" and "plain_bound frm" and "plain_bound to"
  shows "metricsFor drv1 (Str d) frm to s = metricsFor drv2 (Str d) frm to s"
proof -
  obtain P where P: "where_clause drv1 (Str d) frm to = Inr P" "where_clause drv2 (Str d) frm to = Inr P"
    using where_defined assms(2,3) by blast
  define xs where "xs = filter P (scan drv1 (meter_events s))"
  define ys where "ys = filter P (scan drv2 (meter_events s))"
  have xy: "mset xs = mset ys" unfolding xs_def ys_def by (rule same_rows)
  have in_xs: "r \<in> set (meter_events s) \<and> mr_device_id r = d" if "r \<in> set xs" for r
    using that where_clause_device [OF one.cache_driver_axioms P(1)] by (auto simp: xs_def)
  have inj: "inj_on (\<lambda>r. (mr_device_id r, mr_seq r)) (set (meter_events s))"
    using assms(1) by (simp add: clean_events_def distinct_map)
  have some: "mr_seq r \<noteq> None" if "r \<in> set xs" for r
    using that in_xs assms(1) by (auto simp: clean_events_def clean_row_def list_all_iff)
  have "sort_by (seq_le drv1) xs = sort_by (seq_le drv1) ys"
  proof (rule sort_by_cong_mset)
    show "x = y" if "x \<in> set xs" "y \<in> set xs" "seq_le drv1 x y" "seq_le drv1 y x" for x y
    proof -
      have "mr_seq x = mr_seq y"
        using that(3,4) unfolding seq_le_def by (rule null_le_antisym [rotated]) auto
      then show ?thesis using in_xs that(1,2) by (intro inj_onD [OF inj]) simp_all
    qed
  qed (rule one.seq_le_trans, assumption, assumption, rule one.seq_le_total, rule xy)
  also have "\<dots> = sort_by (seq_le drv2) ys"
    unfolding seq_le_def using some mset_eq_setD [OF xy] by (intro sort_by_cong_le null_le_dialect) blast+
  finally show ?thesis using P by (simp add: metricsFor_def js_bind_simps js_simps xs_def ys_def)
qed

lemma same_bucket:
  assumes "clean_row r"
  shows "bucket_of drv1 g r = bucket_of drv2 g r" and "bucket_of drv1 g r \<noteq> None"
  using assms one.date_prefix two.date_prefix one.hour_prefix two.hour_prefix
  by (auto simp: clean_row_def bucket_of_def split: option.splits dialect.splits)

lemma same_sums:
  assumes "clean_events es" and "set rs1 \<subseteq> set es" and "mset rs1 = mset rs2" and "rs1 = filter Q (scan drv1 es)"
  shows "sql_sum drv1 (map mr_units rs1) = sql_sum drv2 (map mr_units rs2)"
    and "sql_sum drv1 (map mr_cost rs1) = sql_sum drv2 (map mr_cost rs2)"
    and "\<exists>t. sql_sum drv1 (map mr_units rs1) = Inr t" and "\<exists>t. sql_sum drv1 (map mr_cost rs1) = Inr t"
proof -
  have pos: "0 \<le> mr_units r \<and> 0 \<le> mr_cost r" if "r \<in> set es" for r
    using assms(1) that by (auto simp: clean_events_def clean_row_def list_all_iff)
  have pos2: "0 \<le> mr_units r \<and> 0 \<le> mr_cost r" if "r \<in> set rs1 \<or> r \<in> set rs2" for r
    using that pos assms(2) mset_eq_setD [OF assms(3)] by blast
  have "(\<Sum>r\<leftarrow>rs1. mr_units r) < 2 ^ 63" "(\<Sum>r\<leftarrow>rs1. mr_cost r) < 2 ^ 63"
    using assms(1) sum_filter_le [of es mr_units Q] sum_filter_le [of es mr_cost Q] pos
    by (simp_all add: assms(4) one.scan_sum clean_events_def)
  moreover note mset_eq_sum_map [OF assms(3), of mr_units] mset_eq_sum_map [OF assms(3), of mr_cost]
  ultimately show "sql_sum drv1 (map mr_units rs1) = sql_sum drv2 (map mr_units rs2)"
    and "sql_sum drv1 (map mr_cost rs1) = sql_sum drv2 (map mr_cost rs2)"
    and "\<exists>t. sql_sum drv1 (map mr_units rs1) = Inr t" and "\<exists>t. sql_sum drv1 (map mr_cost rs1) = Inr t"
    using pos2 by (simp_all add: sql_sum_exact)
qed

lemma aggregate_dialect_free:
  assumes clean: "clean_events (meter_events s)" and "plain_bound frm" and "plain_bound to"
  shows "aggregate drv1 (Str d) frm to g s = aggregate drv2 (Str d) frm to g s"
proof -
  obtain P where P: "where_clause drv1 (Str d) frm to = Inr P" "where_clause drv2 (Str d) frm to = Inr P"
    using where_defined assms(2,3) by blast
  define key where "key = bucket_of drv1 (if g = Undef then Str ''day'' else g)"
  define key2 where "key2 = bucket_of drv2 (if g = Undef then Str ''day'' else g)"
  define xs where "xs = filter P (scan drv1 (meter_events s))"
  define ys where "ys = filter P (scan drv2 (meter_events s))"
  have xy: "mset xs = mset ys" unfolding xs_def ys_def by (rule same_rows)
  have clean_xs: "clean_row r" if "r \<in> set xs" for r
    using that clean by (auto simp: xs_def clean_events_def list_all_iff)
  have key2: "key2 r = key r" if "r \<in> set ys" for r
    using that clean_xs mset_eq_setD [OF xy] same_bucket(1) by (simp add: key_def key2_def)
  have sets: "set (map key xs) = set (map key ys)" using mset_eq_setD [OF xy] by simp
  have keys: "sort_by (null_le (dialect drv1) (text_le drv1)) (remdups (map key xs)) =
      sort_by (null_le (dialect drv2) (text_le drv2)) (remdups (map key2 ys))" (is "?ks1 = ?ks2")
  proof -
    have "?ks1 = sort_by (null_le (dialect drv1) (text_le drv1)) (remdups (map key ys))"
      using sets by (rule one.bucket_sort_cong)
    also have "\<dots> = sort_by (null_le (dialect drv2) (text_le drv2)) (remdups (map key ys))"
      unfolding same_collation
    proof (intro sort_by_cong_le null_le_dialect)
      fix a b assume "a \<in> set (remdups (map key ys))" "b \<in> set (remdups (map key ys))"
      then show "a \<noteq> None" "b \<noteq> None"
        using same_bucket(2) clean_xs mset_eq_setD [OF xy] by (auto simp: key_def simp del: not_None_eq)
    qed
    also have "map key ys = map key2 ys" using key2 by simp
    finally show ?thesis .
  qed
  have rows: "bucket_row_of drv1 b (filter (\<lambda>r. key r = b) xs) = bucket_row_of drv2 b (filter (\<lambda>r. key2 r = b) ys)" for b
  proof -
    have f: "filter (\<lambda>r. key2 r = b) ys = filter (\<lambda>r. key r = b) ys" using key2 by (auto intro: filter_cong)
    have m: "mset (filter (\<lambda>r. key r = b) xs) = mset (filter (\<lambda>r. key r = b) ys)" using xy by simp
    have e: "filter (\<lambda>r. key r = b) xs = filter (\<lambda>r. P r \<and> key r = b) (scan drv1 (meter_events s))"
      by (simp add: xs_def)
    have sub: "set (filter (\<lambda>r. key r = b) xs) \<subseteq> set (meter_events s)" by (auto simp: xs_def)
    note sums = same_sums(1,2) [OF clean sub m e]
    have "sql_min (map mr_balance_after (filter (\<lambda>r. key r = b) xs)) = sql_min (map mr_balance_after (filter (\<lambda>r. key r = b) ys))"
      "sql_max (map mr_balance_after (filter (\<lambda>r. key r = b) xs)) = sql_max (map mr_balance_after (filter (\<lambda>r. key r = b) ys))"
      using mset_eq_setD [OF m] by (intro sql_min_cong_set sql_max_cong_set; simp only: set_map)+
    then show ?thesis unfolding f bucket_row_of_def sums mset_eq_length [OF m] by simp
  qed
  show ?thesis
    unfolding one.aggregate_run [OF P(1)] two.aggregate_run [OF P(2)] Let_def
      key_def [symmetric] key2_def [symmetric] xs_def [symmetric] ys_def [symmetric] keys rows ..
qed

end

context two_drivers
begin

lemma device_rows:
  assumes clean: "clean_events es"
  shows "device_row_of drv1 d (filter (\<lambda>r. mr_device_id r = d) (scan drv1 es)) =
      device_row_of drv2 d (filter (\<lambda>r. mr_device_id r = d) (scan drv2 es))"
    and "\<exists>row. device_row_of drv1 d (filter (\<lambda>r. mr_device_id r = d) (scan drv1 es)) = Inr row"
proof -
  define xs where "xs = filter (\<lambda>r. mr_device_id r = d) (scan drv1 es)"
  define ys where "ys = filter (\<lambda>r. mr_device_id r = d) (scan drv2 es)"
  have m: "mset xs = mset ys" unfolding xs_def ys_def by (rule same_rows)
  have sub: "set xs \<subseteq> set es" by (auto simp: xs_def)
  note sums = same_sums [OF clean sub m xs_def]
  have "sql_max (map mr_ledger xs) = sql_max (map mr_ledger ys)"
    "sql_max (map mr_ledger_ts xs) = sql_max (map mr_ledger_ts ys)"
    using mset_eq_setD [OF m] by (intro sql_max_cong_set; simp only: set_map)+
  then have "device_row_of drv1 d xs = device_row_of drv2 d ys"
    unfolding device_row_of_def sums(1,2) mset_eq_length [OF m] by simp
  moreover have "\<exists>row. device_row_of drv1 d xs = Inr row"
    using sums(3,4) by (auto simp: device_row_of_def)
  ultimately show "device_row_of drv1 d (filter (\<lambda>r. mr_device_id r = d) (scan drv1 es)) =
      device_row_of drv2 d (filter (\<lambda>r. mr_device_id r = d) (scan drv2 es))"
    and "\<exists>row. device_row_of drv1 d (filter (\<lambda>r. mr_device_id r = d) (scan drv1 es)) = Inr row"
    unfolding xs_def ys_def by blast+
qed

text \<open>The list of devices is the same up to the order of devices with the same last ledger.\<close>

lemma devices_dialect_free:
  assumes clean: "clean_events (meter_events s)" and "has_column ''ledger_ts'' s"
  obtains xs ys where "listDevices drv1 s = (Inr xs, s)" and "listDevices drv2 s = (Inr ys, s)"
    and "mset xs = mset ys"
proof -
  define g where "g d = (case device_row_of drv1 d (filter (\<lambda>r. mr_device_id r = d) (scan drv1 (meter_events s))) of
      Inr row \<Rightarrow> row | Inl e \<Rightarrow> undefined)" for d
  have g1: "device_row_of drv1 d (filter (\<lambda>r. mr_device_id r = d) (scan drv1 (meter_events s))) = Inr (g d)" for d
    using device_rows(2) [OF clean, of d] by (auto simp: g_def)
  then have g2: "device_row_of drv2 d (filter (\<lambda>r. mr_device_id r = d) (scan drv2 (meter_events s))) = Inr (g d)" for d
    using device_rows(1) [OF clean, of d] by simp
  have m: "mset (remdups (map mr_device_id (scan drv1 (meter_events s)))) =
      mset (remdups (map mr_device_id (scan drv2 (meter_events s))))"
    by (simp flip: set_eq_iff_mset_remdups_eq)
  have "\<exists>ks. listDevices drv1 s = (Inr (map g ks), s) \<and> mset ks = mset (remdups (map mr_device_id (scan drv1 (meter_events s))))"
    using assms(2)
    by (simp add: listDevices_def need_column_def js_bind_def js_read_def js_lift_def Let_def g1 mapE_Inr [of _ _ g])
      (metis mset_sort_by)
  moreover have "\<exists>ks. listDevices drv2 s = (Inr (map g ks), s) \<and> mset ks = mset (remdups (map mr_device_id (scan drv2 (meter_events s))))"
    using assms(2)
    by (simp add: listDevices_def need_column_def js_bind_def js_read_def js_lift_def Let_def g2 mapE_Inr [of _ _ g])
      (metis mset_sort_by)
  ultimately show thesis using that m by (metis mset_map)
qed

end

section \<open>Two drivers\<close>

text \<open>
  One driver per dialect that keeps the contract: the collation is the order of code units, and
  the two scan the rows in opposite orders.
\<close>

definition demo_bind_int :: "'x jsval \<Rightarrow> exn + int option" where
  "demo_bind_int v = (case v of
       Null \<Rightarrow> Inr None
     | BigInt n \<Rightarrow> if in_i64 n then Inr (Some n) else Inl (range_error ''BigInt out of range'')
     | Num (Fin q) \<Rightarrow> if q = of_int \<lfloor>q\<rfloor> \<and> in_i64 \<lfloor>q\<rfloor> then Inr (Some \<lfloor>q\<rfloor>) else Inl (range_error ''not an integer'')
     | _ \<Rightarrow> Inl (type_error ''cannot bind''))"

definition demo_bind_text :: "'x jsval \<Rightarrow> exn + string option" where
  "demo_bind_text v = (case v of Null \<Rightarrow> Inr None | Str t \<Rightarrow> Inr (Some t)
     | _ \<Rightarrow> Inl (type_error ''cannot bind''))"

definition demo_driver :: "dialect \<Rightarrow> 'x driver" where
  "demo_driver d = \<lparr>dialect = d, bind_int = demo_bind_int, bind_text = demo_bind_text,
     text_le = (\<le>), scan = (case d of Sqlite \<Rightarrow> \<lambda>rs. rs | Postgres \<Rightarrow> rev),
     sqlite_date = (\<lambda>e. if is_iso e then Some (take 10 e) else None),
     sqlite_hour = (\<lambda>e. if is_iso e then Some (take 13 e @ '':00:00'') else None),
     not_null_violation = (\<lambda>c. Exn ''error'' (''null value in column '' @ c)),
     no_column = (\<lambda>c. Exn ''error'' (''no such column: '' @ c)),
     sum_overflow = Exn ''SqliteError'' ''integer overflow''\<rparr>"

lemma demo_driver_simps:
  "bind_int (demo_driver d) = demo_bind_int" "bind_text (demo_driver d) = demo_bind_text"
  "dialect (demo_driver d) = d"
  "not_null_violation (demo_driver d) c = Exn ''error'' (''null value in column '' @ c)"
  by (simp_all add: demo_driver_def)

lemma demo_bind_num: "\<bar>n\<bar> \<le> 2 ^ 53 \<Longrightarrow> demo_bind_int (Num (number_of_int n)) = Inr (Some n)"
proof -
  assume n: "\<bar>n\<bar> \<le> 2 ^ 53"
  then have "in_i64 n" by (simp add: in_i64_def) linarith
  with n show ?thesis by (simp add: demo_bind_int_def number_of_int_exact)
qed

interpretation demo: cache_driver "demo_driver d :: 'x driver" for d
proof unfold_locales
  show "bind_int (demo_driver d :: 'x driver) (Num (number_of_int n)) = Inr (Some n)" if "\<bar>n\<bar> \<le> 2 ^ 53" for n
    using demo_bind_num [OF that] by (simp add: demo_driver_def)
qed (auto simp: demo_driver_def demo_bind_text_def demo_bind_int_def split: dialect.split)

interpretation demo_pair: two_drivers "demo_driver Sqlite :: 'x driver" "demo_driver Postgres :: 'x driver"
  by unfold_locales (simp add: demo_driver_def)

end
