(* ===== verification/Api.thy ===== *)
theory Api
  imports Readings Store_Driver
begin

text \<open>
  \<open>backend/src/api/server.js\<close>: the cross-origin policy, the read endpoints over the cache, the
  error middleware and the route of the single-page frontend. The endpoints are asynchronous
  handlers: an exception in one is a rejection that Express does not see (\<open>Inl\<close>).
\<close>

section \<open>Cross-origin policy\<close>

fun split_on :: "char \<Rightarrow> string \<Rightarrow> string list" where
  "split_on d [] = [[]]"
| "split_on d (c # s) = (if c = d then [] # split_on d s
     else case split_on d s of [] \<Rightarrow> [[c]] | w # ws \<Rightarrow> (c # w) # ws)"

definition allowed_origins :: "string option \<Rightarrow> string list" where
  "allowed_origins cors_origin =
     filter (\<lambda>s. s \<noteq> []) (map js_trim (split_on (CHR '','') (case cors_origin of None \<Rightarrow> [] | Some s \<Rightarrow> s)))"

definition cors_error :: exn where
  "cors_error = Exn ''Error'' ''origin not allowed by CORS''"

text \<open>The decision on a request with the given \<open>Origin\<close> header.\<close>

definition cors_check :: "string list \<Rightarrow> string option \<Rightarrow> exn + unit" where
  "cors_check allowed origin =
     (if allowed = [] then Inr ()
      else case origin of
          None \<Rightarrow> Inr ()
        | Some os \<Rightarrow> if os = [] \<or> os \<in> set allowed then Inr () else Inl cors_error)"

definition error_middleware :: "exn \<Rightarrow> string list \<Rightarrow> 'x reply \<times> string list" where
  "error_middleware err console =
     (if exn_message err = ''origin not allowed by CORS'' then (error_reply 403 (exn_message err), console)
      else (error_reply 500 ''internal error'', console @ [''[api] unhandled error: '' @ exn_message err]))"

section \<open>Rows as JSON\<close>

definition num_or_null :: "js_number option \<Rightarrow> 'x jsval" where
  "num_or_null x = (case x of None \<Rightarrow> Null | Some n \<Rightarrow> Num n)"

definition text_or_null :: "string option \<Rightarrow> 'x jsval" where
  "text_or_null x = (case x of None \<Rightarrow> Null | Some t \<Rightarrow> Str t)"

definition sample_json :: "sample \<Rightarrow> 'x jsval" where
  "sample_json r = Obj [(''device_id'', Str (sm_device_id r)), (''units'', Num (sm_units r)),
     (''cost'', Num (sm_cost r)), (''rate_per_unit'', Num (sm_rate_per_unit r)),
     (''balance_after'', num_or_null (sm_balance_after r)), (''seq'', num_or_null (sm_seq r)),
     (''emitted_at'', text_or_null (sm_emitted_at r))]"

definition bucket_json :: "bucket_row \<Rightarrow> 'x jsval" where
  "bucket_json b = Obj [(''bucket'', text_or_null (bk_bucket b)), (''total_units'', Num (bk_total_units b)),
     (''total_cost'', Num (bk_total_cost b)), (''event_count'', Num (bk_event_count b)),
     (''min_balance'', num_or_null (bk_min_balance b)), (''max_balance'', num_or_null (bk_max_balance b))]"

definition device_json :: "device_row \<Rightarrow> 'x jsval" where
  "device_json d = Obj [(''device_id'', Str (dv_device_id d)), (''event_count'', Num (dv_event_count d)),
     (''total_units'', Num (dv_total_units d)), (''total_cost'', Num (dv_total_cost d)),
     (''last_ledger'', num_or_null (dv_last_ledger d)), (''last_activity'', num_or_null (dv_last_activity d))]"

definition ok_reply :: "'x jsval \<Rightarrow> 'x reply" where
  "ok_reply body = \<lparr>reply_status = 200, reply_body = body\<rparr>"

section \<open>Endpoints\<close>

definition health :: "'x reply" where
  "health = ok_reply (Obj [(''ok'', Bool True)])"

definition get_metrics :: "'x driver \<Rightarrow> string \<Rightarrow> 'x jsval \<Rightarrow> 'x reply db_op" where
  "get_metrics drv dev_id query =
     js_bind (metricsFor drv (Str dev_id) (get_prop query ''from'') (get_prop query ''to'')) (\<lambda>rows.
     js_bind (aggregate drv (Str dev_id) (get_prop query ''from'') (get_prop query ''to'') (get_prop query ''granularity'')) (\<lambda>series.
     js_return (ok_reply (Obj [(''device_id'', Str dev_id), (''series'', Arr (map bucket_json series)),
       (''samples'', Arr (map sample_json rows))]))))"

text \<open>\<open>a + Number(x || 0)\<close> over the rows.\<close>

definition or_zero :: "js_number \<Rightarrow> js_number" where
  "or_zero x = (if x = NaN \<or> x = Fin 0 then Fin 0 else x)"

definition total_of :: "('r \<Rightarrow> js_number) \<Rightarrow> 'r list \<Rightarrow> js_number" where
  "total_of f rows = foldl (\<lambda>a r. js_add a (or_zero (f r))) (Fin 0) rows"

record balance_body =
  bv_device_id :: string
  bv_on_chain_balance :: "js_number option"
  bv_latest_seq :: js_number
  bv_pending_uncommitted_units :: js_number
  bv_total_units :: js_number
  bv_total_billed :: js_number
  bv_last_reading :: "sample option"

definition balance_view :: "'x driver \<Rightarrow> string \<Rightarrow> balance_body db_op" where
  "balance_view drv dev_id =
     js_bind (metricsFor drv (Str dev_id) Undef Undef) (\<lambda>rows.
     let latest = (if rows = [] then None else Some (rows ! (length rows - 1))) in
     js_bind (latestSequence drv (Str dev_id)) (\<lambda>seq.
     js_return \<lparr>bv_device_id = dev_id,
       bv_on_chain_balance = map_option (\<lambda>r. case sm_balance_after r of None \<Rightarrow> Fin 0 | Some b \<Rightarrow> b) latest,
       bv_latest_seq = seq, bv_pending_uncommitted_units = Fin 0,
       bv_total_units = total_of sm_units rows, bv_total_billed = total_of sm_cost rows,
       bv_last_reading = latest\<rparr>))"

definition balance_json :: "balance_body \<Rightarrow> 'x jsval" where
  "balance_json b = Obj [(''device_id'', Str (bv_device_id b)),
     (''on_chain_balance'', num_or_null (bv_on_chain_balance b)), (''latest_seq'', Num (bv_latest_seq b)),
     (''pending_uncommitted_units'', Num (bv_pending_uncommitted_units b)),
     (''total_units'', Num (bv_total_units b)), (''total_billed'', Num (bv_total_billed b)),
     (''last_reading'', case bv_last_reading b of None \<Rightarrow> Null | Some r \<Rightarrow> sample_json r)]"

definition get_device_balance :: "'x driver \<Rightarrow> string \<Rightarrow> 'x reply db_op" where
  "get_device_balance drv dev_id = js_bind (balance_view drv dev_id) (\<lambda>b. js_return (ok_reply (balance_json b)))"

definition get_devices :: "'x driver \<Rightarrow> 'x reply db_op" where
  "get_devices drv = js_bind (listDevices drv) (\<lambda>ds.
     js_return (ok_reply (Obj [(''devices'', Arr (map device_json ds))])))"

text \<open>The pattern \<open>/^(?!\/api|\/health|\/stream).*/\<close> of the frontend's route.\<close>

definition spa_route :: "string \<Rightarrow> bool" where
  "spa_route path = (\<not> (take 4 path = ''/api'' \<or> take 7 path = ''/health'' \<or> take 7 path = ''/stream''))"

section \<open>Totals\<close>

text \<open>Adding up exact numbers stays exact while the total does.\<close>

lemma or_zero_int: "\<bar>n\<bar> \<le> 2 ^ 53 \<Longrightarrow> or_zero (number_of_int n) = number_of_int n"
  by (simp add: or_zero_def number_of_int_exact)

lemma total_of_exact_from:
  assumes "\<And>r. r \<in> set rows \<Longrightarrow> 0 \<le> g r" and "0 \<le> a" and "a + (\<Sum>r\<leftarrow>rows. g r) \<le> 2 ^ 53"
    and "\<And>r. r \<in> set rows \<Longrightarrow> f r = number_of_int (g r)"
  shows "foldl (\<lambda>a r. js_add a (or_zero (f r))) (number_of_int a) rows = number_of_int (a + (\<Sum>r\<leftarrow>rows. g r))"
  using assms
proof (induction rows arbitrary: a)
  case (Cons r rows)
  have r: "0 \<le> g r" "f r = number_of_int (g r)" using Cons.prems by simp_all
  have rest: "0 \<le> (\<Sum>r\<leftarrow>rows. g r)" using Cons.prems(1) by (intro sum_list_nonneg) auto
  have bound: "a + g r + (\<Sum>r\<leftarrow>rows. g r) \<le> 2 ^ 53" using Cons.prems(3) by simp
  then have small: "\<bar>g r\<bar> \<le> 2 ^ 53" "\<bar>a\<bar> \<le> 2 ^ 53" "\<bar>a + g r\<bar> \<le> 2 ^ 53"
    using r(1) rest Cons.prems(2) by linarith+
  have "js_add (number_of_int a) (or_zero (f r)) = number_of_int (a + g r)"
    unfolding r(2) or_zero_int [OF small(1)] by (rule js_add_exact [OF small(2,1,3)])
  moreover have "foldl (\<lambda>a r. js_add a (or_zero (f r))) (number_of_int (a + g r)) rows =
      number_of_int (a + g r + (\<Sum>r\<leftarrow>rows. g r))"
    using Cons.prems r(1) bound by (intro Cons.IH) simp_all
  ultimately show ?case by (simp add: add.assoc)
qed simp

lemma total_of_exact:
  assumes "\<And>r. r \<in> set rows \<Longrightarrow> 0 \<le> g r" and "(\<Sum>r\<leftarrow>rows. g r) \<le> 2 ^ 53"
    and "\<And>r. r \<in> set rows \<Longrightarrow> f r = number_of_int (g r)"
  shows "total_of f rows = number_of_int (\<Sum>r\<leftarrow>rows. g r)"
  using total_of_exact_from [of rows g 0 f] assms by (simp add: total_of_def number_of_int_exact)

text \<open>The rows of a device in the order of their sequence numbers.\<close>

definition ordered_rows :: "'x driver \<Rightarrow> string \<Rightarrow> db \<Rightarrow> meter_row list" where
  "ordered_rows drv d s = sort_by (seq_le drv) (filter (\<lambda>r. d = mr_device_id r) (scan drv (meter_events s)))"

context cache_driver
begin

lemma ordered_rows_mset: "mset (ordered_rows drv d s) = mset (filter (\<lambda>r. d = mr_device_id r) (meter_events s))"
  unfolding ordered_rows_def mset_sort_by by (rule scan_filter)

lemma balance_view_run:
  "balance_view drv d s =
    (let rows = ordered_rows drv d s; latest = (if rows = [] then None else Some (last rows)) in
     (Inr \<lparr>bv_device_id = d,
        bv_on_chain_balance = map_option (\<lambda>r. case mr_balance_after r of None \<Rightarrow> Fin 0 | Some b \<Rightarrow> number_of_int b) latest,
        bv_latest_seq = (case sql_max (map mr_seq (filter (\<lambda>r. d = mr_device_id r) (meter_events s))) of
           None \<Rightarrow> Fin 0 | Some n \<Rightarrow> number_of_int n),
        bv_pending_uncommitted_units = Fin 0,
        bv_total_units = total_of sm_units (map sample_of rows), bv_total_billed = total_of sm_cost (map sample_of rows),
        bv_last_reading = map_option sample_of latest\<rparr>, s))"
proof -
  have m: "metricsFor drv (Str d) Undef Undef s = (Inr (map sample_of (ordered_rows drv d s)), s)"
    by (simp add: metricsFor_str ordered_rows_def)
  show ?thesis
    by (simp add: balance_view_def js_bind_def m latestSequence_str js_return_def Let_def
        last_conv_nth sample_of_def split: option.split)
qed

end

end
