(* ===== verification/Telemetry.thy ===== *)
theory Telemetry
  imports Store
begin

text \<open>
  \<open>TelemetryBus\<close> (\<open>backend/src/api/server.js\<close>) and \<open>WebSocketHub\<close> (\<open>backend/src/api/ws.js\<close>):
  the way of an indexed row to the browsers. The sockets of the \<open>ws\<close> library are records of what
  the hub reads and does: state, liveness flag, filter, frames sent and pings.
\<close>

section \<open>The bus\<close>

text \<open>
  Subscribers are functions, distinguished by a key as JavaScript distinguishes closures; a
  \<open>Set\<close> keeps them in the order of insertion. \<open>h\<close> is what they act on, \<open>lg\<close> its console.
\<close>

record ('x, 'h) bus =
  subscribers :: "(nat \<times> ('x event_row \<Rightarrow> ('h, unit) js)) list"

definition subscribe :: "nat \<Rightarrow> ('x event_row \<Rightarrow> ('h, unit) js) \<Rightarrow> ('x, 'h) bus \<Rightarrow> ('x, 'h) bus" where
  "subscribe key fn b = (if key \<in> fst ` set (subscribers b) then b
     else b\<lparr>subscribers := subscribers b @ [(key, fn)]\<rparr>)"

definition unsubscribe :: "nat \<Rightarrow> ('x, 'h) bus \<Rightarrow> ('x, 'h) bus" where
  "unsubscribe key b = b\<lparr>subscribers := filter (\<lambda>(k, fn). k \<noteq> key) (subscribers b)\<rparr>"

definition bus_publish ::
    "(string \<Rightarrow> 'h \<Rightarrow> 'h) \<Rightarrow> ('x, 'h) bus \<Rightarrow> 'x event_row \<Rightarrow> ('h, unit) js" where
  "bus_publish lg b row = js_each (\<lambda>(k, fn). js_try (fn row)
     (\<lambda>err. js_modify (lg (''[telemetry] subscriber error: '' @ exn_message err)))) (subscribers b)"

section \<open>The hub\<close>

datatype ready_state = CONNECTING | OPEN | CLOSING | CLOSED

record client =
  ready_state :: ready_state
  is_alive :: bool
  device_filter :: "string option"
  sent :: "string list"
  pings :: nat

record hub =
  clients :: "(nat \<times> client) list"
  heartbeat_on :: bool
  hub_console :: "string list"

text \<open>
  The URL parser of the platform (\<open>new URL(...).searchParams.get('device')\<close>, which throws on an
  invalid URL) and \<open>StrKey.isValidEd25519PublicKey\<close>.
\<close>

record hub_env =
  search_device :: "string \<Rightarrow> exn + string option"
  valid_pubkey :: "string \<Rightarrow> bool"

definition update_client :: "nat \<Rightarrow> (client \<Rightarrow> client) \<Rightarrow> hub \<Rightarrow> hub" where
  "update_client i f h = h\<lparr>clients := map (\<lambda>(j, c). if j = i then (j, f c) else (j, c)) (clients h)\<rparr>"

definition ws_send :: "string \<Rightarrow> client \<Rightarrow> client" where
  "ws_send frame c = c\<lparr>sent := sent c @ [frame]\<rparr>"

definition hello_frame :: "string \<Rightarrow> string option \<Rightarrow> unit jsval" where
  "hello_frame ts flt = Obj [(''type'', Str ''hello''), (''ts'', Str ts),
     (''device'', case flt of None \<Rightarrow> Null | Some d \<Rightarrow> Str d)]"

definition json_text :: "'x jsval \<Rightarrow> exn + string" where
  "json_text v = bindE (json_stringify v) (\<lambda>t. Inr (case t of None \<Rightarrow> ''undefined'' | Some s \<Rightarrow> s))"

text \<open>The \<open>connection\<close> handler; the library has already put the socket among the clients.\<close>

definition on_connection :: "hub_env \<Rightarrow> string \<Rightarrow> string option \<Rightarrow> nat \<Rightarrow> (hub, unit) js" where
  "on_connection env ts url i =
     js_bind (js_modify (update_client i (\<lambda>c. c\<lparr>is_alive := True\<rparr>))) (\<lambda>_.
     js_bind (js_lift (search_device env (case url of None \<Rightarrow> ''/'' | Some u \<Rightarrow> u))) (\<lambda>device.
     let flt = (case device of None \<Rightarrow> None
           | Some d \<Rightarrow> if d \<noteq> [] \<and> valid_pubkey env d then Some d else None) in
     js_bind (js_modify (update_client i (\<lambda>c. c\<lparr>device_filter := flt\<rparr>))) (\<lambda>_.
     js_bind (js_lift (json_text (hello_frame ts flt))) (\<lambda>frame.
     js_modify (update_client i (ws_send frame))))))"

definition on_pong :: "nat \<Rightarrow> hub \<Rightarrow> hub" where
  "on_pong i = update_client i (\<lambda>c. c\<lparr>is_alive := True\<rparr>)"

text \<open>
  One round of the heartbeat: a client that has not answered the last ping is terminated and
  leaves the set, the others are marked and pinged.
\<close>

definition heartbeat :: "hub \<Rightarrow> hub" where
  "heartbeat h = h\<lparr>clients := map (\<lambda>(i, c). (i, c\<lparr>is_alive := False, pings := Suc (pings c)\<rparr>))
     (filter (\<lambda>(i, c). is_alive c) (clients h))\<rparr>"

text \<open>\<open>{type: 'meter_billed', ...row}\<close>: the properties in the order \<open>handleEvent\<close> lists them.\<close>

definition billed_payload :: "'x event_row \<Rightarrow> 'x jsval" where
  "billed_payload row = Obj [(''type'', Str ''meter_billed''), (''topic'', Str ''meter''),
     (''event_id'', er_event_id row), (''contract_id'', er_contract_id row), (''ledger'', er_ledger row),
     (''device_id'', er_device_id row), (''operator'', er_operator row), (''units'', er_units row),
     (''rate_per_unit'', er_rate_per_unit row), (''cost'', er_cost row),
     (''balance_after'', er_balance_after row), (''seq'', er_seq row), (''ledger_ts'', er_ledger_ts row),
     (''emitted_at'', er_emitted_at row), (''raw'', er_raw row)]"

definition receives :: "'x event_row \<Rightarrow> client \<Rightarrow> bool" where
  "receives row c \<longleftrightarrow> ready_state c = OPEN
     \<and> (case device_filter c of None \<Rightarrow> True | Some d \<Rightarrow> d = [] \<or> er_device_id row = Str d)"

definition broadcast :: "'x event_row \<Rightarrow> (hub, unit) js" where
  "broadcast row =
     js_bind (js_lift (json_text (billed_payload row))) (\<lambda>payload.
     js_modify (\<lambda>h. h\<lparr>clients := map (\<lambda>(i, c). (i, if receives row c then ws_send payload c else c)) (clients h)\<rparr>))"

definition hub_close :: "hub \<Rightarrow> hub" where
  "hub_close h = h\<lparr>heartbeat_on := False\<rparr>"

definition hub_log :: "string \<Rightarrow> hub \<Rightarrow> hub" where
  "hub_log t h = h\<lparr>hub_console := hub_console h @ [t]\<rparr>"

text \<open>\<open>index.js\<close>: the bus with the hub's broadcast as its subscriber, and the indexer's callback.\<close>

definition service_bus :: "('x, hub) bus" where
  "service_bus = subscribe 0 broadcast \<lparr>subscribers = []\<rparr>"

definition service_on_event :: "'x event_row \<Rightarrow> (hub, unit) js" where
  "service_on_event row = bus_publish hub_log service_bus row"

section \<open>The bus shields its publisher\<close>

text \<open>Publishing never throws; a subscriber that throws is logged and the next one still runs.\<close>

lemma js_each_ok: "(\<And>x s. x \<in> set xs \<Longrightarrow> \<exists>s'. f x s = (Inr (), s')) \<Longrightarrow> \<exists>s'. js_each f xs s = (Inr (), s')"
proof (induction xs arbitrary: s)
  case (Cons x xs)
  then obtain s1 where s1: "f x s = (Inr (), s1)" by fastforce
  obtain s2 where "js_each f xs s1 = (Inr (), s2)" using Cons by fastforce
  with s1 show ?case by (simp add: js_bind_def)
qed (simp add: js_simps)

lemma bus_publish_ok: "\<exists>h'. bus_publish lg b row h = (Inr (), h')"
  unfolding bus_publish_def
proof (rule js_each_ok)
  fix p h
  show "\<exists>h'. (case p of (k, fn) \<Rightarrow> js_try (fn row) (\<lambda>err. js_modify (lg (''[telemetry] subscriber error: '' @ exn_message err)))) h = (Inr (), h')"
    by (cases p; cases "snd p row h") (auto simp: js_try_def js_simps split: sum.split)
qed

lemma subscribe_keys: "distinct (map fst (subscribers b)) \<Longrightarrow> distinct (map fst (subscribers (subscribe k f b)))"
  by (auto simp: subscribe_def)

lemma bus_publish_append:
  "bus_publish lg (b\<lparr>subscribers := xs @ ys\<rparr>) row =
     js_bind (bus_publish lg (b\<lparr>subscribers := xs\<rparr>) row) (\<lambda>_. bus_publish lg (b\<lparr>subscribers := ys\<rparr>) row)"
  by (simp add: bus_publish_def js_each_append)

section \<open>Broadcasting\<close>

lemma broadcast_bigint:
  assumes "er_units row = BigInt n"
  shows "broadcast row h = (Inl (type_error ''Do not know how to serialize a BigInt''), h)"
proof -
  have "json_stringify (billed_payload row) = Inl (type_error ''Do not know how to serialize a BigInt'')"
    unfolding billed_payload_def by (rule json_bigint_throws [of "''units''" n]) (simp add: assms)
  then show ?thesis by (simp add: broadcast_def json_text_def js_bind_simps)
qed

text \<open>A payload without BigInts serialises.\<close>

fun no_bigint :: "'x jsval \<Rightarrow> bool" where
  "no_bigint (BigInt n) = False"
| "no_bigint (Arr vs) = list_all no_bigint vs"
| "no_bigint (Obj fs) = list_all (\<lambda>(k, v). no_bigint v) fs"
| "no_bigint _ = True"

lemma mapE_ok: "(\<And>x. x \<in> set xs \<Longrightarrow> \<exists>y. f x = Inr y) \<Longrightarrow> \<exists>ys. mapE f xs = Inr ys"
  by (induction xs) fastforce+

lemma json_serialises: "no_bigint v \<Longrightarrow> \<exists>t. json_stringify v = Inr t"
proof (induction v rule: json_stringify.induct)
  case (7 vs)
  then have "\<exists>ts. mapE json_stringify vs = Inr ts"
    by (intro mapE_ok) (auto simp: list_all_iff)
  then show ?case by auto
next
  case (8 fs)
  have "\<exists>ts. mapE (\<lambda>(k, v). bindE (json_stringify v) (\<lambda>t. Inr (map_option (\<lambda>s. json_quote k @ '':'' @ s) t))) fs = Inr ts"
  proof (rule mapE_ok)
    fix p assume p: "p \<in> set fs"
    obtain k v where kv: "p = (k, v)" by fastforce
    then have "no_bigint v" using "8.prems" p by (auto simp: list_all_iff)
    with "8.IH" [OF p kv [symmetric]] kv show "\<exists>y. (case p of (k, v) \<Rightarrow> bindE (json_stringify v) (\<lambda>t. Inr (map_option (\<lambda>s. json_quote k @ '':'' @ s) t))) = Inr y"
      by auto
  qed
  then show ?case by auto
qed simp_all

lemma broadcast_delivers:
  assumes "no_bigint (billed_payload row)"
  obtains payload where "json_text (billed_payload row) = Inr payload"
    and "broadcast row h = (Inr (), h\<lparr>clients := map (\<lambda>(i, c). (i, if receives row c then ws_send payload c else c)) (clients h)\<rparr>)"
  using json_serialises [OF assms] by (auto simp: broadcast_def json_text_def js_bind_simps js_simps)

section \<open>The heartbeat\<close>

text \<open>A client is pinged while it answers, and dropped at the second round without an answer.\<close>

lemma heartbeat_twice_drops:
  "i \<in> fst ` set (clients h) \<Longrightarrow> i \<notin> fst ` set (clients (heartbeat (heartbeat h)))"
  by (auto simp: heartbeat_def)

lemma heartbeat_clients: "fst ` set (clients (heartbeat h)) = {i. \<exists>c. (i, c) \<in> set (clients h) \<and> is_alive c}"
  by (force simp: heartbeat_def)

lemma pong_alive: "(i, c) \<in> set (clients (on_pong i h)) \<Longrightarrow> is_alive c"
  by (auto simp: on_pong_def update_client_def split: if_splits)

lemma pong_clients: "map fst (clients (on_pong i h)) = map fst (clients h)"
  by (auto simp: on_pong_def update_client_def)

lemma heartbeat_keeps_answering:
  assumes "i \<in> fst ` set (clients (heartbeat h))"
  shows "i \<in> fst ` set (clients (heartbeat (on_pong i (heartbeat h))))"
proof -
  have "i \<in> fst ` set (clients (on_pong i (heartbeat h)))"
    using assms pong_clients by (metis list.set_map)
  then obtain c where "(i, c) \<in> set (clients (on_pong i (heartbeat h)))" by force
  then show ?thesis using pong_alive heartbeat_clients by blast
qed

end
