(* ===== verification/Rust_Int.thy ===== *)
theory Rust_Int
  imports Prelude
begin

text \<open>
  The Rust integer operations the contract uses, on words of their width: \<open>u64\<close> is an
  unsigned 64-bit word, \<open>i128\<close> a 128-bit word read through \<^const>\<open>sint\<close>. \<open>checked_*\<close>
  return \<^const>\<open>None\<close> on overflow; \<open>saturating_sub\<close> clamps; a plain \<open>-\<close> panics on overflow
  (the release profile sets \<open>overflow-checks = true\<close>), here \<^const>\<open>None\<close> as well. Each
  operation comes with the fact that its result reads as the exact integer result.
\<close>

definition u64_checked_add :: "u64 \<Rightarrow> u64 \<Rightarrow> u64 option" where
  "u64_checked_add a b = (if unat a + unat b < 2 ^ 64 then Some (a + b) else None)"

definition i128_checked_add :: "i128 \<Rightarrow> i128 \<Rightarrow> i128 option" where
  "i128_checked_add a b = (if in_i128 (sint a + sint b) then Some (a + b) else None)"

definition i128_checked_sub :: "i128 \<Rightarrow> i128 \<Rightarrow> i128 option" where
  "i128_checked_sub a b = (if in_i128 (sint a - sint b) then Some (a - b) else None)"

definition i128_checked_mul :: "i128 \<Rightarrow> i128 \<Rightarrow> i128 option" where
  "i128_checked_mul a b = (if in_i128 (sint a * sint b) then Some (a * b) else None)"

definition i128_saturating_sub :: "i128 \<Rightarrow> i128 \<Rightarrow> i128" where
  "i128_saturating_sub a b =
     (if sint a - sint b < - (2 ^ 127) then word_of_int (- (2 ^ 127))
      else if 2 ^ 127 \<le> sint a - sint b then word_of_int (2 ^ 127 - 1)
      else a - b)"

text \<open>\<open>i128::from(u64)\<close> and the comparisons of \<open>i128\<close>.\<close>

definition i128_of_u64 :: "u64 \<Rightarrow> i128" where
  "i128_of_u64 n = ucast n"

definition i128_less :: "i128 \<Rightarrow> i128 \<Rightarrow> bool" where
  "i128_less a b \<longleftrightarrow> sint a < sint b"

definition i128_le :: "i128 \<Rightarrow> i128 \<Rightarrow> bool" where
  "i128_le a b \<longleftrightarrow> sint a \<le> sint b"

lemma u64_checked_add_Some:
  "u64_checked_add a b = Some c \<longleftrightarrow> unat a + unat b < 2 ^ 64 \<and> c = a + b"
  by (auto simp: u64_checked_add_def)

lemma u64_checked_add_exact:
  assumes "u64_checked_add a b = Some c"
  shows "unat c = unat a + unat b"
  using assms by (auto simp: u64_checked_add_Some unat_word_ariths)

lemma i128_add_word: "sint (a + b :: i128) = sint a + sint b" if "in_i128 (sint a + sint b)"
proof -
  have "a + b = word_of_int (sint a + sint b)" by simp
  then show ?thesis using that by (metis sint_of_int_i128)
qed

lemma i128_sub_word: "sint (a - b :: i128) = sint a - sint b" if "in_i128 (sint a - sint b)"
proof -
  have "a - b = word_of_int (sint a - sint b)" by simp
  then show ?thesis using that by (metis sint_of_int_i128)
qed

lemma i128_mul_word: "sint (a * b :: i128) = sint a * sint b" if "in_i128 (sint a * sint b)"
proof -
  have "a * b = word_of_int (sint a * sint b)" by simp
  then show ?thesis using that by (metis sint_of_int_i128)
qed

lemma i128_checked_add_exact: "i128_checked_add a b = Some c \<Longrightarrow> sint c = sint a + sint b"
  by (auto simp: i128_checked_add_def i128_add_word split: if_splits)

lemma i128_checked_sub_exact: "i128_checked_sub a b = Some c \<Longrightarrow> sint c = sint a - sint b"
  by (auto simp: i128_checked_sub_def i128_sub_word split: if_splits)

lemma i128_checked_mul_exact: "i128_checked_mul a b = Some c \<Longrightarrow> sint c = sint a * sint b"
  by (auto simp: i128_checked_mul_def i128_mul_word split: if_splits)

lemma i128_saturating_sub_exact:
  "in_i128 (sint a - sint b) \<Longrightarrow> sint (i128_saturating_sub a b) = sint a - sint b"
  by (auto simp: i128_saturating_sub_def in_i128_def i128_sub_word)

lemma i128_checked_sub_nonneg:
  assumes "0 \<le> sint b" and "sint b \<le> sint a"
  shows "i128_checked_sub a b = Some (a - b)" and "sint (a - b) = sint a - sint b"
proof -
  have "in_i128 (sint a - sint b)"
    using assms sint_i128_range [of a] sint_i128_range [of b] by (simp add: in_i128_def)
  then show "i128_checked_sub a b = Some (a - b)" and "sint (a - b) = sint a - sint b"
    by (simp_all add: i128_checked_sub_def i128_sub_word)
qed

lemma sint_i128_of_u64: "sint (i128_of_u64 n) = int (unat n)"
proof -
  have upper: "int (unat n) < 2 ^ 64"
    using unsigned_less [of n, where ?'a = int] by simp
  have "- (2 ^ 127) \<le> int (unat n)"
    by (rule order_trans [of _ 0]) simp_all
  moreover have "int (unat n) < 2 ^ 127"
    by (rule less_le_trans [OF upper]) simp
  ultimately have "in_i128 (int (unat n))"
    unfolding in_i128_def by (rule conjI)
  moreover have "i128_of_u64 n = word_of_int (int (unat n))"
    by (simp add: i128_of_u64_def)
  ultimately show ?thesis by (metis sint_of_int_i128)
qed

lemmas i128_exact =
  i128_checked_add_exact i128_checked_sub_exact i128_checked_mul_exact

end
