(* ===== verification/Contract_Storage.thy ===== *)
theory Contract_Storage
  imports Rust_Int
begin

text \<open>
  The billing contract's data (\<open>contracts/src/types.rs\<close>) and storage layer
  (\<open>contracts/src/storage.rs\<close>): one persistent key-value namespace keyed by
  \<open>StorageKey\<close>, the instance storage that holds the token, and a typed reader and writer
  per entry. Every reader of a present entry and every writer refreshes the entry's time to
  live; the refreshes are the calls to the host's \<open>extend_ttl\<close>, recorded in order in
  \<open>ttl_calls\<close> (what the host does with them is not part of the repository).
\<close>

section \<open>Types\<close>

type_synonym address = string

datatype error =
    NotRegistered | AlreadyRegistered | InvalidRate | InvalidAmount | InsufficientBalance
  | ZeroReading | Overflow | InvalidSignature | InvalidSequence | InsufficientEarnings
  | DeviceNotActive | NotInitialized

fun error_code :: "error \<Rightarrow> nat" where
  "error_code NotRegistered = 1"
| "error_code AlreadyRegistered = 2"
| "error_code InvalidRate = 3"
| "error_code InvalidAmount = 4"
| "error_code InsufficientBalance = 5"
| "error_code ZeroReading = 6"
| "error_code Overflow = 7"
| "error_code InvalidSignature = 8"
| "error_code InvalidSequence = 9"
| "error_code InsufficientEarnings = 10"
| "error_code DeviceNotActive = 11"
| "error_code NotInitialized = 12"

datatype DeviceStatus = Active | Suspended | Retired

record DeviceRegistration =
  reg_operator :: address
  reg_status :: DeviceStatus
  registered_at :: u64
  device_pubkey :: "byte list"

record TariffRate =
  rate_per_unit :: i128

record DepositBalance =
  amount :: i128

record ReadingCounter =
  last_seq :: u64
  last_ts :: u64
  cumulative_units :: u64

record OperatorBalance =
  total_earned :: i128
  total_settled :: i128

text \<open>
  The storage keys; a constructor with an argument is a per-device or per-operator entry.
  The values stored, tagged by their type.
\<close>

datatype StorageKey =
    KToken
  | KDeviceRegistration address
  | KTariffRate address
  | KDepositBalance address
  | KReadingCounter address
  | KOperatorBalance address

datatype StorageValue =
    VAddress address
  | VRegistration DeviceRegistration
  | VTariff TariffRate
  | VDeposit DepositBalance
  | VReading ReadingCounter
  | VOperator OperatorBalance

text \<open>
  Values of the host's wire format that the contract puts into event topics and data.
\<close>

datatype scval =
    ScSymbol string | ScAddress address | ScU64 u64 | ScI128 i128 | ScVec "scval list" | ScVoid

record event =
  topics :: "scval list"
  event_data :: scval

text \<open>
  The state a contract call reads and writes. \<open>tokens\<close> is the state of the SEP-41 token
  contract, which is not part of the repository: a type parameter.
\<close>

record 't cstate =
  instance_storage :: "StorageKey \<rightharpoonup> StorageValue"
  persistent :: "StorageKey \<rightharpoonup> StorageValue"
  ttl_calls :: "(StorageKey \<times> nat \<times> nat) list"
  published :: "event list"
  tokens :: 't

section \<open>Time to live\<close>

definition TTL_THRESHOLD :: nat where "TTL_THRESHOLD = 1000000"
definition TTL_EXTEND_TO :: nat where "TTL_EXTEND_TO = 3000000"

definition bump_ttl :: "StorageKey \<Rightarrow> 't cstate \<Rightarrow> 't cstate" where
  "bump_ttl key s = s\<lparr>ttl_calls := ttl_calls s @ [(key, TTL_THRESHOLD, TTL_EXTEND_TO)]\<rparr>"

lemma bump_ttl_frame [frame_simps, simp]:
  "instance_storage (bump_ttl k s) = instance_storage s"
  "persistent (bump_ttl k s) = persistent s"
  "published (bump_ttl k s) = published s"
  "tokens (bump_ttl k s) = tokens s"
  by (simp_all add: bump_ttl_def)

text \<open>Instance storage: the billing token.\<close>

definition set_token :: "address \<Rightarrow> 't cstate \<Rightarrow> 't cstate" where
  "set_token tok s = s\<lparr>instance_storage := (instance_storage s)(KToken \<mapsto> VAddress tok)\<rparr>"

definition token :: "'t cstate \<Rightarrow> address option" where
  "token s = (case instance_storage s KToken of Some (VAddress a) \<Rightarrow> Some a | _ \<Rightarrow> None)"

section \<open>Typed entries\<close>

text \<open>
  Reading an entry: the value under the key, refreshed when present. The readers below
  differ in the key and in the type they decode.
\<close>

definition read_entry ::
    "StorageKey \<Rightarrow> (StorageValue \<Rightarrow> 'v option) \<Rightarrow> 't cstate \<Rightarrow> 'v option \<times> 't cstate" where
  "read_entry key decode s =
     (let value = Option.bind (persistent s key) decode
      in if value \<noteq> None then (value, bump_ttl key s) else (value, s))"

definition write_entry :: "StorageKey \<Rightarrow> StorageValue \<Rightarrow> 't cstate \<Rightarrow> 't cstate" where
  "write_entry key v s = bump_ttl key (s\<lparr>persistent := (persistent s)(key \<mapsto> v)\<rparr>)"

fun as_registration :: "StorageValue \<Rightarrow> DeviceRegistration option" where
  "as_registration (VRegistration r) = Some r" | "as_registration _ = None"

fun as_tariff :: "StorageValue \<Rightarrow> TariffRate option" where
  "as_tariff (VTariff r) = Some r" | "as_tariff _ = None"

fun as_deposit :: "StorageValue \<Rightarrow> DepositBalance option" where
  "as_deposit (VDeposit r) = Some r" | "as_deposit _ = None"

fun as_reading :: "StorageValue \<Rightarrow> ReadingCounter option" where
  "as_reading (VReading r) = Some r" | "as_reading _ = None"

fun as_operator :: "StorageValue \<Rightarrow> OperatorBalance option" where
  "as_operator (VOperator r) = Some r" | "as_operator _ = None"

definition write_registration :: "address \<Rightarrow> DeviceRegistration \<Rightarrow> 't cstate \<Rightarrow> 't cstate" where
  "write_registration i reg s = write_entry (KDeviceRegistration i) (VRegistration reg) s"

definition registration :: "address \<Rightarrow> 't cstate \<Rightarrow> DeviceRegistration option \<times> 't cstate" where
  "registration i s = read_entry (KDeviceRegistration i) as_registration s"

definition write_tariff :: "address \<Rightarrow> TariffRate \<Rightarrow> 't cstate \<Rightarrow> 't cstate" where
  "write_tariff i rate s = write_entry (KTariffRate i) (VTariff rate) s"

definition tariff :: "address \<Rightarrow> 't cstate \<Rightarrow> TariffRate option \<times> 't cstate" where
  "tariff i s = read_entry (KTariffRate i) as_tariff s"

definition write_deposit :: "address \<Rightarrow> DepositBalance \<Rightarrow> 't cstate \<Rightarrow> 't cstate" where
  "write_deposit i bal s = write_entry (KDepositBalance i) (VDeposit bal) s"

definition deposit :: "address \<Rightarrow> 't cstate \<Rightarrow> DepositBalance option \<times> 't cstate" where
  "deposit i s = read_entry (KDepositBalance i) as_deposit s"

definition write_reading :: "address \<Rightarrow> ReadingCounter \<Rightarrow> 't cstate \<Rightarrow> 't cstate" where
  "write_reading i rdg s = write_entry (KReadingCounter i) (VReading rdg) s"

definition reading :: "address \<Rightarrow> 't cstate \<Rightarrow> ReadingCounter option \<times> 't cstate" where
  "reading i s = read_entry (KReadingCounter i) as_reading s"

definition read_operator_balance :: "address \<Rightarrow> 't cstate \<Rightarrow> OperatorBalance \<times> 't cstate" where
  "read_operator_balance operator s =
     (let (balance, s) = read_entry (KOperatorBalance operator) as_operator s
      in (case balance of Some b \<Rightarrow> b | None \<Rightarrow> \<lparr>total_earned = 0, total_settled = 0\<rparr>, s))"

definition write_operator_balance :: "address \<Rightarrow> OperatorBalance \<Rightarrow> 't cstate \<Rightarrow> 't cstate" where
  "write_operator_balance operator balance s =
     write_entry (KOperatorBalance operator) (VOperator balance) s"

end
