(* ===== verification/Contract.thy ===== *)
theory Contract
  imports Contract_Storage Bytes
begin

text \<open>
  The entry points of the billing contract (\<open>contracts/src/lib.rs\<close>), each a function from
  the contract state to a failure or a result and the new state. A failure carries no state:
  the host discards everything a failing invocation did.

  The host and the token are not part of the repository. \<open>network\<close> holds what the contract
  uses of them: its own address, the SEP-41 \<open>transfer\<close> (\<^const>\<open>None\<close> when it traps) and
  \<open>balance\<close>, and ed25519 verification. \<open>txn\<close> is what one transaction brings: the
  addresses that authorised it and the ledger's timestamp.
\<close>

record 't network =
  contract_address :: address
  token_transfer :: "address \<Rightarrow> address \<Rightarrow> address \<Rightarrow> i128 \<Rightarrow> 't \<Rightarrow> 't option"
  token_balance :: "address \<Rightarrow> address \<Rightarrow> 't \<Rightarrow> i128"
  ed25519_verify :: "byte list \<Rightarrow> byte list \<Rightarrow> byte list \<Rightarrow> bool"

record txn =
  authorized :: "address \<Rightarrow> bool"
  ledger_timestamp :: u64

datatype failure = ContractError error | HostTrap

definition TOPIC_METER :: string where "TOPIC_METER = ''meter''"
definition TOPIC_DEVICE_REGISTERED :: string where "TOPIC_DEVICE_REGISTERED = ''device_registered''"
definition TOPIC_DEPOSIT :: string where "TOPIC_DEPOSIT = ''deposit''"
definition TOPIC_SETTLEMENT :: string where "TOPIC_SETTLEMENT = ''settlement''"

definition publish :: "scval list \<Rightarrow> scval \<Rightarrow> 't cstate \<Rightarrow> 't cstate" where
  "publish tps d s = s\<lparr>published := published s @ [\<lparr>topics = tps, event_data = d\<rparr>]\<rparr>"

section \<open>Signature verification\<close>

definition verify_signature ::
    "'t network \<Rightarrow> byte list \<Rightarrow> u64 \<Rightarrow> u64 \<Rightarrow> u64 \<Rightarrow> byte list \<Rightarrow> failure + unit" where
  "verify_signature net pubkey data_seq delta_units timestamp sig =
     (if length sig \<noteq> 64 then Inl (ContractError InvalidSignature)
      else if ed25519_verify net pubkey (signed_payload pubkey data_seq delta_units timestamp) sig
        then Inr ()
      else Inl HostTrap)"

section \<open>Entry points\<close>

type_synonym ('t, 'a) contract_op = "('t cstate, failure, 'a) op"

definition contract_constructor :: "address \<Rightarrow> 't cstate \<Rightarrow> 't cstate" where
  "contract_constructor billing_token s = set_token billing_token s"

definition register_device ::
    "txn \<Rightarrow> address \<Rightarrow> byte list \<Rightarrow> address \<Rightarrow> i128 \<Rightarrow> ('t, bool) contract_op" where
  "register_device tx device_id pubkey operator rate =
     ensure (authorized tx device_id) HostTrap (
     ensure (authorized tx operator) HostTrap (
     ensure (\<not> i128_less rate 0) (ContractError InvalidRate) (
     runM (registration device_id) (\<lambda>existing.
     ensure (existing = None) (ContractError AlreadyRegistered) (
     doM (write_registration device_id
            \<lparr>reg_operator = operator, reg_status = Active,
             registered_at = ledger_timestamp tx, device_pubkey = pubkey\<rparr>) (
     doM (write_tariff device_id \<lparr>rate_per_unit = rate\<rparr>) (
     doM (write_deposit device_id \<lparr>amount = 0\<rparr>) (
     doM (publish [ScSymbol TOPIC_DEVICE_REGISTERED, ScAddress device_id,
                   ScAddress operator, ScI128 rate] ScVoid) (
     retM True)))))))))"

definition deposit_funds ::
    "'t network \<Rightarrow> txn \<Rightarrow> address \<Rightarrow> i128 \<Rightarrow> ('t, bool) contract_op" where
  "deposit_funds net tx device_id amt =
     ensure (authorized tx device_id) HostTrap (
     runM (registration device_id) (\<lambda>reg.
     ensure (reg \<noteq> None) (ContractError NotRegistered) (
     ensure (\<not> i128_le amt 0) (ContractError InvalidAmount) (
     runM (deposit device_id) (\<lambda>found.
     some_or (i128_checked_add (case found of Some b \<Rightarrow> amount b | None \<Rightarrow> 0) amt)
       (ContractError Overflow) (\<lambda>new_balance.
     getM token (\<lambda>tok.
     some_or tok (ContractError NotInitialized) (\<lambda>billing_token.
     getM tokens (\<lambda>toks.
     some_or (token_transfer net billing_token device_id (contract_address net) amt toks)
       HostTrap (\<lambda>toks'.
     doM (\<lambda>s. s\<lparr>tokens := toks'\<rparr>) (
     doM (write_deposit device_id \<lparr>amount = new_balance\<rparr>) (
     doM (publish [ScSymbol TOPIC_DEPOSIT, ScAddress device_id, ScI128 amt,
                   ScI128 new_balance] ScVoid) (
     retM True)))))))))))))"

definition submit_reading ::
    "'t network \<Rightarrow> txn \<Rightarrow> address \<Rightarrow> u64 \<Rightarrow> u64 \<Rightarrow> u64 \<Rightarrow> byte list \<Rightarrow> ('t, i128) contract_op" where
  "submit_reading net tx device_id delta_units data_seq timestamp sig =
     runM (registration device_id) (\<lambda>found.
     some_or found (ContractError NotRegistered) (\<lambda>reg.
     ensure (reg_status reg = Active) (ContractError DeviceNotActive) (
     ensure (delta_units \<noteq> 0) (ContractError ZeroReading) (
     runM (reading device_id) (\<lambda>found.
     let rdg = (case found of Some r \<Rightarrow> r
                | None \<Rightarrow> \<lparr>last_seq = 0, last_ts = 0, cumulative_units = 0\<rparr>) in
     some_or (u64_checked_add (last_seq rdg) 1) (ContractError Overflow) (\<lambda>expected_seq.
     ensure (data_seq = expected_seq) (ContractError InvalidSequence) (
     tryE (verify_signature net (device_pubkey reg) data_seq delta_units timestamp sig) (\<lambda>_.
     runM (tariff device_id) (\<lambda>found.
     some_or found (ContractError NotRegistered) (\<lambda>tp.
     ensure (\<not> i128_less (rate_per_unit tp) 0) (ContractError InvalidRate) (
     some_or (i128_checked_mul (i128_of_u64 delta_units) (rate_per_unit tp))
       (ContractError Overflow) (\<lambda>total_cost.
     runM (deposit device_id) (\<lambda>found.
     some_or found (ContractError NotRegistered) (\<lambda>bal.
     ensure (\<not> i128_less (amount bal) total_cost) (ContractError InsufficientBalance) (
     some_or (i128_checked_sub (amount bal) total_cost) HostTrap (\<lambda>balance_after.
     doM (write_deposit device_id \<lparr>amount = balance_after\<rparr>) (
     runM (read_operator_balance (reg_operator reg)) (\<lambda>op_bal.
     some_or (i128_checked_add (total_earned op_bal) total_cost)
       (ContractError Overflow) (\<lambda>earned.
     doM (write_operator_balance (reg_operator reg) (op_bal\<lparr>total_earned := earned\<rparr>)) (
     let now = ledger_timestamp tx in
     some_or (u64_checked_add (cumulative_units rdg) delta_units)
       (ContractError Overflow) (\<lambda>units.
     doM (write_reading device_id
            (rdg\<lparr>last_seq := data_seq, last_ts := now, cumulative_units := units\<rparr>)) (
     doM (publish [ScSymbol TOPIC_METER, ScAddress device_id]
            (ScVec [ScU64 delta_units, ScI128 total_cost, ScI128 balance_after,
                    ScU64 data_seq, ScU64 now])) (
     retM total_cost)))))))))))))))))))))))"

definition settle_balance ::
    "'t network \<Rightarrow> txn \<Rightarrow> address \<Rightarrow> i128 \<Rightarrow> ('t, bool) contract_op" where
  "settle_balance net tx operator amt =
     ensure (authorized tx operator) HostTrap (
     ensure (\<not> i128_le amt 0) (ContractError InvalidAmount) (
     runM (read_operator_balance operator) (\<lambda>bal.
     let withdrawable = i128_saturating_sub (total_earned bal) (total_settled bal) in
     ensure (\<not> i128_less withdrawable amt) (ContractError InsufficientEarnings) (
     getM token (\<lambda>tok.
     some_or tok (ContractError NotInitialized) (\<lambda>billing_token.
     getM tokens (\<lambda>toks.
     some_or (token_transfer net billing_token (contract_address net) operator amt toks)
       HostTrap (\<lambda>toks'.
     doM (\<lambda>s. s\<lparr>tokens := toks'\<rparr>) (
     some_or (i128_checked_add (total_settled bal) amt) (ContractError Overflow) (\<lambda>settled.
     doM (write_operator_balance operator (bal\<lparr>total_settled := settled\<rparr>)) (
     doM (publish [ScSymbol TOPIC_SETTLEMENT, ScAddress operator, ScI128 amt] ScVoid) (
     retM True))))))))))))"

text \<open>Read-only helpers; a read of a present entry refreshes it, so they too return a state.\<close>

definition get_registration :: "address \<Rightarrow> 't cstate \<Rightarrow> DeviceRegistration option \<times> 't cstate" where
  "get_registration device_id s = registration device_id s"

definition get_tariff :: "address \<Rightarrow> 't cstate \<Rightarrow> TariffRate option \<times> 't cstate" where
  "get_tariff device_id s = tariff device_id s"

definition get_balance :: "address \<Rightarrow> 't cstate \<Rightarrow> i128 option \<times> 't cstate" where
  "get_balance device_id s = (case deposit device_id s of (d, s) \<Rightarrow> (map_option amount d, s))"

definition get_reading :: "address \<Rightarrow> 't cstate \<Rightarrow> ReadingCounter option \<times> 't cstate" where
  "get_reading device_id s = reading device_id s"

definition get_operator_balance :: "address \<Rightarrow> 't cstate \<Rightarrow> OperatorBalance \<times> 't cstate" where
  "get_operator_balance operator s = read_operator_balance operator s"

end
