(* ===== verification/Contract_Effects.thy ===== *)
theory Contract_Effects
  imports Contract
begin

text \<open>
  What the storage layer promises the entry points, stated as an interface and discharged for
  each of the five entries, and the effect of each entry point in terms of the stored values:
  the inversion lemmas on which every later proof rests.
\<close>

section \<open>The stored values\<close>

text \<open>Views of the persistent map, one per kind of entry.\<close>

definition p_registration :: "(StorageKey \<rightharpoonup> StorageValue) \<Rightarrow> address \<Rightarrow> DeviceRegistration option" where
  "p_registration p i = Option.bind (p (KDeviceRegistration i)) as_registration"

definition p_tariff :: "(StorageKey \<rightharpoonup> StorageValue) \<Rightarrow> address \<Rightarrow> TariffRate option" where
  "p_tariff p i = Option.bind (p (KTariffRate i)) as_tariff"

definition p_deposit :: "(StorageKey \<rightharpoonup> StorageValue) \<Rightarrow> address \<Rightarrow> DepositBalance option" where
  "p_deposit p i = Option.bind (p (KDepositBalance i)) as_deposit"

definition p_reading :: "(StorageKey \<rightharpoonup> StorageValue) \<Rightarrow> address \<Rightarrow> ReadingCounter option" where
  "p_reading p i = Option.bind (p (KReadingCounter i)) as_reading"

definition p_operator :: "(StorageKey \<rightharpoonup> StorageValue) \<Rightarrow> address \<Rightarrow> OperatorBalance" where
  "p_operator p i =
     (case Option.bind (p (KOperatorBalance i)) as_operator of
        Some b \<Rightarrow> b | None \<Rightarrow> \<lparr>total_earned = 0, total_settled = 0\<rparr>)"

lemmas view_defs = p_registration_def p_tariff_def p_deposit_def p_reading_def p_operator_def

lemma read_entry_simps [simp]:
  "fst (read_entry k dec s) = Option.bind (persistent s k) dec"
  "persistent (snd (read_entry k dec s)) = persistent s"
  "instance_storage (snd (read_entry k dec s)) = instance_storage s"
  "published (snd (read_entry k dec s)) = published s"
  "tokens (snd (read_entry k dec s)) = tokens s"
  by (simp_all add: read_entry_def Let_def)

lemma write_entry_simps [simp]:
  "persistent (write_entry k v s) = (persistent s)(k \<mapsto> v)"
  "instance_storage (write_entry k v s) = instance_storage s"
  "published (write_entry k v s) = published s"
  "tokens (write_entry k v s) = tokens s"
  by (simp_all add: write_entry_def)

lemma fst_readers [model_simps]:
  "fst (registration i s) = p_registration (persistent s) i"
  "fst (tariff i s) = p_tariff (persistent s) i"
  "fst (deposit i s) = p_deposit (persistent s) i"
  "fst (reading i s) = p_reading (persistent s) i"
  "fst (read_operator_balance i s) = p_operator (persistent s) i"
  by (simp_all add: registration_def tariff_def deposit_def reading_def
        read_operator_balance_def view_defs split_beta)

lemma readers_frame [frame_simps, simp]:
  "persistent (snd (registration i s)) = persistent s"
  "persistent (snd (tariff i s)) = persistent s"
  "persistent (snd (deposit i s)) = persistent s"
  "persistent (snd (reading i s)) = persistent s"
  "persistent (snd (read_operator_balance i s)) = persistent s"
  "instance_storage (snd (registration i s)) = instance_storage s"
  "instance_storage (snd (tariff i s)) = instance_storage s"
  "instance_storage (snd (deposit i s)) = instance_storage s"
  "instance_storage (snd (reading i s)) = instance_storage s"
  "instance_storage (snd (read_operator_balance i s)) = instance_storage s"
  "published (snd (registration i s)) = published s"
  "published (snd (tariff i s)) = published s"
  "published (snd (deposit i s)) = published s"
  "published (snd (reading i s)) = published s"
  "published (snd (read_operator_balance i s)) = published s"
  "tokens (snd (registration i s)) = tokens s"
  "tokens (snd (tariff i s)) = tokens s"
  "tokens (snd (deposit i s)) = tokens s"
  "tokens (snd (reading i s)) = tokens s"
  "tokens (snd (read_operator_balance i s)) = tokens s"
  by (simp_all add: registration_def tariff_def deposit_def reading_def
        read_operator_balance_def split_beta)

lemma writers_simps [frame_simps, simp]:
  "persistent (write_registration i r s) = (persistent s)(KDeviceRegistration i \<mapsto> VRegistration r)"
  "persistent (write_tariff i t s) = (persistent s)(KTariffRate i \<mapsto> VTariff t)"
  "persistent (write_deposit i d s) = (persistent s)(KDepositBalance i \<mapsto> VDeposit d)"
  "persistent (write_reading i c s) = (persistent s)(KReadingCounter i \<mapsto> VReading c)"
  "persistent (write_operator_balance i b s) = (persistent s)(KOperatorBalance i \<mapsto> VOperator b)"
  "instance_storage (write_registration i r s) = instance_storage s"
  "instance_storage (write_tariff i t s) = instance_storage s"
  "instance_storage (write_deposit i d s) = instance_storage s"
  "instance_storage (write_reading i c s) = instance_storage s"
  "instance_storage (write_operator_balance i b s) = instance_storage s"
  "published (write_registration i r s) = published s"
  "published (write_tariff i t s) = published s"
  "published (write_deposit i d s) = published s"
  "published (write_reading i c s) = published s"
  "published (write_operator_balance i b s) = published s"
  "tokens (write_registration i r s) = tokens s"
  "tokens (write_tariff i t s) = tokens s"
  "tokens (write_deposit i d s) = tokens s"
  "tokens (write_reading i c s) = tokens s"
  "tokens (write_operator_balance i b s) = tokens s"
  by (simp_all add: write_registration_def write_tariff_def write_deposit_def
        write_reading_def write_operator_balance_def)

lemma token_same: "instance_storage s' = instance_storage s \<Longrightarrow> token s' = token s"
  by (simp add: token_def)

lemma token_frame [frame_simps, simp]:
  "token (snd (registration i s)) = token s"
  "token (snd (tariff i s)) = token s"
  "token (snd (deposit i s)) = token s"
  "token (snd (reading i s)) = token s"
  "token (snd (read_operator_balance i s)) = token s"
  "token (write_registration i r s) = token s"
  "token (write_tariff i t s) = token s"
  "token (write_deposit i d s) = token s"
  "token (write_reading i c s) = token s"
  "token (write_operator_balance i b s) = token s"
  "token (s\<lparr>tokens := tk\<rparr>) = token s"
  by (simp_all add: token_def)

lemma publish_simps [frame_simps, simp]:
  "persistent (publish t d s) = persistent s"
  "instance_storage (publish t d s) = instance_storage s"
  "tokens (publish t d s) = tokens s"
  "token (publish t d s) = token s"
  "published (publish t d s) = published s @ [\<lparr>topics = t, event_data = d\<rparr>]"
  by (simp_all add: publish_def token_def)

text \<open>The views after one write: the entry written changes, every other stays.\<close>

lemma p_registration_upd [simp]:
  "p_registration (p(KDeviceRegistration j \<mapsto> VRegistration r)) i = (if i = j then Some r else p_registration p i)"
  "p_registration (p(KTariffRate j \<mapsto> v)) i = p_registration p i"
  "p_registration (p(KDepositBalance j \<mapsto> v)) i = p_registration p i"
  "p_registration (p(KReadingCounter j \<mapsto> v)) i = p_registration p i"
  "p_registration (p(KOperatorBalance j \<mapsto> v)) i = p_registration p i"
  by (simp_all add: p_registration_def)

lemma p_tariff_upd [simp]:
  "p_tariff (p(KTariffRate j \<mapsto> VTariff r)) i = (if i = j then Some r else p_tariff p i)"
  "p_tariff (p(KDeviceRegistration j \<mapsto> v)) i = p_tariff p i"
  "p_tariff (p(KDepositBalance j \<mapsto> v)) i = p_tariff p i"
  "p_tariff (p(KReadingCounter j \<mapsto> v)) i = p_tariff p i"
  "p_tariff (p(KOperatorBalance j \<mapsto> v)) i = p_tariff p i"
  by (simp_all add: p_tariff_def)

lemma p_deposit_upd [simp]:
  "p_deposit (p(KDepositBalance j \<mapsto> VDeposit r)) i = (if i = j then Some r else p_deposit p i)"
  "p_deposit (p(KDeviceRegistration j \<mapsto> v)) i = p_deposit p i"
  "p_deposit (p(KTariffRate j \<mapsto> v)) i = p_deposit p i"
  "p_deposit (p(KReadingCounter j \<mapsto> v)) i = p_deposit p i"
  "p_deposit (p(KOperatorBalance j \<mapsto> v)) i = p_deposit p i"
  by (simp_all add: p_deposit_def)

lemma p_reading_upd [simp]:
  "p_reading (p(KReadingCounter j \<mapsto> VReading r)) i = (if i = j then Some r else p_reading p i)"
  "p_reading (p(KDeviceRegistration j \<mapsto> v)) i = p_reading p i"
  "p_reading (p(KTariffRate j \<mapsto> v)) i = p_reading p i"
  "p_reading (p(KDepositBalance j \<mapsto> v)) i = p_reading p i"
  "p_reading (p(KOperatorBalance j \<mapsto> v)) i = p_reading p i"
  by (simp_all add: p_reading_def)

lemma p_operator_upd [simp]:
  "p_operator (p(KOperatorBalance j \<mapsto> VOperator r)) i = (if i = j then r else p_operator p i)"
  "p_operator (p(KDeviceRegistration j \<mapsto> v)) i = p_operator p i"
  "p_operator (p(KTariffRate j \<mapsto> v)) i = p_operator p i"
  "p_operator (p(KDepositBalance j \<mapsto> v)) i = p_operator p i"
  "p_operator (p(KReadingCounter j \<mapsto> v)) i = p_operator p i"
  by (simp_all add: p_operator_def)

section \<open>The interface of a stored entry\<close>

text \<open>
  What the entry points rely on: a read returns the last value written under the same
  address, a write under one address leaves the others, and reads change no stored value.
  \<open>inj\<close> says how a written value reads back (\<^const>\<open>Some\<close>, or itself for the operator
  ledger, which has a default).
\<close>

locale typed_entry =
  fixes rd :: "address \<Rightarrow> 's \<Rightarrow> 'v \<times> 's"
    and wr :: "address \<Rightarrow> 'w \<Rightarrow> 's \<Rightarrow> 's"
    and inj :: "'w \<Rightarrow> 'v"
  assumes read_write: "fst (rd i (wr i w s)) = inj w"
    and read_other: "i \<noteq> j \<Longrightarrow> fst (rd i (wr j w s)) = fst (rd i s)"
    and read_stable: "fst (rd i (snd (rd j s))) = fst (rd i s)"
begin

lemma last_write_wins: "fst (rd i (wr i w (wr i v s))) = inj w"
  by (rule read_write)

text \<open>After any series of writes a read sees the last one under its address.\<close>

lemma read_after_writes:
  "fst (rd i (fold (\<lambda>(j, w). wr j w) ws s)) =
     (case map_of (rev ws) i of Some w \<Rightarrow> inj w | None \<Rightarrow> fst (rd i s))"
proof (induction ws rule: rev_induct)
  case Nil
  show ?case by simp
next
  case (snoc x ws)
  show ?case
    by (cases x, cases "fst x = i") (simp_all add: snoc.IH read_write read_other)
qed

end

interpretation registration_entry: typed_entry registration write_registration Some
  by unfold_locales (simp_all add: model_simps)

interpretation tariff_entry: typed_entry tariff write_tariff Some
  by unfold_locales (simp_all add: model_simps)

interpretation deposit_entry: typed_entry deposit write_deposit Some
  by unfold_locales (simp_all add: model_simps)

interpretation reading_entry: typed_entry reading write_reading Some
  by unfold_locales (simp_all add: model_simps)

interpretation operator_entry: typed_entry read_operator_balance write_operator_balance "\<lambda>b. b"
  by unfold_locales (simp_all add: model_simps)

section \<open>The effect of each entry point\<close>

text \<open>The reading counter, with the default of a device that has none.\<close>

definition rdg_of :: "(StorageKey \<rightharpoonup> StorageValue) \<Rightarrow> address \<Rightarrow> ReadingCounter" where
  "rdg_of p d = (case p_reading p d of Some r \<Rightarrow> r
                | None \<Rightarrow> \<lparr>last_seq = 0, last_ts = 0, cumulative_units = 0\<rparr>)"

lemma register_device_Inr:
  assumes "register_device tx d pk opr rate s = Inr (v, s')"
  shows "v = True \<and> authorized tx d \<and> authorized tx opr \<and> 0 \<le> sint rate
    \<and> p_registration (persistent s) d = None
    \<and> persistent s' = (persistent s)(
        KDeviceRegistration d \<mapsto> VRegistration \<lparr>reg_operator = opr, reg_status = Active,
             registered_at = ledger_timestamp tx, device_pubkey = pk\<rparr>,
        KTariffRate d \<mapsto> VTariff \<lparr>rate_per_unit = rate\<rparr>,
        KDepositBalance d \<mapsto> VDeposit \<lparr>amount = 0\<rparr>)
    \<and> instance_storage s' = instance_storage s \<and> tokens s' = tokens s
    \<and> published s' = published s @ [\<lparr>topics = [ScSymbol TOPIC_DEVICE_REGISTERED, ScAddress d,
                   ScAddress opr, ScI128 rate], event_data = ScVoid\<rparr>]"
  using assms by (auto simp: register_device_def op_Inr_iff model_simps i128_less_def)

lemma deposit_funds_Inr:
  assumes "deposit_funds net tx d amt s = Inr (v, s')"
  shows "v = True \<and> authorized tx d \<and> 0 < sint amt \<and> p_registration (persistent s) d \<noteq> None
    \<and> (\<exists>old new tok toks. old = (case p_deposit (persistent s) d of Some b \<Rightarrow> amount b | None \<Rightarrow> 0)
        \<and> i128_checked_add old amt = Some new \<and> token s = Some tok
        \<and> token_transfer net tok d (contract_address net) amt (tokens s) = Some toks
        \<and> persistent s' = (persistent s)(KDepositBalance d \<mapsto> VDeposit \<lparr>amount = new\<rparr>)
        \<and> instance_storage s' = instance_storage s \<and> tokens s' = toks
        \<and> published s' = published s @ [\<lparr>topics = [ScSymbol TOPIC_DEPOSIT, ScAddress d, ScI128 amt,
                   ScI128 new], event_data = ScVoid\<rparr>])"
  using assms by (auto simp: deposit_funds_def op_Inr_iff model_simps i128_le_def token_def)

lemma settle_balance_Inr:
  assumes "settle_balance net tx opr amt s = Inr (v, s')"
  shows "v = True \<and> authorized tx opr \<and> 0 < sint amt
    \<and> (\<exists>bal settled tok toks. bal = p_operator (persistent s) opr
        \<and> sint amt \<le> sint (i128_saturating_sub (total_earned bal) (total_settled bal))
        \<and> i128_checked_add (total_settled bal) amt = Some settled \<and> token s = Some tok
        \<and> token_transfer net tok (contract_address net) opr amt (tokens s) = Some toks
        \<and> persistent s' = (persistent s)(KOperatorBalance opr \<mapsto> VOperator (bal\<lparr>total_settled := settled\<rparr>))
        \<and> instance_storage s' = instance_storage s \<and> tokens s' = toks
        \<and> published s' = published s @ [\<lparr>topics = [ScSymbol TOPIC_SETTLEMENT, ScAddress opr, ScI128 amt],
             event_data = ScVoid\<rparr>])"
  using assms by (auto simp: settle_balance_def op_Inr_iff model_simps i128_le_def i128_less_def token_def Let_def)

text \<open>
  A successful reading, by the values it found: the registration, tariff and deposit of the
  device, and what the deposit, the operator's earnings and the unit counter become.
\<close>

lemma submit_reading_cases:
  assumes "submit_reading net tx d delta q ts sig s = Inr (cost, s')"
  obtains (accepted) reg tp bal left earned units where
    "p_registration (persistent s) d = Some reg" and "reg_status reg = Active" and "delta \<noteq> 0"
    and "u64_checked_add (last_seq (rdg_of (persistent s) d)) 1 = Some q"
    and "verify_signature net (device_pubkey reg) q delta ts sig = Inr ()"
    and "p_tariff (persistent s) d = Some tp" and "0 \<le> sint (rate_per_unit tp)"
    and "i128_checked_mul (i128_of_u64 delta) (rate_per_unit tp) = Some cost"
    and "p_deposit (persistent s) d = Some bal" and "sint cost \<le> sint (amount bal)"
    and "i128_checked_sub (amount bal) cost = Some left"
    and "i128_checked_add (total_earned (p_operator (persistent s) (reg_operator reg))) cost = Some earned"
    and "u64_checked_add (cumulative_units (rdg_of (persistent s) d)) delta = Some units"
    and "persistent s' = (persistent s)(
        KDepositBalance d \<mapsto> VDeposit \<lparr>amount = left\<rparr>,
        KOperatorBalance (reg_operator reg) \<mapsto> VOperator
          ((p_operator (persistent s) (reg_operator reg))\<lparr>total_earned := earned\<rparr>),
        KReadingCounter d \<mapsto> VReading \<lparr>last_seq = q, last_ts = ledger_timestamp tx, cumulative_units = units\<rparr>)"
    and "instance_storage s' = instance_storage s" and "tokens s' = tokens s"
    and "published s' = published s @ [\<lparr>topics = [ScSymbol TOPIC_METER, ScAddress d],
         event_data = ScVec [ScU64 delta, ScI128 cost, ScI128 left, ScU64 q, ScU64 (ledger_timestamp tx)]\<rparr>]"
  using assms by (fastforce simp: submit_reading_def op_Inr_iff model_simps i128_less_def Let_def rdg_of_def)

lemma deposit_funds_cases:
  assumes "deposit_funds net tx d amt s = Inr (v, s')"
  obtains (accepted) old new tok toks where
    "authorized tx d" and "0 < sint amt" and "p_registration (persistent s) d \<noteq> None"
    and "old = (case p_deposit (persistent s) d of Some b \<Rightarrow> amount b | None \<Rightarrow> 0)"
    and "i128_checked_add old amt = Some new" and "token s = Some tok"
    and "token_transfer net tok d (contract_address net) amt (tokens s) = Some toks"
    and "persistent s' = (persistent s)(KDepositBalance d \<mapsto> VDeposit \<lparr>amount = new\<rparr>)"
    and "instance_storage s' = instance_storage s" and "tokens s' = toks"
    and "published s' = published s @ [\<lparr>topics = [ScSymbol TOPIC_DEPOSIT, ScAddress d, ScI128 amt,
                   ScI128 new], event_data = ScVoid\<rparr>]"
  using deposit_funds_Inr [OF assms] by auto

lemma settle_balance_cases:
  assumes "settle_balance net tx opr amt s = Inr (v, s')"
  obtains (accepted) bal settled tok toks where
    "authorized tx opr" and "0 < sint amt" and "bal = p_operator (persistent s) opr"
    and "sint amt \<le> sint (i128_saturating_sub (total_earned bal) (total_settled bal))"
    and "i128_checked_add (total_settled bal) amt = Some settled" and "token s = Some tok"
    and "token_transfer net tok (contract_address net) opr amt (tokens s) = Some toks"
    and "persistent s' = (persistent s)(KOperatorBalance opr \<mapsto> VOperator (bal\<lparr>total_settled := settled\<rparr>))"
    and "instance_storage s' = instance_storage s" and "tokens s' = toks"
    and "published s' = published s @ [\<lparr>topics = [ScSymbol TOPIC_SETTLEMENT, ScAddress opr, ScI128 amt],
             event_data = ScVoid\<rparr>]"
  using settle_balance_Inr [OF assms] by auto

end
