(* ===== verification/Contract_System.thy ===== *)
theory Contract_System
  imports Contract_Effects
begin

text \<open>
  The contract over a whole ledger history: the calls a transaction can make, the states
  reachable from a deployment, what the event log says of a device or an operator, and the
  invariants of every reachable state.
\<close>

section \<open>Calls and reachable states\<close>

datatype call =
    Register_Device address "byte list" address i128
  | Deposit_Funds address i128
  | Submit_Reading address u64 u64 u64 "byte list"
  | Settle_Balance address i128
  | Get_Registration address
  | Get_Tariff address
  | Get_Balance address
  | Get_Reading address
  | Get_Operator_Balance address

text \<open>The state after one invocation; the host keeps the old state when it fails.\<close>

fun exec :: "'t network \<Rightarrow> txn \<Rightarrow> call \<Rightarrow> 't cstate \<Rightarrow> 't cstate" where
  "exec net tx (Register_Device d pk opr rate) s = commit (register_device tx d pk opr rate) s"
| "exec net tx (Deposit_Funds d amt) s = commit (deposit_funds net tx d amt) s"
| "exec net tx (Submit_Reading d units seq ts sig) s =
     commit (submit_reading net tx d units seq ts sig) s"
| "exec net tx (Settle_Balance opr amt) s = commit (settle_balance net tx opr amt) s"
| "exec net tx (Get_Registration d) s = snd (get_registration d s)"
| "exec net tx (Get_Tariff d) s = snd (get_tariff d s)"
| "exec net tx (Get_Balance d) s = snd (get_balance d s)"
| "exec net tx (Get_Reading d) s = snd (get_reading d s)"
| "exec net tx (Get_Operator_Balance opr) s = snd (get_operator_balance opr s)"

definition empty_state :: "'t \<Rightarrow> 't cstate" where
  "empty_state toks = \<lparr>instance_storage = Map.empty, persistent = Map.empty, ttl_calls = [],
     published = [], tokens = toks\<rparr>"

text \<open>The contract's holdings of its billing token, read through SEP-41 \<open>balance\<close>.\<close>

definition custody :: "'t network \<Rightarrow> 't cstate \<Rightarrow> int" where
  "custody net s = (case token s of None \<Rightarrow> 0
     | Some tok \<Rightarrow> sint (token_balance net tok (contract_address net) (tokens s)))"

text \<open>
  One step of the ledger: an invocation of the contract, in a transaction the contract itself
  did not authorise (it never invokes itself), or activity in the token contract that does not
  lower the contract's own holdings (only the contract can authorise spending them).
\<close>

inductive ledger_step :: "'t network \<Rightarrow> 't cstate \<Rightarrow> 't cstate \<Rightarrow> bool" for net where
  invocation: "\<not> authorized tx (contract_address net) \<Longrightarrow> ledger_step net s (exec net tx c s)"
| token_activity: "custody net s \<le> custody net (s\<lparr>tokens := toks\<rparr>) \<Longrightarrow>
     ledger_step net s (s\<lparr>tokens := toks\<rparr>)"

inductive reachable :: "'t network \<Rightarrow> 't cstate \<Rightarrow> bool" for net where
  deployed: "0 \<le> custody net (contract_constructor tok (empty_state toks)) \<Longrightarrow>
     reachable net (contract_constructor tok (empty_state toks))"
| step: "reachable net s \<Longrightarrow> ledger_step net s s' \<Longrightarrow> reachable net s'"

inductive_cases ledger_stepE: "ledger_step net s s'"

text \<open>
  An invariant of the four state-changing entry points, of reads and of token activity is an
  invariant of every reachable state. A predicate over the stored values, the log and the
  token is what the proofs below supply, so reads need no argument of their own.
\<close>

text \<open>What a contract state is to the invariants: everything but the refresh calls.\<close>

definition same_data :: "'t cstate \<Rightarrow> 't cstate \<Rightarrow> bool" where
  "same_data s s' \<longleftrightarrow> persistent s' = persistent s \<and> instance_storage s' = instance_storage s
     \<and> published s' = published s \<and> tokens s' = tokens s"

lemma reads_same_data:
  "same_data s (snd (get_registration d s))"
  "same_data s (snd (get_tariff d s))"
  "same_data s (snd (get_balance d s))"
  "same_data s (snd (get_reading d s))"
  "same_data s (snd (get_operator_balance d s))"
  by (simp_all add: same_data_def get_registration_def get_tariff_def get_balance_def
        get_reading_def get_operator_balance_def split_beta)

locale ledger_invariant =
  fixes net :: "'t network"
    and I :: "'t cstate \<Rightarrow> bool"
  assumes inv_deployed: "0 \<le> custody net (contract_constructor tok (empty_state toks)) \<Longrightarrow>
      I (contract_constructor tok (empty_state toks))"
    and inv_same: "I s \<Longrightarrow> same_data s s' \<Longrightarrow> I s'"
    and inv_token: "I s \<Longrightarrow> custody net s \<le> custody net (s\<lparr>tokens := toks\<rparr>) \<Longrightarrow> I (s\<lparr>tokens := toks\<rparr>)"
    and inv_register: "I s \<Longrightarrow> \<not> authorized tx (contract_address net) \<Longrightarrow>
      register_device tx d pk opr rate s = Inr (v, s') \<Longrightarrow> I s'"
    and inv_deposit: "I s \<Longrightarrow> \<not> authorized tx (contract_address net) \<Longrightarrow>
      deposit_funds net tx d amt s = Inr (v, s') \<Longrightarrow> I s'"
    and inv_submit: "I s \<Longrightarrow> \<not> authorized tx (contract_address net) \<Longrightarrow>
      submit_reading net tx d units seq ts sig s = Inr (cost, s') \<Longrightarrow> I s'"
    and inv_settle: "I s \<Longrightarrow> \<not> authorized tx (contract_address net) \<Longrightarrow>
      settle_balance net tx opr amt s = Inr (v, s') \<Longrightarrow> I s'"
begin

lemma inv_exec:
  assumes "I s" and "\<not> authorized tx (contract_address net)"
  shows "I (exec net tx c s)"
proof (cases c)
  case (Register_Device d pk opr rate)
  then show ?thesis
    using assms inv_register [OF assms] by (simp add: commit_cases)
next
  case (Deposit_Funds d amt)
  then show ?thesis
    using assms inv_deposit [OF assms] by (simp add: commit_cases)
next
  case (Submit_Reading d units seq ts sig)
  then show ?thesis
    using assms inv_submit [OF assms] by (simp add: commit_cases)
next
  case (Settle_Balance opr amt)
  then show ?thesis
    using assms inv_settle [OF assms] by (simp add: commit_cases)
qed (simp_all add: inv_same [OF assms(1)] reads_same_data)

lemma inv_step: "ledger_step net s s' \<Longrightarrow> I s \<Longrightarrow> I s'"
  by (erule ledger_stepE) (auto intro: inv_exec inv_token)

lemma inv_reachable: "reachable net s \<Longrightarrow> I s"
  by (induction rule: reachable.induct) (auto intro: inv_deployed inv_step)

end

section \<open>Well-formed storage\<close>

text \<open>Every key holds a value of its own type.\<close>

fun key_typed :: "StorageKey \<Rightarrow> StorageValue \<Rightarrow> bool" where
  "key_typed (KDeviceRegistration _) (VRegistration _) = True"
| "key_typed (KTariffRate _) (VTariff _) = True"
| "key_typed (KDepositBalance _) (VDeposit _) = True"
| "key_typed (KReadingCounter _) (VReading _) = True"
| "key_typed (KOperatorBalance _) (VOperator _) = True"
| "key_typed _ _ = False"

definition storage_typed :: "'t cstate \<Rightarrow> bool" where
  "storage_typed s \<longleftrightarrow> (\<forall>k v. persistent s k = Some v \<longrightarrow> key_typed k v)
     \<and> (\<exists>tok. instance_storage s = [KToken \<mapsto> VAddress tok]) \<and> finite (dom (persistent s))"

lemma contract_constructor_simps [simp]:
  "persistent (contract_constructor tok (empty_state toks)) = Map.empty"
  "published (contract_constructor tok (empty_state toks)) = []"
  "instance_storage (contract_constructor tok (empty_state toks)) = [KToken \<mapsto> VAddress tok]"
  "tokens (contract_constructor tok (empty_state toks)) = toks"
  by (simp_all add: contract_constructor_def set_token_def empty_state_def)

interpretation typed: ledger_invariant net storage_typed for net :: "'t network"
proof unfold_locales
  fix s s' :: "'t cstate" and tx d pk opr rate v
  assume "storage_typed s" "register_device tx d pk opr rate s = Inr (v, s')"
  then show "storage_typed s'"
    by (auto simp: storage_typed_def dest!: register_device_Inr split: if_splits)
next
  fix s s' :: "'t cstate" and tx d amt v
  assume "storage_typed s" "deposit_funds net tx d amt s = Inr (v, s')"
  then show "storage_typed s'"
    by (auto simp: storage_typed_def dest!: deposit_funds_Inr split: if_splits)
next
  fix s s' :: "'t cstate" and tx d units seq ts sig cost
  assume "submit_reading net tx d units seq ts sig s = Inr (cost, s')" "storage_typed s"
  then show "storage_typed s'"
    by (cases rule: submit_reading_cases) (auto simp: storage_typed_def split: if_splits)
next
  fix s s' :: "'t cstate" and tx opr amt v
  assume "storage_typed s" "settle_balance net tx opr amt s = Inr (v, s')"
  then show "storage_typed s'"
    by (auto simp: storage_typed_def dest!: settle_balance_Inr split: if_splits)
qed (auto simp: storage_typed_def same_data_def)

end
