(* ===== verification/Contract_Ledger.thy ===== *)
theory Contract_Ledger
  imports Contract_System
begin

text \<open>
  The money invariants: account entries agree with each other, no balance is negative, an
  operator is never paid more than it earned, and the contract's token holdings always cover
  every device deposit and every unpaid earning.
\<close>

section \<open>Accounts\<close>

definition dep_int :: "(StorageKey \<rightharpoonup> StorageValue) \<Rightarrow> address \<Rightarrow> int" where
  "dep_int p d = (case p_deposit p d of None \<Rightarrow> 0 | Some b \<Rightarrow> sint (amount b))"

definition owed_int :: "(StorageKey \<rightharpoonup> StorageValue) \<Rightarrow> address \<Rightarrow> int" where
  "owed_int p opr = sint (total_earned (p_operator p opr)) - sint (total_settled (p_operator p opr))"

definition accounts_ok :: "'t cstate \<Rightarrow> bool" where
  "accounts_ok s \<longleftrightarrow>
     (\<forall>d. p_tariff (persistent s) d = None \<longleftrightarrow> p_registration (persistent s) d = None)
   \<and> (\<forall>d. p_deposit (persistent s) d = None \<longleftrightarrow> p_registration (persistent s) d = None)
   \<and> (\<forall>d. p_registration (persistent s) d = None \<longrightarrow> p_reading (persistent s) d = None)
   \<and> (\<forall>d reg. p_registration (persistent s) d = Some reg \<longrightarrow> reg_status reg = Active)
   \<and> (\<forall>d tp. p_tariff (persistent s) d = Some tp \<longrightarrow> 0 \<le> sint (rate_per_unit tp))
   \<and> (\<forall>d. 0 \<le> dep_int (persistent s) d)
   \<and> (\<forall>opr. 0 \<le> sint (total_settled (p_operator (persistent s) opr)) \<and> 0 \<le> owed_int (persistent s) opr)"

lemma dep_int_upd [simp]:
  "dep_int (p(KDepositBalance j \<mapsto> VDeposit b)) d = (if d = j then sint (amount b) else dep_int p d)"
  "dep_int (p(KDeviceRegistration j \<mapsto> v)) d = dep_int p d"
  "dep_int (p(KTariffRate j \<mapsto> v)) d = dep_int p d"
  "dep_int (p(KReadingCounter j \<mapsto> v)) d = dep_int p d"
  "dep_int (p(KOperatorBalance j \<mapsto> v)) d = dep_int p d"
  by (simp_all add: dep_int_def)

lemma owed_int_upd [simp]:
  "owed_int (p(KOperatorBalance j \<mapsto> VOperator b)) x =
     (if x = j then sint (total_earned b) - sint (total_settled b) else owed_int p x)"
  "owed_int (p(KDeviceRegistration j \<mapsto> v)) x = owed_int p x"
  "owed_int (p(KTariffRate j \<mapsto> v)) x = owed_int p x"
  "owed_int (p(KDepositBalance j \<mapsto> v)) x = owed_int p x"
  "owed_int (p(KReadingCounter j \<mapsto> v)) x = owed_int p x"
  by (simp_all add: owed_int_def)

lemma cost_nonneg:
  assumes "i128_checked_mul (i128_of_u64 u) r = Some c" and "0 \<le> sint r"
  shows "0 \<le> sint c"
proof -
  have "sint c = int (unat u) * sint r"
    by (simp only: i128_checked_mul_exact [OF assms(1)] sint_i128_of_u64)
  then show ?thesis using assms(2) by simp
qed

text \<open>What an operator can still withdraw never saturates.\<close>

lemma withdrawable_exact:
  assumes "0 \<le> sint (total_settled b)" and "sint (total_settled b) \<le> sint (total_earned b)"
  shows "sint (i128_saturating_sub (total_earned b) (total_settled b)) =
    sint (total_earned b) - sint (total_settled b)"
  using assms sint_i128_range [of "total_earned b"]
  by (intro i128_saturating_sub_exact) (simp add: in_i128_def)

interpretation accounts: ledger_invariant net accounts_ok for net :: "'t network"
proof unfold_locales
  fix s s' :: "'t cstate" and tx d pk opr rate v
  assume "accounts_ok s" "register_device tx d pk opr rate s = Inr (v, s')"
  then show "accounts_ok s'"
    by (auto simp: accounts_ok_def dest!: register_device_Inr split: if_splits)
next
  fix s s' :: "'t cstate" and tx d amt v
  assume ok: "accounts_ok s" and eff: "deposit_funds net tx d amt s = Inr (v, s')"
  from eff show "accounts_ok s'"
  proof (cases rule: deposit_funds_cases)
    case (accepted old new tok toks)
    have "sint old = dep_int (persistent s) d"
      unfolding accepted(4) dep_int_def by (simp split: option.splits)
    with ok have "0 \<le> sint old" by (simp add: accounts_ok_def)
    with accepted(2) have "0 \<le> sint new"
      using i128_checked_add_exact [OF accepted(5)] by simp
    with ok accepted(3,8) show ?thesis by (simp add: accounts_ok_def)
  qed
next
  fix s s' :: "'t cstate" and tx d units seq ts sig cost
  assume ok: "accounts_ok s" and eff: "submit_reading net tx d units seq ts sig s = Inr (cost, s')"
  from eff show "accounts_ok s'"
  proof (cases rule: submit_reading_cases)
    case (accepted reg tp bal left earned u)
    have "0 \<le> sint cost" using accepted(8,7) by (rule cost_nonneg)
    moreover have "0 \<le> sint left" using i128_checked_sub_exact [OF accepted(11)] accepted(10) by simp
    moreover have "sint (total_settled (p_operator (persistent s) (reg_operator reg))) \<le> sint earned"
    proof -
      have "0 \<le> owed_int (persistent s) (reg_operator reg)" using ok by (simp add: accounts_ok_def)
      with i128_checked_add_exact [OF accepted(12)] \<open>0 \<le> sint cost\<close> show ?thesis
        by (simp add: owed_int_def)
    qed
    ultimately show ?thesis
      using ok accepted(1,14) by (simp add: accounts_ok_def)
  qed
next
  fix s s' :: "'t cstate" and tx opr amt v
  assume ok: "accounts_ok s" and eff: "settle_balance net tx opr amt s = Inr (v, s')"
  from eff show "accounts_ok s'"
  proof (cases rule: settle_balance_cases)
    case (accepted bal settled tok toks)
    have b: "0 \<le> sint (total_settled bal)" "sint (total_settled bal) \<le> sint (total_earned bal)"
      using ok by (simp_all add: accounts_ok_def owed_int_def accepted(3))
    then have "sint amt \<le> sint (total_earned bal) - sint (total_settled bal)"
      using accepted(4) by (simp add: withdrawable_exact)
    with ok accepted(2,8) b i128_checked_add_exact [OF accepted(5)] show ?thesis
      by (simp add: accounts_ok_def)
  qed
qed (auto simp: accounts_ok_def same_data_def view_defs dep_int_def owed_int_def)

section \<open>Solvency\<close>

text \<open>
  SEP-41 as the contract relies on it: a successful transfer between different accounts moves
  exactly the amount.
\<close>

definition sep41 :: "'t network \<Rightarrow> bool" where
  "sep41 net \<longleftrightarrow> (\<forall>tok src dst amt t t'.
     token_transfer net tok src dst amt t = Some t' \<and> src \<noteq> dst \<longrightarrow>
       sint (token_balance net tok src t') = sint (token_balance net tok src t) - sint amt
     \<and> sint (token_balance net tok dst t') = sint (token_balance net tok dst t) + sint amt)"

text \<open>All device deposits, and all that operators earned and were not paid.\<close>

definition escrow_total :: "(StorageKey \<rightharpoonup> StorageValue) \<Rightarrow> int" where
  "escrow_total p = (\<Sum>d | KDepositBalance d \<in> dom p. dep_int p d)"

definition owed_total :: "(StorageKey \<rightharpoonup> StorageValue) \<Rightarrow> int" where
  "owed_total p = (\<Sum>opr | KOperatorBalance opr \<in> dom p. owed_int p opr)"

definition solvent :: "'t network \<Rightarrow> 't cstate \<Rightarrow> bool" where
  "solvent net s \<longleftrightarrow> storage_typed s \<and> accounts_ok s
     \<and> escrow_total (persistent s) + owed_total (persistent s) \<le> custody net s"

lemma finite_entries:
  assumes "finite (dom p)"
  shows "finite {d. KDepositBalance d \<in> dom p}" "finite {opr. KOperatorBalance opr \<in> dom p}"
proof -
  have "inj KDepositBalance" "inj KOperatorBalance" by (auto intro: injI)
  then show "finite {d. KDepositBalance d \<in> dom p}" "finite {opr. KOperatorBalance opr \<in> dom p}"
    using assms finite_vimageI [of "dom p"] by (auto simp: vimage_def)
qed

lemma dep_int_outside: "KDepositBalance d \<notin> dom p \<Longrightarrow> dep_int p d = 0"
  by (cases "p (KDepositBalance d)") (auto simp: dep_int_def p_deposit_def)

lemma owed_int_outside: "KOperatorBalance d \<notin> dom p \<Longrightarrow> owed_int p d = 0"
  by (cases "p (KOperatorBalance d)") (auto simp: owed_int_def p_operator_def)

lemma escrow_total_upd:
  assumes "finite (dom p)"
  shows "escrow_total (p(KDepositBalance d \<mapsto> VDeposit b)) = escrow_total p - dep_int p d + sint (amount b)"
proof -
  have eq: "{x. KDepositBalance x \<in> dom (p(KDepositBalance d \<mapsto> VDeposit b))} =
      insert d {x. KDepositBalance x \<in> dom p}"
    by auto
  have upd: "dep_int (p(KDepositBalance d \<mapsto> VDeposit b)) = (dep_int p)(d := sint (amount b))"
    by (rule ext) simp
  show ?thesis
    unfolding escrow_total_def eq upd
    by (rule sum_point_update [OF finite_entries(1) [OF assms]]) (simp add: dep_int_outside)
qed

lemma escrow_total_frame [simp]:
  "escrow_total (p(KDeviceRegistration j \<mapsto> v)) = escrow_total p"
  "escrow_total (p(KTariffRate j \<mapsto> v)) = escrow_total p"
  "escrow_total (p(KReadingCounter j \<mapsto> v)) = escrow_total p"
  "escrow_total (p(KOperatorBalance j \<mapsto> v)) = escrow_total p"
  by (simp_all add: escrow_total_def)

lemma owed_total_upd:
  assumes "finite (dom p)"
  shows "owed_total (p(KOperatorBalance x \<mapsto> VOperator b)) =
    owed_total p - owed_int p x + (sint (total_earned b) - sint (total_settled b))"
proof -
  have eq: "{y. KOperatorBalance y \<in> dom (p(KOperatorBalance x \<mapsto> VOperator b))} =
      insert x {y. KOperatorBalance y \<in> dom p}"
    by auto
  have upd: "owed_int (p(KOperatorBalance x \<mapsto> VOperator b)) =
      (owed_int p)(x := sint (total_earned b) - sint (total_settled b))"
    by (rule ext) simp
  show ?thesis
    unfolding owed_total_def eq upd
    by (rule sum_point_update [OF finite_entries(2) [OF assms]]) (simp add: owed_int_outside)
qed

lemma owed_total_frame [simp]:
  "owed_total (p(KDeviceRegistration j \<mapsto> v)) = owed_total p"
  "owed_total (p(KTariffRate j \<mapsto> v)) = owed_total p"
  "owed_total (p(KReadingCounter j \<mapsto> v)) = owed_total p"
  "owed_total (p(KDepositBalance j \<mapsto> v)) = owed_total p"
  by (simp_all add: owed_total_def)

lemma custody_same:
  "tokens s' = tokens s \<Longrightarrow> instance_storage s' = instance_storage s \<Longrightarrow> custody net s' = custody net s"
  using token_same [of s' s] by (simp add: custody_def split: option.split)

lemma custody_token: "token s = Some tok \<Longrightarrow>
    custody net s = sint (token_balance net tok (contract_address net) (tokens s))"
  by (simp add: custody_def)

lemma sep41_transfer:
  assumes "sep41 net" and "token_transfer net tok src dst amt t = Some t'" and "src \<noteq> dst"
  shows "sint (token_balance net tok src t') = sint (token_balance net tok src t) - sint amt"
    and "sint (token_balance net tok dst t') = sint (token_balance net tok dst t) + sint amt"
  using assms unfolding sep41_def by blast+

lemma dep_int_unregistered: "accounts_ok s \<Longrightarrow> p_registration (persistent s) d = None \<Longrightarrow> dep_int (persistent s) d = 0"
  unfolding accounts_ok_def by (metis dep_int_def option.case(1))

lemma solvent_finite: "solvent net s \<Longrightarrow> finite (dom (persistent s))"
  by (simp add: solvent_def storage_typed_def)

lemma solvent_ledger_invariant:
  fixes net :: "'t network"
  assumes sep: "sep41 net"
  shows "ledger_invariant net (solvent net)"
proof unfold_locales
  fix tok and toks :: 't
  assume "0 \<le> custody net (contract_constructor tok (empty_state toks))"
  then show "solvent net (contract_constructor tok (empty_state toks))"
    using typed.inv_deployed [of net tok toks] accounts.inv_deployed [of net tok toks]
    by (simp add: solvent_def escrow_total_def owed_total_def)
next
  fix s s' :: "'t cstate"
  assume "solvent net s" "same_data s s'"
  then show "solvent net s'"
    using typed.inv_same [of s s'] accounts.inv_same [of s s'] custody_same [of s' s net]
    by (simp add: solvent_def same_data_def)
next
  fix s :: "'t cstate" and toks
  assume "solvent net s" "custody net s \<le> custody net (s\<lparr>tokens := toks\<rparr>)"
  then show "solvent net (s\<lparr>tokens := toks\<rparr>)"
    using typed.inv_token [of s net toks] accounts.inv_token [of s net toks] by (simp add: solvent_def)
next
  fix s s' :: "'t cstate" and tx d pk opr rate v
  assume s: "solvent net s" and tx: "\<not> authorized tx (contract_address net)"
    and eff: "register_device tx d pk opr rate s = Inr (v, s')"
  have "storage_typed s'" "accounts_ok s'"
    using s typed.inv_register [OF _ tx eff] accounts.inv_register [OF _ tx eff]
    by (simp_all add: solvent_def)
  moreover have "custody net s' = custody net s"
    using register_device_Inr [OF eff] by (intro custody_same) simp_all
  moreover have "dep_int (persistent s) d = 0"
    using s register_device_Inr [OF eff] by (simp add: solvent_def dep_int_unregistered)
  ultimately show "solvent net s'"
    using s register_device_Inr [OF eff] solvent_finite [OF s]
    by (simp add: solvent_def escrow_total_upd)
next
  fix s s' :: "'t cstate" and tx d amt v
  assume s: "solvent net s" and tx: "\<not> authorized tx (contract_address net)"
    and eff: "deposit_funds net tx d amt s = Inr (v, s')"
  have ok: "storage_typed s'" "accounts_ok s'"
    using s typed.inv_deposit [OF _ tx eff] accounts.inv_deposit [OF _ tx eff]
    by (simp_all add: solvent_def)
  from eff show "solvent net s'"
  proof (cases rule: deposit_funds_cases)
    case (accepted old new tok toks)
    have "d \<noteq> contract_address net" using accepted(1) tx by auto
    then have "custody net s' = custody net s + sint amt"
      using sep41_transfer(2) [OF sep accepted(7)] accepted(6,10) token_same [OF accepted(9)]
      by (simp add: custody_token)
    moreover have "sint new = dep_int (persistent s) d + sint amt"
      using i128_checked_add_exact [OF accepted(5)] accepted(4) by (simp add: dep_int_def split: option.splits)
    ultimately show ?thesis
      using s ok accepted(8) solvent_finite [OF s] by (simp add: solvent_def escrow_total_upd)
  qed
next
  fix s s' :: "'t cstate" and tx d units seq ts sig cost
  assume s: "solvent net s" and tx: "\<not> authorized tx (contract_address net)"
    and eff: "submit_reading net tx d units seq ts sig s = Inr (cost, s')"
  have ok: "storage_typed s'" "accounts_ok s'"
    using s typed.inv_submit [OF _ tx eff] accounts.inv_submit [OF _ tx eff]
    by (simp_all add: solvent_def)
  from eff show "solvent net s'"
  proof (cases rule: submit_reading_cases)
    case (accepted reg tp bal left earned u)
    have "sint left = dep_int (persistent s) d - sint cost"
      using i128_checked_sub_exact [OF accepted(11)] accepted(9) by (simp add: dep_int_def)
    moreover have "sint earned = sint (total_earned (p_operator (persistent s) (reg_operator reg))) + sint cost"
      using i128_checked_add_exact [OF accepted(12)] .
    ultimately show ?thesis
      using s ok accepted(14) solvent_finite [OF s] custody_same [OF accepted(16,15), of net]
      by (simp add: solvent_def escrow_total_upd owed_total_upd owed_int_def)
  qed
next
  fix s s' :: "'t cstate" and tx opr amt v
  assume s: "solvent net s" and tx: "\<not> authorized tx (contract_address net)"
    and eff: "settle_balance net tx opr amt s = Inr (v, s')"
  have ok: "storage_typed s'" "accounts_ok s'"
    using s typed.inv_settle [OF _ tx eff] accounts.inv_settle [OF _ tx eff]
    by (simp_all add: solvent_def)
  from eff show "solvent net s'"
  proof (cases rule: settle_balance_cases)
    case (accepted bal settled tok toks)
    have "contract_address net \<noteq> opr" using accepted(1) tx by auto
    then have "custody net s' = custody net s - sint amt"
      using sep41_transfer(1) [OF sep accepted(7)] accepted(6,10) token_same [OF accepted(9)]
      by (simp add: custody_token)
    moreover have "sint settled = sint (total_settled bal) + sint amt"
      using i128_checked_add_exact [OF accepted(5)] .
    ultimately show ?thesis
      using s ok accepted(3,8) solvent_finite [OF s]
      by (simp add: solvent_def owed_total_upd owed_int_def)
  qed
qed

lemma reachable_solvent:
  assumes "sep41 net" and "reachable net s"
  shows "solvent net s"
  using ledger_invariant.inv_reachable [OF solvent_ledger_invariant [OF assms(1)] assms(2)] .

end
