(* ===== verification/Contract_History.thy ===== *)
theory Contract_History
  imports Contract_Ledger "HOL-Library.Sublist"
begin

text \<open>
  The event log as the record of the contract: what the indexer can reconstruct from the
  published events equals what the contract stores. Sequence numbers of a device's readings
  are 1, 2, 3, \<dots> without gaps, its unit counter is the sum of the billed units, its deposit
  is what it paid in less what it was billed, and an operator's ledger is the sum of its
  devices' bills and of its withdrawals. From this follows that a signed reading is billed at
  most once.
\<close>

section \<open>Reading the log\<close>

record meter =
  m_device :: address
  m_units :: u64
  m_cost :: i128
  m_balance :: i128
  m_seq :: u64
  m_ts :: u64

text \<open>
  The topics and data of a \<open>meter\<close> event: \<open>[Symbol("meter"), device_id]\<close> and
  \<open>(delta_units, total_cost, balance_after, seq, ledger_ts)\<close>.
\<close>

definition meter_event :: "meter \<Rightarrow> event" where
  "meter_event m = \<lparr>topics = [ScSymbol TOPIC_METER, ScAddress (m_device m)],
     event_data = ScVec [ScU64 (m_units m), ScI128 (m_cost m), ScI128 (m_balance m),
                         ScU64 (m_seq m), ScU64 (m_ts m)]\<rparr>"

definition meter_of_parts :: "scval list \<Rightarrow> scval \<Rightarrow> meter option" where
  "meter_of_parts tps v =
     (case (tps, v) of
        ([ScSymbol t, ScAddress d], ScVec [ScU64 u, ScI128 c, ScI128 b, ScU64 q, ScU64 ts]) \<Rightarrow>
          if t = TOPIC_METER
          then Some \<lparr>m_device = d, m_units = u, m_cost = c, m_balance = b, m_seq = q, m_ts = ts\<rparr>
          else None
      | _ \<Rightarrow> None)"

definition meter_of :: "event \<Rightarrow> meter option" where
  "meter_of e = meter_of_parts (topics e) (event_data e)"

definition deposit_of_topics :: "scval list \<Rightarrow> (address \<times> i128) option" where
  "deposit_of_topics tps =
     (case tps of [ScSymbol t, ScAddress d, ScI128 amt, ScI128 new] \<Rightarrow>
        if t = TOPIC_DEPOSIT then Some (d, amt) else None
      | _ \<Rightarrow> None)"

definition settlement_of_topics :: "scval list \<Rightarrow> (address \<times> i128) option" where
  "settlement_of_topics tps =
     (case tps of [ScSymbol t, ScAddress opr, ScI128 amt] \<Rightarrow>
        if t = TOPIC_SETTLEMENT then Some (opr, amt) else None
      | _ \<Rightarrow> None)"

lemmas log_decode = meter_of_parts_def deposit_of_topics_def settlement_of_topics_def

definition meters :: "event list \<Rightarrow> meter list" where
  "meters evs = List.map_filter meter_of evs"

definition meters_of :: "address \<Rightarrow> event list \<Rightarrow> meter list" where
  "meters_of d evs = filter (\<lambda>m. m_device m = d) (meters evs)"

definition deposited :: "address \<Rightarrow> event list \<Rightarrow> int" where
  "deposited d evs = (\<Sum>(x, amt)\<leftarrow>List.map_filter (deposit_of_topics \<circ> topics) evs. if x = d then sint amt else 0)"

definition withdrawn :: "address \<Rightarrow> event list \<Rightarrow> int" where
  "withdrawn opr evs = (\<Sum>(x, amt)\<leftarrow>List.map_filter (settlement_of_topics \<circ> topics) evs. if x = opr then sint amt else 0)"

definition billed :: "address \<Rightarrow> event list \<Rightarrow> int" where
  "billed d evs = (\<Sum>m\<leftarrow>meters_of d evs. sint (m_cost m))"

definition metered :: "address \<Rightarrow> event list \<Rightarrow> nat" where
  "metered d evs = (\<Sum>m\<leftarrow>meters_of d evs. unat (m_units m))"

text \<open>What an operator earned: the bills of the devices registered with it.\<close>

definition revenue :: "(StorageKey \<rightharpoonup> StorageValue) \<Rightarrow> address \<Rightarrow> event list \<Rightarrow> int" where
  "revenue p opr evs = (\<Sum>m\<leftarrow>meters evs.
     if map_option reg_operator (p_registration p (m_device m)) = Some opr then sint (m_cost m) else 0)"

lemma log_simps [simp]:
  "meters [] = []" "deposited d [] = 0" "withdrawn opr [] = 0"
  "meters (evs @ evs') = meters evs @ meters evs'"
  "deposited d (evs @ evs') = deposited d evs + deposited d evs'"
  "withdrawn opr (evs @ evs') = withdrawn opr evs + withdrawn opr evs'"
  by (simp_all add: meters_def deposited_def withdrawn_def map_filter_simps)

lemma meter_of_meter_event [simp]: "meter_of (meter_event m) = Some m"
  by (simp add: meter_of_def meter_event_def log_decode)

lemma single_meter [simp]:
  "meters [\<lparr>topics = [ScSymbol TOPIC_METER, ScAddress d],
     event_data = ScVec [ScU64 u, ScI128 c, ScI128 b, ScU64 q, ScU64 ts]\<rparr>] =
     [\<lparr>m_device = d, m_units = u, m_cost = c, m_balance = b, m_seq = q, m_ts = ts\<rparr>]"
  "deposited x [\<lparr>topics = [ScSymbol TOPIC_METER, ScAddress d], event_data = v\<rparr>] = 0"
  "withdrawn x [\<lparr>topics = [ScSymbol TOPIC_METER, ScAddress d], event_data = v\<rparr>] = 0"
  by (simp_all add: meters_def deposited_def withdrawn_def map_filter_simps meter_of_def log_decode)

lemma single_other [simp]:
  "meters [\<lparr>topics = [ScSymbol t, ScAddress d, v1], event_data = e\<rparr>] = []"
  "meters [\<lparr>topics = [ScSymbol t, ScAddress d, v1, v2], event_data = e\<rparr>] = []"
  "deposited x [\<lparr>topics = [ScSymbol t, ScAddress d, v1], event_data = e\<rparr>] = 0"
  "deposited x [\<lparr>topics = [ScSymbol TOPIC_DEVICE_REGISTERED, ScAddress d, v1, v2], event_data = e\<rparr>] = 0"
  "deposited x [\<lparr>topics = [ScSymbol TOPIC_DEPOSIT, ScAddress d, ScI128 amt, ScI128 n], event_data = e\<rparr>] =
     (if d = x then sint amt else 0)"
  "withdrawn x [\<lparr>topics = [ScSymbol t, ScAddress d, v1, v2], event_data = e\<rparr>] = 0"
  "withdrawn x [\<lparr>topics = [ScSymbol TOPIC_SETTLEMENT, ScAddress d, ScI128 amt], event_data = e\<rparr>] =
     (if d = x then sint amt else 0)"
  by (simp_all add: meters_def deposited_def withdrawn_def map_filter_simps meter_of_def log_decode
        TOPIC_DEVICE_REGISTERED_def TOPIC_DEPOSIT_def split: scval.split)

lemma meters_of_append [simp]: "meters_of d (evs @ evs') = meters_of d evs @ meters_of d evs'"
  by (simp add: meters_of_def)

lemma meters_of_Nil [simp]: "meters_of d [] = []"
  by (simp add: meters_of_def)

lemma meters_of_single [simp]:
  "meters_of x [\<lparr>topics = [ScSymbol TOPIC_METER, ScAddress d],
     event_data = ScVec [ScU64 u, ScI128 c, ScI128 b, ScU64 q, ScU64 ts]\<rparr>] =
     (if d = x then [\<lparr>m_device = d, m_units = u, m_cost = c, m_balance = b, m_seq = q, m_ts = ts\<rparr>] else [])"
  "meters_of x [\<lparr>topics = [ScSymbol t, ScAddress d, v1], event_data = e\<rparr>] = []"
  "meters_of x [\<lparr>topics = [ScSymbol t, ScAddress d, v1, v2], event_data = e\<rparr>] = []"
  by (simp_all add: meters_of_def)

section \<open>The log determines the state\<close>

definition device_history_ok :: "'t cstate \<Rightarrow> address \<Rightarrow> bool" where
  "device_history_ok s d \<longleftrightarrow>
     map (\<lambda>m. unat (m_seq m)) (meters_of d (published s)) = [1..<Suc (length (meters_of d (published s)))]
   \<and> unat (last_seq (rdg_of (persistent s) d)) = length (meters_of d (published s))
   \<and> unat (cumulative_units (rdg_of (persistent s) d)) = metered d (published s)
   \<and> dep_int (persistent s) d = deposited d (published s) - billed d (published s)
   \<and> (\<forall>tp. p_tariff (persistent s) d = Some tp \<longrightarrow>
        (\<forall>m\<in>set (meters_of d (published s)). sint (m_cost m) = int (unat (m_units m)) * sint (rate_per_unit tp)))
   \<and> (p_registration (persistent s) d = None \<longrightarrow> meters_of d (published s) = [])"

definition operator_history_ok :: "'t cstate \<Rightarrow> address \<Rightarrow> bool" where
  "operator_history_ok s opr \<longleftrightarrow>
     sint (total_earned (p_operator (persistent s) opr)) = revenue (persistent s) opr (published s)
   \<and> sint (total_settled (p_operator (persistent s) opr)) = withdrawn opr (published s)"

definition history_ok :: "'t cstate \<Rightarrow> bool" where
  "history_ok s \<longleftrightarrow> accounts_ok s \<and> (\<forall>d. device_history_ok s d) \<and> (\<forall>opr. operator_history_ok s opr)"

lemma rdg_of_upd [simp]:
  "rdg_of (p(KReadingCounter j \<mapsto> VReading r)) i = (if i = j then r else rdg_of p i)"
  "rdg_of (p(KDeviceRegistration j \<mapsto> v)) i = rdg_of p i"
  "rdg_of (p(KTariffRate j \<mapsto> v)) i = rdg_of p i"
  "rdg_of (p(KDepositBalance j \<mapsto> v)) i = rdg_of p i"
  "rdg_of (p(KOperatorBalance j \<mapsto> v)) i = rdg_of p i"
  by (simp_all add: rdg_of_def)

lemma revenue_append: "revenue p opr (evs @ evs') = revenue p opr evs + revenue p opr evs'"
  by (simp add: revenue_def)

lemma revenue_frame [simp]:
  "revenue (p(KTariffRate j \<mapsto> v)) opr evs = revenue p opr evs"
  "revenue (p(KDepositBalance j \<mapsto> v)) opr evs = revenue p opr evs"
  "revenue (p(KReadingCounter j \<mapsto> v)) opr evs = revenue p opr evs"
  "revenue (p(KOperatorBalance j \<mapsto> v)) opr evs = revenue p opr evs"
  by (simp_all add: revenue_def)

text \<open>Registering a device with no readings changes nobody's revenue.\<close>

lemma revenue_register:
  assumes "meters_of d evs = []"
  shows "revenue (p(KDeviceRegistration d \<mapsto> VRegistration r)) opr evs = revenue p opr evs"
proof -
  have "m_device m \<noteq> d" if "m \<in> set (meters evs)" for m
    using assms that by (auto simp: meters_of_def filter_empty_conv)
  then show ?thesis
    unfolding revenue_def by (intro arg_cong [where f = sum_list] map_cong refl) auto
qed

lemma billed_append: "billed d (evs @ evs') = billed d evs + billed d evs'"
  by (simp add: billed_def)

lemma metered_append: "metered d (evs @ evs') = metered d evs + metered d evs'"
  by (simp add: metered_def)

lemma billed_single [simp]:
  "billed x [\<lparr>topics = [ScSymbol TOPIC_METER, ScAddress d],
     event_data = ScVec [ScU64 u, ScI128 c, ScI128 b, ScU64 q, ScU64 ts]\<rparr>] = (if d = x then sint c else 0)"
  "billed x [\<lparr>topics = [ScSymbol t, ScAddress d, v1], event_data = e\<rparr>] = 0"
  "billed x [\<lparr>topics = [ScSymbol t, ScAddress d, v1, v2], event_data = e\<rparr>] = 0"
  by (simp_all add: billed_def)

lemma metered_single [simp]:
  "metered x [\<lparr>topics = [ScSymbol TOPIC_METER, ScAddress d],
     event_data = ScVec [ScU64 u, ScI128 c, ScI128 b, ScU64 q, ScU64 ts]\<rparr>] = (if d = x then unat u else 0)"
  "metered x [\<lparr>topics = [ScSymbol t, ScAddress d, v1], event_data = e\<rparr>] = 0"
  "metered x [\<lparr>topics = [ScSymbol t, ScAddress d, v1, v2], event_data = e\<rparr>] = 0"
  by (simp_all add: metered_def)

lemma revenue_single [simp]:
  "revenue p x [\<lparr>topics = [ScSymbol TOPIC_METER, ScAddress d],
     event_data = ScVec [ScU64 u, ScI128 c, ScI128 b, ScU64 q, ScU64 ts]\<rparr>] =
     (if map_option reg_operator (p_registration p d) = Some x then sint c else 0)"
  "revenue p x [\<lparr>topics = [ScSymbol t, ScAddress d, v1], event_data = e\<rparr>] = 0"
  "revenue p x [\<lparr>topics = [ScSymbol t, ScAddress d, v1, v2], event_data = e\<rparr>] = 0"
  by (auto simp add: revenue_def)

lemmas log_appends = billed_append metered_append revenue_append

lemma register_history:
  assumes ok: "history_ok s" and eff: "register_device tx d pk opr rate s = Inr (v, s')"
  shows "device_history_ok s' x" "operator_history_ok s' y"
proof -
  note e = register_device_Inr [OF eff]
  have none: "p_registration (persistent s) d = None" using e by simp
  have dx: "device_history_ok s x" and dd: "device_history_ok s d" and oy: "operator_history_ok s y"
    and acc: "accounts_ok s"
    using ok by (simp_all add: history_ok_def)
  have empty: "meters_of d (published s) = []"
    using dd none by (simp add: device_history_ok_def)
  have zero: "dep_int (persistent s) d = 0" using acc none by (rule dep_int_unregistered)
  show "device_history_ok s' x"
    using dx dd e empty zero
    by (cases "x = d") (simp_all add: device_history_ok_def log_appends)
  show "operator_history_ok s' y"
    using oy e empty by (simp add: operator_history_ok_def revenue_append revenue_register)
qed

lemma deposit_history:
  assumes ok: "history_ok s" and eff: "deposit_funds net tx d amt s = Inr (v, s')"
  shows "device_history_ok s' x" "operator_history_ok s' y"
proof -
  have dx: "device_history_ok s x" and oy: "operator_history_ok s y"
    using ok by (simp_all add: history_ok_def)
  from eff have "device_history_ok s' x \<and> operator_history_ok s' y"
  proof (cases rule: deposit_funds_cases)
    case (accepted old new tok toks)
    have "sint new = dep_int (persistent s) d + sint amt"
      using i128_checked_add_exact [OF accepted(5)] accepted(4) by (simp add: dep_int_def split: option.splits)
    then show ?thesis
      using dx oy accepted(8,11)
      by (auto simp add: device_history_ok_def operator_history_ok_def log_appends)
  qed
  then show "device_history_ok s' x" "operator_history_ok s' y" by simp_all
qed

lemma settle_history:
  assumes ok: "history_ok s" and eff: "settle_balance net tx opr amt s = Inr (v, s')"
  shows "device_history_ok s' x" "operator_history_ok s' y"
proof -
  have dx: "device_history_ok s x" and oy: "operator_history_ok s y"
    using ok by (simp_all add: history_ok_def)
  from eff have "device_history_ok s' x \<and> operator_history_ok s' y"
  proof (cases rule: settle_balance_cases)
    case (accepted bal settled tok toks)
    then show ?thesis
      using dx oy i128_checked_add_exact [OF accepted(5)]
      by (simp add: device_history_ok_def operator_history_ok_def log_appends)
  qed
  then show "device_history_ok s' x" "operator_history_ok s' y" by simp_all
qed

lemma submit_history:
  assumes ok: "history_ok s" and eff: "submit_reading net tx d units seq ts sig s = Inr (cost, s')"
  shows "device_history_ok s' x" "operator_history_ok s' y"
proof -
  have dx: "device_history_ok s x" and oy: "operator_history_ok s y"
    using ok by (simp_all add: history_ok_def)
  from eff have "device_history_ok s' x \<and> operator_history_ok s' y"
  proof (cases rule: submit_reading_cases)
    case (accepted reg tp bal left earned u)
    have seq: "unat seq = Suc (unat (last_seq (rdg_of (persistent s) d)))"
      using u64_checked_add_exact [OF accepted(4)] by simp
    have u: "unat u = unat (cumulative_units (rdg_of (persistent s) d)) + unat units"
      using u64_checked_add_exact [OF accepted(13)] .
    have left: "sint left = dep_int (persistent s) d - sint cost"
      using i128_checked_sub_exact [OF accepted(11)] accepted(9) by (simp add: dep_int_def)
    have cost: "sint cost = int (unat units) * sint (rate_per_unit tp)"
      by (simp only: i128_checked_mul_exact [OF accepted(8)] sint_i128_of_u64)
    have "device_history_ok s' x"
      using dx accepted(1,6,14,17) seq u left cost
      by (cases "x = d") (auto simp add: device_history_ok_def log_appends)
    moreover have "operator_history_ok s' y"
      using oy accepted(1,14,17) i128_checked_add_exact [OF accepted(12)]
      by (simp add: operator_history_ok_def log_appends)
    ultimately show ?thesis ..
  qed
  then show "device_history_ok s' x" "operator_history_ok s' y" by simp_all
qed

interpretation history: ledger_invariant net history_ok for net :: "'t network"
proof unfold_locales
  fix tok and toks :: 't
  assume "0 \<le> custody net (contract_constructor tok (empty_state toks))"
  then show "history_ok (contract_constructor tok (empty_state toks))"
    using accounts.inv_deployed [of net tok toks]
    by (simp add: history_ok_def device_history_ok_def operator_history_ok_def billed_def metered_def
          revenue_def rdg_of_def dep_int_def view_defs)
next
  fix s s' :: "'t cstate"
  assume "history_ok s" "same_data s s'"
  then show "history_ok s'"
    using accounts.inv_same [of s s']
    by (simp add: history_ok_def device_history_ok_def operator_history_ok_def same_data_def)
next
  fix s :: "'t cstate" and toks
  assume "history_ok s" "custody net s \<le> custody net (s\<lparr>tokens := toks\<rparr>)"
  then show "history_ok (s\<lparr>tokens := toks\<rparr>)"
    using accounts.inv_token [of s net toks]
    by (simp add: history_ok_def device_history_ok_def operator_history_ok_def)
next
  fix s s' :: "'t cstate" and tx d pk opr rate v
  assume a: "history_ok s" "\<not> authorized tx (contract_address net)"
    "register_device tx d pk opr rate s = Inr (v, s')"
  then show "history_ok s'"
    using register_history [OF a(1,3)] accounts.inv_register [OF _ a(2,3)] by (simp add: history_ok_def)
next
  fix s s' :: "'t cstate" and tx d amt v
  assume a: "history_ok s" "\<not> authorized tx (contract_address net)"
    "deposit_funds net tx d amt s = Inr (v, s')"
  then show "history_ok s'"
    using deposit_history [OF a(1,3)] accounts.inv_deposit [OF _ a(2,3)] by (simp add: history_ok_def)
next
  fix s s' :: "'t cstate" and tx d units seq ts sig cost
  assume a: "history_ok s" "\<not> authorized tx (contract_address net)"
    "submit_reading net tx d units seq ts sig s = Inr (cost, s')"
  then show "history_ok s'"
    using submit_history [OF a(1,3)] accounts.inv_submit [OF _ a(2,3)] by (simp add: history_ok_def)
next
  fix s s' :: "'t cstate" and tx opr amt v
  assume a: "history_ok s" "\<not> authorized tx (contract_address net)"
    "settle_balance net tx opr amt s = Inr (v, s')"
  then show "history_ok s'"
    using settle_history [OF a(1,3)] accounts.inv_settle [OF _ a(2,3)] by (simp add: history_ok_def)
qed

section \<open>What never changes, and what only grows\<close>

text \<open>
  From one state to a later one, a registration and a tariff stay as they were written, the
  sequence counter of a device does not go back, and the log is only extended.
\<close>

definition evolves :: "'t cstate \<Rightarrow> 't cstate \<Rightarrow> bool" where
  "evolves s s' \<longleftrightarrow>
     (\<forall>d reg. p_registration (persistent s) d = Some reg \<longrightarrow> p_registration (persistent s') d = Some reg)
   \<and> (\<forall>d tp. p_tariff (persistent s) d = Some tp \<longrightarrow> p_tariff (persistent s') d = Some tp)
   \<and> (\<forall>d. unat (last_seq (rdg_of (persistent s) d)) \<le> unat (last_seq (rdg_of (persistent s') d)))
   \<and> prefix (published s) (published s')"

lemma evolves_refl [simp, intro]: "evolves s s"
  by (simp add: evolves_def)

lemma evolves_trans: "evolves s s' \<Longrightarrow> evolves s' s'' \<Longrightarrow> evolves s s''"
  unfolding evolves_def by (auto intro: le_trans prefix_order.trans)

lemma same_data_evolves: "same_data s s' \<Longrightarrow> evolves s s'"
  by (simp add: same_data_def evolves_def)

lemma register_evolves:
  assumes "accounts_ok s" and "register_device tx d pk opr rate s = Inr (v, s')"
  shows "evolves s s'"
proof -
  have "p_registration (persistent s) d = None" "p_tariff (persistent s) d = None"
    using assms(1) register_device_Inr [OF assms(2)] by (simp_all add: accounts_ok_def)
  then show ?thesis
    using register_device_Inr [OF assms(2)] by (auto simp: evolves_def)
qed

lemma deposit_evolves: "deposit_funds net tx d amt s = Inr (v, s') \<Longrightarrow> evolves s s'"
  by (erule deposit_funds_cases) (simp add: evolves_def)

lemma settle_evolves: "settle_balance net tx opr amt s = Inr (v, s') \<Longrightarrow> evolves s s'"
  by (erule settle_balance_cases) (simp add: evolves_def)

lemma submit_evolves: "submit_reading net tx d units seq ts sig s = Inr (cost, s') \<Longrightarrow> evolves s s'"
  by (erule submit_reading_cases) (auto simp: evolves_def dest: u64_checked_add_exact)

lemma exec_evolves:
  assumes "accounts_ok s"
  shows "evolves s (exec net tx c s)"
proof (cases c)
  case (Register_Device d pk opr rate)
  then show ?thesis using register_evolves [OF assms] by (simp add: commit_cases)
next
  case (Deposit_Funds d amt)
  then show ?thesis by (auto intro: commit_cases deposit_evolves)
next
  case (Submit_Reading d units seq ts sig)
  then show ?thesis by (auto intro: commit_cases submit_evolves)
next
  case (Settle_Balance opr amt)
  then show ?thesis by (auto intro: commit_cases settle_evolves)
qed (simp_all add: same_data_evolves reads_same_data)

lemma ledger_step_evolves:
  assumes "ledger_step net s s'" and "accounts_ok s"
  shows "evolves s s'"
  using assms(1)
proof (rule ledger_stepE)
  fix tx c
  assume "s' = exec net tx c s"
  with assms(2) show ?thesis by (simp add: exec_evolves)
next
  fix toks
  assume "s' = s\<lparr>tokens := toks\<rparr>"
  then show ?thesis by (simp add: evolves_def)
qed

abbreviation ledger_steps :: "'t network \<Rightarrow> 't cstate \<Rightarrow> 't cstate \<Rightarrow> bool" where
  "ledger_steps net \<equiv> (ledger_step net)\<^sup>*\<^sup>*"

lemma ledger_steps_evolve:
  assumes "ledger_steps net s s'" and "reachable net s"
  shows "reachable net s' \<and> evolves s s'"
  using assms
proof (induction rule: rtranclp_induct)
  case base
  then show ?case by simp
next
  case (step s1 s2)
  have s1: "reachable net s1" "evolves s s1" using step.IH step.prems by simp_all
  have "evolves s1 s2" using step.hyps(2) accounts.inv_reachable [OF s1(1)] by (rule ledger_step_evolves)
  then show ?case using s1 step.hyps(2) by (blast intro: reachable.step evolves_trans)
qed

text \<open>A reading is accepted only under the sequence number after the last one.\<close>

lemma submit_needs_next_seq:
  assumes "unat seq \<le> unat (last_seq (rdg_of (persistent s) d))"
  shows "submit_reading net tx d units seq ts sig s \<noteq> Inr r"
proof
  assume "submit_reading net tx d units seq ts sig s = Inr r"
  then obtain cost s' where "submit_reading net tx d units seq ts sig s = Inr (cost, s')"
    by (cases r) simp
  then show False
    using assms by (cases rule: submit_reading_cases) (auto dest: u64_checked_add_exact)
qed

lemma submit_sets_seq:
  assumes "submit_reading net tx d units seq ts sig s = Inr (cost, s')"
  shows "last_seq (rdg_of (persistent s') d) = seq"
  using assms by (cases rule: submit_reading_cases) simp

end
