(* ===== verification/Decode.thy ===== *)
theory Decode
  imports Js_Value Contract_History
begin

text \<open>
  \<open>backend/src/indexer/decode.js\<close>: reading the topics and the data of an event, in the two shapes
  the code accepts, a host object of the Stellar SDK (\<open>xdr.ScVal\<close>, an \<open>Ext\<close> value) and a plain
  object \<open>{type, value}\<close>. The SDK's operations on a host object are parameters.
\<close>

section \<open>The SDK\<close>

record 'x sdk =
  scval_to_native :: "'x \<Rightarrow> exn + 'x jsval"
  scval_switch_name :: "'x \<Rightarrow> string"
  scval_vec :: "'x \<Rightarrow> 'x list option"
  host_string :: "'x \<Rightarrow> exn + string"

section \<open>Decoding\<close>

text \<open>Parsed data holds no functions, so only a host object has a \<open>switch\<close> method.\<close>

definition isXdrScval :: "'x jsval \<Rightarrow> bool" where
  "isXdrScval val \<longleftrightarrow> truthy val \<and> (case val of Ext x \<Rightarrow> True | _ \<Rightarrow> False)"

definition scvalToString :: "'x sdk \<Rightarrow> 'x jsval \<Rightarrow> 'x jsval" where
  "scvalToString sdk val =
     (if \<not> truthy val then Null
      else case val of
          Ext x \<Rightarrow> (case bindE (scval_to_native sdk x) (js_to_string (host_string sdk)) of
              Inl _ \<Rightarrow> Null | Inr s \<Rightarrow> Str s)
        | _ \<Rightarrow>
          if get_prop val ''type'' = Str ''address'' \<or> get_prop val ''type'' = Str ''scv_string''
             \<or> get_prop val ''type'' = Str ''symbol''
          then nullish (get_prop val ''value'') Null
          else (case get_prop val ''value'' of
              Str s \<Rightarrow> Str s
            | Num n \<Rightarrow> Str (number_to_string n)
            | _ \<Rightarrow> Null))"

text \<open>The pattern \<open>/^-?\d+$/\<close>.\<close>

definition is_decimal :: "string \<Rightarrow> bool" where
  "is_decimal s = (let r = (case s of c # t \<Rightarrow> if c = CHR ''-'' then t else s | [] \<Rightarrow> [])
     in r \<noteq> [] \<and> list_all is_digit r)"

definition int_types :: "string list" where
  "int_types = [''i64'', ''u64'', ''i128'', ''u128'', ''i256'', ''u256'']"

definition scvalToBigInt :: "'x sdk \<Rightarrow> 'x jsval \<Rightarrow> exn + int" where
  "scvalToBigInt sdk val =
     (if \<not> truthy val then Inr 0
      else case val of
          Ext x \<Rightarrow> (case bindE (scval_to_native sdk x) (\<lambda>n. js_to_bigint (host_string sdk) (nullish n (Num (Fin 0)))) of
              Inl _ \<Rightarrow> Inr 0 | Inr n \<Rightarrow> Inr n)
        | _ \<Rightarrow> (case get_prop val ''value'' of
              Str s \<Rightarrow>
                if (\<exists>t\<in>set int_types. get_prop val ''type'' = Str t) then bigint_from_string s
                else if is_decimal s then bigint_from_string s else Inr 0
            | Num n \<Rightarrow> bigint_from_number n
            | BigInt n \<Rightarrow> Inr n
            | _ \<Rightarrow> Inr 0))"

definition unwrapVec :: "'x sdk \<Rightarrow> 'x jsval \<Rightarrow> 'x jsval list option" where
  "unwrapVec sdk val =
     (if \<not> truthy val then None
      else case val of
          Ext x \<Rightarrow>
            if scval_switch_name sdk x = ''scvVec''
            then Some (case scval_vec sdk x of None \<Rightarrow> [] | Some xs \<Rightarrow> map Ext xs)
            else None
        | _ \<Rightarrow>
          if get_prop val ''type'' = Str ''vec'' \<and> (case get_prop val ''value'' of Arr _ \<Rightarrow> True | _ \<Rightarrow> False)
          then (case get_prop val ''value'' of Arr vs \<Rightarrow> Some vs | _ \<Rightarrow> None)
          else (case get_prop val ''value'' of Arr vs \<Rightarrow> Some vs | _ \<Rightarrow> None))"

section \<open>What the SDK promises of contract values\<close>

text \<open>
  \<open>enc\<close> is the host object of a contract value. \<open>scValToNative\<close> returns a string for a symbol
  and an address, and a BigInt for the 64- and 128-bit integers; a vector has the switch
  \<open>scvVec\<close> and returns its elements.
\<close>

locale contract_values =
  fixes sdk :: "'x sdk" and enc :: "scval \<Rightarrow> 'x"
  assumes native_symbol: "scval_to_native sdk (enc (ScSymbol s)) = Inr (Str s)"
    and native_address: "scval_to_native sdk (enc (ScAddress a)) = Inr (Str a)"
    and native_u64: "scval_to_native sdk (enc (ScU64 w)) = Inr (BigInt (uint w))"
    and native_i128: "scval_to_native sdk (enc (ScI128 z)) = Inr (BigInt (sint z))"
    and switch_vec: "scval_switch_name sdk (enc (ScVec vs)) = ''scvVec''"
    and vec_elems: "scval_vec sdk (enc (ScVec vs)) = Some (map enc vs)"
begin

lemma decode_symbol: "scvalToString sdk (Ext (enc (ScSymbol s))) = Str s"
  by (simp add: scvalToString_def native_symbol)

lemma decode_address: "scvalToString sdk (Ext (enc (ScAddress a))) = Str a"
  by (simp add: scvalToString_def native_address)

lemma decode_u64: "scvalToBigInt sdk (Ext (enc (ScU64 w))) = Inr (uint w)"
  by (simp add: scvalToBigInt_def native_u64)

lemma decode_i128: "scvalToBigInt sdk (Ext (enc (ScI128 z))) = Inr (sint z)"
  by (simp add: scvalToBigInt_def native_i128)

lemma decode_vec: "unwrapVec sdk (Ext (enc (ScVec vs))) = Some (map (\<lambda>v. Ext (enc v)) vs)"
  by (simp add: unwrapVec_def switch_vec vec_elems comp_def)

end

text \<open>The host objects taken to be the contract's own values.\<close>

fun scval_native :: "scval \<Rightarrow> exn + scval jsval" where
  "scval_native (ScSymbol s) = Inr (Str s)"
| "scval_native (ScAddress a) = Inr (Str a)"
| "scval_native (ScU64 w) = Inr (BigInt (uint w))"
| "scval_native (ScI128 z) = Inr (BigInt (sint z))"
| "scval_native (ScVec vs) = bindE (mapE scval_native vs) (\<lambda>ns. Inr (Arr ns))"
| "scval_native ScVoid = Inr Null"

definition contract_sdk :: "scval sdk" where
  "contract_sdk = \<lparr>scval_to_native = scval_native,
     scval_switch_name = (\<lambda>v. case v of ScSymbol _ \<Rightarrow> ''scvSymbol'' | ScAddress _ \<Rightarrow> ''scvAddress''
        | ScU64 _ \<Rightarrow> ''scvU64'' | ScI128 _ \<Rightarrow> ''scvI128'' | ScVec _ \<Rightarrow> ''scvVec'' | ScVoid \<Rightarrow> ''scvVoid''),
     scval_vec = (\<lambda>v. case v of ScVec vs \<Rightarrow> Some vs | _ \<Rightarrow> None),
     host_string = (\<lambda>_. Inr ''[object Object]'')\<rparr>"

interpretation contract_sdk: contract_values contract_sdk "\<lambda>v. v"
  by unfold_locales (simp_all add: contract_sdk_def)

section \<open>Both shapes decode alike\<close>

text \<open>The plain form of a contract value, as the JSON event format spells it.\<close>

fun plain :: "scval \<Rightarrow> 'x jsval" where
  "plain (ScSymbol s) = Obj [(''type'', Str ''symbol''), (''value'', Str s)]"
| "plain (ScAddress a) = Obj [(''type'', Str ''address''), (''value'', Str a)]"
| "plain (ScU64 w) = Obj [(''type'', Str ''u64''), (''value'', Str (dec_int (uint w)))]"
| "plain (ScI128 z) = Obj [(''type'', Str ''i128''), (''value'', Str (dec_int (sint z)))]"
| "plain (ScVec vs) = Obj [(''type'', Str ''vec''), (''value'', Arr (map plain vs))]"
| "plain ScVoid = Obj [(''type'', Str ''void'')]"

lemma plain_decode:
  "scvalToString sdk (plain (ScSymbol s)) = Str s"
  "scvalToString sdk (plain (ScAddress a)) = Str a"
  "scvalToBigInt sdk (plain (ScU64 w)) = Inr (uint w)"
  "scvalToBigInt sdk (plain (ScI128 z)) = Inr (sint z)"
  "unwrapVec sdk (plain (ScVec vs)) = Some (map plain vs)"
  by (simp_all add: scvalToString_def scvalToBigInt_def unwrapVec_def int_types_def)

lemma plain_truthy [simp]: "truthy (plain v)"
  by (cases v) simp_all

text \<open>\<open>scvalToBigInt\<close> throws only on a plain value whose content is not an integer.\<close>

lemma scvalToBigInt_throws:
  "scvalToBigInt sdk val = Inl e \<Longrightarrow>
     (\<exists>s. get_prop val ''value'' = Str s \<and> bigint_of_string s = None)
   \<or> (\<exists>n. get_prop val ''value'' = Num n \<and> bigint_from_number n = Inl e)"
  by (auto simp: scvalToBigInt_def bigint_from_string_def split: if_splits jsval.splits sum.splits option.splits)

end
