(* ===== verification/Indexer.thy ===== *)
theory Indexer
  imports Decode Store
begin

text \<open>
  \<open>backend/src/indexer/indexer.js\<close>: the poller that copies the contract's \<open>meter\<close> events into
  the cache. The RPC server, the clock and the serialiser of a host event are parameters; so is
  the callback \<open>onEvent\<close>, an operation on the rest of the process (\<open>'w\<close>). The number of calls
  made so far selects the server's next answer, since the chain moves on between calls.
\<close>

section \<open>The RPC interface\<close>

record 'x rpc_event =
  ev_id :: "'x jsval"
  ev_ledger :: "'x jsval"
  ev_topic :: "'x jsval"
  ev_value :: "'x jsval"

record 'x rpc_params =
  rq_contract_ids :: "string list"
  rq_limit :: nat
  rq_cursor :: "'x jsval option"
  rq_start_ledger :: "js_number option"

record 'x rpc_response =
  rs_events :: "'x rpc_event list"
  rs_cursor :: "'x jsval"
  rs_latest_ledger :: js_number

section \<open>State\<close>

record 'w indexer =
  cache :: db
  world :: 'w
  rpc_calls :: nat
  ticks :: nat
  timer :: "nat option"
  intervals :: "nat list"
  next_timer :: nat
  running :: bool
  console :: "string list"

record ('x, 'w) indexer_env =
  env_sdk :: "'x sdk"
  env_driver :: "'x driver"
  env_contract_id :: string
  env_poll_interval :: js_number
  env_get_events :: "nat \<Rightarrow> 'x rpc_params \<Rightarrow> exn + 'x rpc_response"
  env_now :: "nat \<Rightarrow> string"
  env_stringify :: "'x rpc_event \<Rightarrow> exn + string"
  env_on_event :: "'x event_row \<Rightarrow> ('w, unit) js"

type_synonym ('w, 'a) idx_op = "('w indexer, 'a) js"

definition on_cache :: "'a db_op \<Rightarrow> ('w, 'a) idx_op" where
  "on_cache m s = (case m (cache s) of (r, c) \<Rightarrow> (r, s\<lparr>cache := c\<rparr>))"

definition on_world :: "('w, 'a) js \<Rightarrow> ('w, 'a) idx_op" where
  "on_world m s = (case m (world s) of (r, w) \<Rightarrow> (r, s\<lparr>world := w\<rparr>))"

definition getEvents :: "('x, 'w) indexer_env \<Rightarrow> 'x rpc_params \<Rightarrow> ('w, 'x rpc_response) idx_op" where
  "getEvents env params s = (env_get_events env (rpc_calls s) params, s\<lparr>rpc_calls := Suc (rpc_calls s)\<rparr>)"

definition now_iso :: "('x, 'w) indexer_env \<Rightarrow> ('w, string) idx_op" where
  "now_iso env s = (Inr (env_now env (ticks s)), s\<lparr>ticks := Suc (ticks s)\<rparr>)"

definition console_line :: "string \<Rightarrow> 'w indexer \<Rightarrow> 'w indexer" where
  "console_line t s = s\<lparr>console := console s @ [t]\<rparr>"

section \<open>Handling an event\<close>

definition METER_TOPIC :: string where "METER_TOPIC = ''meter''"
definition PAGE_LIMIT :: nat where "PAGE_LIMIT = 200"

text \<open>An array element, \<open>undefined\<close> past the end.\<close>

definition elem :: "'x jsval list \<Rightarrow> nat \<Rightarrow> 'x jsval" where
  "elem vs i = (if i < length vs then vs ! i else Undef)"

definition topic_list :: "'x jsval \<Rightarrow> exn + 'x jsval list" where
  "topic_list v = (case v of Undef \<Rightarrow> Inr [] | Null \<Rightarrow> Inr [] | Arr vs \<Rightarrow> Inr vs
     | _ \<Rightarrow> Inl (type_error ''(event.topic ?? []).map is not a function''))"

text \<open>\<open>v ? scvalToBigInt(v) : d\<close>.\<close>

definition bigint_or :: "'x sdk \<Rightarrow> 'x jsval \<Rightarrow> 'x jsval \<Rightarrow> exn + 'x jsval" where
  "bigint_or sdk v d = (if truthy v then bindE (scvalToBigInt sdk v) (\<lambda>n. Inr (BigInt n)) else Inr d)"

definition number_or_null :: "'x sdk \<Rightarrow> 'x jsval \<Rightarrow> exn + 'x jsval" where
  "number_or_null sdk v =
     (if truthy v then bindE (scvalToBigInt sdk v) (\<lambda>n. Inr (Num (number_of_int n))) else Inr Null)"

definition handleEvent :: "('x, 'w) indexer_env \<Rightarrow> 'x rpc_event \<Rightarrow> ('w, unit) idx_op" where
  "handleEvent env event =
     (let sdk = env_sdk env; str = js_to_string (host_string sdk) in
      js_bind (js_lift (topic_list (ev_topic event))) (\<lambda>raw_topics.
      let topics = map (scvalToString sdk) raw_topics in
      if elem topics 0 \<noteq> Str METER_TOPIC then js_return ()
      else
       let deviceId = nullish (elem topics 1) Null;
           data = (case unwrapVec sdk (ev_value event) of None \<Rightarrow> [] | Some vs \<Rightarrow> vs) in
       js_bind (js_lift (str (ev_id event))) (\<lambda>event_id.
       js_bind (js_lift (js_to_number (host_string sdk) (ev_ledger event))) (\<lambda>ledger.
       js_bind (js_lift (if truthy deviceId then bindE (str deviceId) (\<lambda>t. Inr (Str t)) else Inr Null)) (\<lambda>device_id.
       js_bind (js_lift (bigint_or sdk (elem data 0) (BigInt 0))) (\<lambda>units.
       js_bind (js_lift (bigint_or sdk (elem data 1) (BigInt 0))) (\<lambda>cost.
       js_bind (js_lift (bigint_or sdk (elem data 2) Null)) (\<lambda>balance_after.
       js_bind (js_lift (number_or_null sdk (elem data 3))) (\<lambda>seq.
       js_bind (js_lift (number_or_null sdk (elem data 4))) (\<lambda>ledger_ts.
       js_bind (now_iso env) (\<lambda>emitted_at.
       js_bind (js_lift (env_stringify env event)) (\<lambda>raw.
       let row = \<lparr>er_event_id = Str event_id, er_contract_id = Str (env_contract_id env),
              er_ledger = Num ledger, er_device_id = device_id, er_operator = Null, er_units = units,
              er_rate_per_unit = BigInt 0, er_cost = cost, er_balance_after = balance_after,
              er_seq = seq, er_ledger_ts = ledger_ts, er_emitted_at = Str emitted_at, er_raw = Str raw\<rparr> in
       js_bind (on_cache (ingest (env_driver env) row)) (\<lambda>_.
       on_world (env_on_event env row))))))))))))))"

section \<open>Polling\<close>

text \<open>The events of one page, with the highest ledger seen.\<close>

fun handle_page :: "('x, 'w) indexer_env \<Rightarrow> 'x rpc_event list \<Rightarrow> js_number \<Rightarrow> ('w, js_number) idx_op" where
  "handle_page env [] highest = js_return highest"
| "handle_page env (event # events) highest =
     js_bind (handleEvent env event) (\<lambda>_.
     js_bind (js_lift (js_to_number (host_string (env_sdk env)) (ev_ledger event))) (\<lambda>ledger.
     handle_page env events (if js_less highest ledger then ledger else highest)))"

definition page_params :: "('x, 'w) indexer_env \<Rightarrow> 'x jsval \<Rightarrow> js_number \<Rightarrow> 'x rpc_params" where
  "page_params env cursor start = \<lparr>rq_contract_ids = [env_contract_id env], rq_limit = PAGE_LIMIT,
     rq_cursor = (if truthy cursor then Some cursor else None),
     rq_start_ledger = (if truthy cursor then None else Some start)\<rparr>"

definition advance_watermark :: "('x, 'w) indexer_env \<Rightarrow> js_number \<Rightarrow> js_number \<Rightarrow> ('w, unit) idx_op" where
  "advance_watermark env highest latest =
     js_bind (on_cache getLastLedger) (\<lambda>lastLedger.
     let newWatermark = (if js_less lastLedger highest then highest else latest) in
     if js_less lastLedger newWatermark
     then on_cache (setLastLedger (env_driver env) newWatermark)
     else js_return ())"

text \<open>
  The loop over the pages. It need not end (a server may return full pages for ever), so it
  takes fuel and \<open>None\<close> is running out of it.
\<close>

fun poll_loop ::
    "nat \<Rightarrow> ('x, 'w) indexer_env \<Rightarrow> 'x jsval \<Rightarrow> js_number \<Rightarrow> js_number \<Rightarrow> 'w indexer \<Rightarrow> ((exn + unit) \<times> 'w indexer) option" where
  "poll_loop 0 env cursor start highest s = None"
| "poll_loop (Suc n) env cursor start highest s =
     (case getEvents env (page_params env cursor start) s of
        (Inl e, s1) \<Rightarrow> Some (Inl e, s1)
      | (Inr res, s1) \<Rightarrow>
        (case handle_page env (rs_events res) highest s1 of
           (Inl e, s2) \<Rightarrow> Some (Inl e, s2)
         | (Inr highest', s2) \<Rightarrow>
           if length (rs_events res) < PAGE_LIMIT \<or> \<not> truthy (rs_cursor res)
           then Some (advance_watermark env highest' (rs_latest_ledger res) s2)
           else poll_loop n env (rs_cursor res) start highest' s2))"

definition poll :: "nat \<Rightarrow> ('x, 'w) indexer_env \<Rightarrow> 'w indexer \<Rightarrow> 'w indexer option" where
  "poll fuel env s =
     (case js_bind (on_cache getLastLedger) (\<lambda>l. js_bind (on_cache getLastLedger) (\<lambda>highest.
             js_return (js_add l (Fin 1), highest))) s of
        (Inl e, s1) \<Rightarrow> Some (console_line (''[indexer] poll failed: '' @ exn_message e) s1)
      | (Inr (start, highest), s1) \<Rightarrow>
        map_option (\<lambda>(r, s2). case r of
            Inl e \<Rightarrow> console_line (''[indexer] poll failed: '' @ exn_message e) s2
          | Inr _ \<Rightarrow> s2) (poll_loop fuel env Null start highest s1))"

section \<open>Starting and stopping\<close>

text \<open>
  \<open>start\<close> up to its first call of \<open>poll\<close>, which it does not await: the flag says whether it
  polls. Every registered interval goes on firing until it is cleared; \<open>stop\<close> clears the one
  \<open>this.timer\<close> denotes.
\<close>

definition start :: "('x, 'w) indexer_env \<Rightarrow> 'w indexer \<Rightarrow> bool \<times> 'w indexer" where
  "start env s =
     (if env_contract_id env = [] then (False, console_line ''[indexer] CONTRACT_ID not set; indexer idle.'' s)
      else (True, console_line (''[indexer] polling '' @ env_contract_id env @ '' every '' @
             number_to_string (env_poll_interval env) @ ''ms'')
           (s\<lparr>running := True, timer := Some (next_timer s), next_timer := Suc (next_timer s),
              intervals := intervals s @ [next_timer s]\<rparr>)))"

definition stop :: "'w indexer \<Rightarrow> 'w indexer" where
  "stop s = s\<lparr>running := False,
     intervals := (case timer s of None \<Rightarrow> intervals s | Some t \<Rightarrow> removeAll t (intervals s))\<rparr>"

end
