(* ===== verification/Indexer_Facts.thy ===== *)
theory Indexer_Facts
  imports Indexer Store_Driver "HOL-Library.Sublist"
begin

text \<open>
  What polling changes and what it leaves alone, for every server, clock, driver and callback:
  a relation between the state before and after that each elementary operation respects is
  respected by an event, a page, the loop and a poll.
\<close>

section \<open>Relations that computations respect\<close>

definition keeps :: "('s \<Rightarrow> 's \<Rightarrow> bool) \<Rightarrow> ('s, 'a) js \<Rightarrow> bool" where
  "keeps R m \<longleftrightarrow> (\<forall>s. R s (snd (m s)))"

lemma keepsD: "keeps R m \<Longrightarrow> m s = (r, s') \<Longrightarrow> R s s'"
  by (metis keeps_def snd_conv)

locale respected =
  fixes R :: "'s \<Rightarrow> 's \<Rightarrow> bool"
  assumes R_refl: "R s s" and R_trans: "R s1 s2 \<Longrightarrow> R s2 s3 \<Longrightarrow> R s1 s3"
begin

lemma keeps_pure: "keeps R (js_return x)" "keeps R (js_lift m)" "keeps R (js_throw e)" "keeps R (js_read f)"
  by (simp_all add: keeps_def js_simps R_refl)

lemma keeps_bind: "keeps R m \<Longrightarrow> (\<And>x. keeps R (f x)) \<Longrightarrow> keeps R (js_bind m f)"
  unfolding keeps_def js_bind_def
  by (auto split: prod.split sum.split) (metis R_trans snd_conv)+

lemma keeps_lift_bind: "(\<And>x. m = Inr x \<Longrightarrow> keeps R (f x)) \<Longrightarrow> keeps R (js_bind (js_lift m) f)"
  by (cases m) (auto simp: keeps_def js_bind_simps R_refl)

lemma keeps_if: "keeps R m1 \<Longrightarrow> keeps R m2 \<Longrightarrow> keeps R (if c then m1 else m2)"
  by simp

end

section \<open>Events and pages\<close>

locale page_frame = respected R for R :: "'w indexer \<Rightarrow> 'w indexer \<Rightarrow> bool" +
  fixes env :: "('x, 'w) indexer_env"
  assumes R_now: "keeps R (now_iso env)"
    and R_world: "keeps R (on_world m :: ('w, unit) idx_op)"
    and R_ingest: "keeps R (on_cache (ingest (env_driver env) row))"
begin

lemma handleEvent_keeps: "keeps R (handleEvent env event)"
  unfolding handleEvent_def Let_def
  by (intro keeps_bind keeps_pure R_now R_world R_ingest conjI impI | simp only: split: if_split)+

lemma handle_page_keeps: "keeps R (handle_page env events highest)"
proof (induction events arbitrary: highest)
  case Nil
  then show ?case using keeps_pure(1) by simp
next
  case (Cons event events)
  show ?case unfolding handle_page.simps
    by (intro keeps_bind handleEvent_keeps keeps_pure Cons.IH)
qed

end

text \<open>Events touch neither the watermark nor the console.\<close>

definition same_mark :: "'w indexer \<Rightarrow> 'w indexer \<Rightarrow> bool" where
  "same_mark s s' \<longleftrightarrow> meta (cache s') = meta (cache s) \<and> console s' = console s"

lemma same_mark_ingest: "keeps same_mark (on_cache (ingest drv row))"
  by (simp add: keeps_def same_mark_def on_cache_def split_beta)

interpretation marks: page_frame same_mark env for env :: "('x, 'w) indexer_env"
proof unfold_locales
  show "keeps same_mark (on_cache (ingest (env_driver env) row) :: ('w, unit) idx_op)" for row
    by (rule same_mark_ingest)
qed (auto simp: same_mark_def keeps_def now_iso_def on_world_def split: prod.split)

section \<open>Polls\<close>

locale poll_frame = respected R for R :: "'w indexer \<Rightarrow> 'w indexer \<Rightarrow> bool" +
  fixes env :: "('x, 'w) indexer_env"
  assumes R_page: "keeps R (handle_page env events highest)"
    and R_rpc: "keeps R (getEvents env params)"
    and R_mark: "keeps R (advance_watermark env highest latest)"
    and R_console: "R s (console_line t s)"
begin

lemma poll_loop_keeps: "poll_loop n env cursor first highest s = Some (r, s') \<Longrightarrow> R s s'"
proof (induction n arbitrary: cursor highest s)
  case (Suc n)
  obtain res s1 where g: "getEvents env (page_params env cursor first) s = (res, s1)" by fastforce
  have 1: "R s s1" using keepsD [OF R_rpc g] .
  show ?case
  proof (cases res)
    case (Inl e)
    with g Suc.prems 1 show ?thesis by simp
  next
    case res: (Inr page)
    obtain h s2 where h: "handle_page env (rs_events page) highest s1 = (h, s2)" by fastforce
    have 2: "R s s2" using keepsD [OF R_page h] 1 R_trans by blast
    show ?thesis
    proof (cases h)
      case (Inl e)
      with g res h Suc.prems 2 show ?thesis by simp
    next
      case (Inr top)
      show ?thesis
      proof (cases "length (rs_events page) < PAGE_LIMIT \<or> \<not> truthy (rs_cursor page)")
        case True
        with g res h Inr Suc.prems have "advance_watermark env top (rs_latest_ledger page) s2 = (r, s')" by simp
        then show ?thesis using keepsD [OF R_mark] 2 R_trans by blast
      next
        case False
        with g res h Inr Suc.prems have "poll_loop n env (rs_cursor page) first top s2 = Some (r, s')" by simp
        then show ?thesis using Suc.IH 2 R_trans by blast
      qed
    qed
  qed
qed simp

end

lemma poll_cases:
  assumes "poll n env s = Some s'"
  obtains (finished) first highest u where "poll_loop n env Null first highest s = Some (Inr u, s')"
    | (failed) first highest e s2 where "poll_loop n env Null first highest s = Some (Inl e, s2)"
        "s' = console_line (''[indexer] poll failed: '' @ exn_message e) s2"
proof -
  obtain l where l: "getLastLedger (cache s) = (Inr l, cache s)"
    by (simp add: getLastLedger_def js_bind_simps js_simps)
  then have "poll n env s = map_option (\<lambda>(r, s2). case r of
        Inl e \<Rightarrow> console_line (''[indexer] poll failed: '' @ exn_message e) s2 | Inr _ \<Rightarrow> s2)
      (poll_loop n env Null (js_add l (Fin 1)) l s)"
    by (simp add: poll_def on_cache_def js_bind_def js_return_def)
  with assms obtain r s2 where r: "poll_loop n env Null (js_add l (Fin 1)) l s = Some (r, s2)"
    and s': "s' = (case r of Inl e \<Rightarrow> console_line (''[indexer] poll failed: '' @ exn_message e) s2 | Inr _ \<Rightarrow> s2)"
    by fastforce
  show thesis
  proof (cases r)
    case (Inl e)
    with r s' show thesis by (intro failed) simp_all
  next
    case (Inr u)
    with r s' show thesis by (intro finished) simp
  qed
qed

lemma poll_keeps_frame:
  assumes "poll_frame R env" and "poll n env s = Some s'"
  shows "R s s'"
  using assms(2)
proof (cases rule: poll_cases)
  case finished
  then show ?thesis by (rule poll_frame.poll_loop_keeps [OF assms(1)])
next
  case (failed first highest e s2)
  have "R s s2" by (rule poll_frame.poll_loop_keeps [OF assms(1) failed(1)])
  moreover have "R s2 s'" unfolding failed(2) by (rule poll_frame.R_console [OF assms(1)])
  ultimately show ?thesis
    using respected.R_trans [OF poll_frame.axioms(1) [OF assms(1)]] by blast
qed

text \<open>The cached log only grows, every event in it once; nothing else of the cache is touched.\<close>

definition log_grows :: "'w indexer \<Rightarrow> 'w indexer \<Rightarrow> bool" where
  "log_grows s s' \<longleftrightarrow> prefix (meter_events (cache s)) (meter_events (cache s'))
     \<and> (events_unique (cache s) \<longrightarrow> events_unique (cache s'))
     \<and> pending_readings (cache s') = pending_readings (cache s) \<and> meter_columns (cache s') = meter_columns (cache s)"

lemma setLastLedger_cases:
  obtains e where "setLastLedger drv x c = (Inl e, c)"
    | v where "setLastLedger drv x c = (Inr (), c\<lparr>meta := (meta c)(''last_ledger'' \<mapsto> v)\<rparr>)"
        "bind_text drv (Str (number_to_string x)) = Inr v"
  by (cases "bind_text drv (Str (number_to_string x))") (auto simp: setLastLedger_def js_bind_def js_simps)

lemma advance_cases:
  obtains (kept) r where "advance_watermark env h latest s = (r, s)"
    | (moved) l x v where "getLastLedger (cache s) = (Inr l, cache s)" "x = (if js_less l h then h else latest)"
        "js_less l x" "bind_text (env_driver env) (Str (number_to_string x)) = Inr v"
        "advance_watermark env h latest s = (Inr (), s\<lparr>cache := (cache s)\<lparr>meta := (meta (cache s))(''last_ledger'' \<mapsto> v)\<rparr>\<rparr>)"
proof -
  obtain l where l: "getLastLedger (cache s) = (Inr l, cache s)"
    by (simp add: getLastLedger_def js_bind_simps js_simps)
  define x where "x = (if js_less l h then h else latest)"
  have run: "advance_watermark env h latest s =
      (if js_less l x then on_cache (setLastLedger (env_driver env) x) s else (Inr (), s))"
    using l by (simp add: advance_watermark_def on_cache_def js_bind_def js_return_def x_def Let_def)
  show thesis
  proof (cases "js_less l x")
    case False
    with run kept show thesis by simp
  next
    case True
    show thesis
    proof (cases rule: setLastLedger_cases [of "env_driver env" x "cache s"])
      case (1 e)
      with True run kept show thesis by (simp add: on_cache_def)
    next
      case (2 v)
      with True run moved [OF l x_def True] show thesis by (simp add: on_cache_def)
    qed
  qed
qed

lemma log_grows_ingest: "keeps log_grows (on_cache (ingest drv row))"
  unfolding keeps_def
proof
  fix s :: "'w indexer"
  obtain r c where i: "ingest drv row (cache s) = (r, c)" by fastforce
  then have c: "c = snd (ingest drv row (cache s))" by simp
  show "log_grows s (snd (on_cache (ingest drv row) s))"
    using ingest_appends [of drv row "cache s"] ingest_unique [of "cache s" drv row]
    by (auto simp: log_grows_def on_cache_def split_beta prefix_def)
qed

lemma log_grows_advance: "keeps log_grows (advance_watermark env h latest)"
  unfolding keeps_def
proof
  fix s
  show "log_grows s (snd (advance_watermark env h latest s))"
    by (cases rule: advance_cases [of env h latest s]) (auto simp: log_grows_def events_unique_def)
qed

interpretation log_page: page_frame log_grows env for env :: "('x, 'w) indexer_env"
proof unfold_locales
  show "log_grows s1 s3" if "log_grows s1 s2" "log_grows s2 s3" for s1 s2 s3 :: "'w indexer"
    using that unfolding log_grows_def by (metis prefix_order.trans)
  show "keeps log_grows (on_cache (ingest (env_driver env) row) :: ('w, unit) idx_op)" for row
    by (rule log_grows_ingest)
qed (auto simp: log_grows_def keeps_def now_iso_def on_world_def split: prod.split)

interpretation log: poll_frame log_grows env for env :: "('x, 'w) indexer_env"
proof unfold_locales
  show "keeps log_grows (handle_page env events highest)" for events highest
    by (rule log_page.handle_page_keeps)
  show "keeps log_grows (advance_watermark env highest latest)" for highest latest
    by (rule log_grows_advance)
qed (auto simp: log_grows_def keeps_def getEvents_def console_line_def)

section \<open>The watermark\<close>

lemma poll_loop_failed: "poll_loop n env cursor first highest s = Some (Inl e, s') \<Longrightarrow> same_mark s s'"
proof (induction n arbitrary: cursor highest s)
  case (Suc n)
  obtain res s1 where g: "getEvents env (page_params env cursor first) s = (res, s1)" by fastforce
  have 1: "same_mark s s1" using g by (auto simp: same_mark_def getEvents_def)
  show ?case
  proof (cases res)
    case (Inl e')
    with g Suc.prems 1 show ?thesis by simp
  next
    case res: (Inr page)
    obtain h s2 where h: "handle_page env (rs_events page) highest s1 = (h, s2)" by fastforce
    have 2: "same_mark s s2" using keepsD [OF marks.handle_page_keeps h] 1 marks.R_trans by blast
    show ?thesis
    proof (cases h)
      case (Inl e')
      with g res h Suc.prems 2 show ?thesis by simp
    next
      case (Inr top)
      show ?thesis
      proof (cases "length (rs_events page) < PAGE_LIMIT \<or> \<not> truthy (rs_cursor page)")
        case True
        with g res h Inr Suc.prems have "advance_watermark env top (rs_latest_ledger page) s2 = (Inl e, s')" by simp
        then have "s' = s2" by (cases rule: advance_cases [of env top "rs_latest_ledger page" s2]) auto
        with 2 show ?thesis by simp
      next
        case False
        with g res h Inr Suc.prems have "poll_loop n env (rs_cursor page) first top s2 = Some (Inl e, s')" by simp
        then show ?thesis using Suc.IH 2 marks.R_trans by blast
      qed
    qed
  qed
qed simp

lemma poll_loop_done:
  assumes "poll_loop n env cursor first highest s = Some (Inr u, s')"
  obtains s2 top latest where "same_mark s s2" "advance_watermark env top latest s2 = (Inr u, s')"
  using assms
proof (induction n arbitrary: cursor highest s thesis)
  case (Suc n)
  obtain res s1 where g: "getEvents env (page_params env cursor first) s = (res, s1)" by fastforce
  have 1: "same_mark s s1" using g by (auto simp: same_mark_def getEvents_def)
  obtain page where res: "res = Inr page" using g Suc.prems(2) by (cases res) auto
  obtain h s2 where h: "handle_page env (rs_events page) highest s1 = (h, s2)" by fastforce
  have 2: "same_mark s s2" using keepsD [OF marks.handle_page_keeps h] 1 marks.R_trans by blast
  obtain top where top: "h = Inr top" using g h res Suc.prems(2) by (cases h) auto
  show ?case
  proof (cases "length (rs_events page) < PAGE_LIMIT \<or> \<not> truthy (rs_cursor page)")
    case True
    with g res h top Suc.prems(2) have "advance_watermark env top (rs_latest_ledger page) s2 = (Inr u, s')" by simp
    with 2 Suc.prems(1) show ?thesis by blast
  next
    case False
    with g res h top Suc.prems(2) have "poll_loop n env (rs_cursor page) first top s2 = Some (Inr u, s')" by simp
    from Suc.IH [OF _ this] obtain s3 top3 latest3 where
      "same_mark s2 s3" "advance_watermark env top3 latest3 s3 = (Inr u, s')" by blast
    with 2 Suc.prems(1) marks.R_trans show ?thesis by blast
  qed
qed simp

end
