(* ===== verification/Indexer_Chain.thy ===== *)
theory Indexer_Chain
  imports Indexer_Facts
begin

text \<open>
  Polling a chain that moves on. The events the contract published are delivered by an RPC
  server that answers from the chain as it is at each call, in pages, and may fail; no event
  at or below the watermark is ever missing from the cache, and the cache holds exactly what
  the events say.
\<close>

section \<open>Events of the chain\<close>

record chain_event =
  ce_id :: string
  ce_ledger :: int
  ce_event :: event

definition host_event :: "(scval \<Rightarrow> 'x) \<Rightarrow> chain_event \<Rightarrow> 'x rpc_event" where
  "host_event enc ce = \<lparr>ev_id = Str (ce_id ce), ev_ledger = Num (number_of_int (ce_ledger ce)),
     ev_topic = Arr (map (\<lambda>v. Ext (enc v)) (topics (ce_event ce))), ev_value = Ext (enc (event_data (ce_event ce)))\<rparr>"

text \<open>
  The amounts a cache column holds: 64-bit integers, and sequence numbers and timestamps that a
  double represents. A device address is never empty.
\<close>

definition cacheable :: "meter \<Rightarrow> bool" where
  "cacheable m \<longleftrightarrow> in_i64 (uint (m_units m)) \<and> in_i64 (sint (m_cost m)) \<and> in_i64 (sint (m_balance m))
     \<and> uint (m_seq m) \<le> 2 ^ 53 \<and> uint (m_ts m) \<le> 2 ^ 53 \<and> m_device m \<noteq> []"

definition plain_event :: "event \<Rightarrow> bool" where
  "plain_event e \<longleftrightarrow> (case meter_of e of
       Some m \<Rightarrow> cacheable m
     | None \<Rightarrow> (case topics e of ScSymbol t # _ \<Rightarrow> t \<noteq> METER_TOPIC | _ \<Rightarrow> False))"

lemma meter_of_inverse: "meter_of e = Some m \<Longrightarrow> e = meter_event m"
  by (cases e) (auto simp: meter_of_def meter_of_parts_def meter_event_def
      split: list.splits scval.splits if_splits)

text \<open>What a row says of a \<open>meter\<close> event; the time of ingestion and the raw text are left open.\<close>

definition records :: "string \<Rightarrow> chain_event \<Rightarrow> meter \<Rightarrow> meter_row \<Rightarrow> bool" where
  "records contract ce m r \<longleftrightarrow>
     mr_event_id r = Some (ce_id ce) \<and> mr_contract_id r = Some contract \<and> mr_ledger r = Some (ce_ledger ce)
   \<and> mr_device_id r = m_device m \<and> mr_operator r = None \<and> mr_units r = uint (m_units m) \<and> mr_rate_per_unit r = 0
   \<and> mr_cost r = sint (m_cost m) \<and> mr_balance_after r = Some (sint (m_balance m))
   \<and> mr_seq r = Some (uint (m_seq m)) \<and> mr_ledger_ts r = Some (uint (m_ts m))"

section \<open>One event\<close>

text \<open>
  The host side of the indexer: an SDK and a driver that keep their contracts, a callback and a
  serialiser that do not throw.
\<close>

locale indexer_host = vals: contract_values "env_sdk env" enc + db: cache_driver "env_driver env"
  for env :: "('x, 'w) indexer_env" and enc :: "scval \<Rightarrow> 'x" +
  assumes callback: "fst (env_on_event env row w) = Inr ()"
    and serialises: "\<exists>t. env_stringify env (host_event enc ce) = Inr t"
begin

lemma handle_other:
  assumes "topics (ce_event ce) = ScSymbol t # tps" and "t \<noteq> METER_TOPIC"
  shows "handleEvent env (host_event enc ce) s = (Inr (), s)"
  using assms
  by (simp add: handleEvent_def Let_def host_event_def topic_list_def elem_def vals.decode_symbol js_bind_simps js_simps)

lemma number_of_u64: "uint (w :: u64) \<le> 2 ^ 53 \<Longrightarrow> bind_int (env_driver env) (Num (number_of_int (uint w))) = Inr (Some (uint w))"
  by (rule db.bind_int_num) simp

lemma handle_meter:
  assumes ev: "ce_event ce = meter_event m" and m: "cacheable m"
    and ledger: "\<bar>ce_ledger ce\<bar> \<le> 2 ^ 53" and col: "has_column ''ledger_ts'' (cache s)"
  obtains r w where "records (env_contract_id env) ce m r" and "mr_emitted_at r = Some (env_now env (ticks s))"
    and "handleEvent env (host_event enc ce) s =
      (Inr (), s\<lparr>ticks := Suc (ticks s), cache := insert_event r (cache s), world := w\<rparr>)"
proof -
  obtain raw where raw: "env_stringify env (host_event enc ce) = Inr raw" using serialises by blast
  define r where "r = \<lparr>mr_event_id = Some (ce_id ce), mr_contract_id = Some (env_contract_id env),
      mr_ledger = Some (ce_ledger ce), mr_device_id = m_device m, mr_operator = None,
      mr_units = uint (m_units m), mr_rate_per_unit = 0, mr_cost = sint (m_cost m),
      mr_balance_after = Some (sint (m_balance m)), mr_seq = Some (uint (m_seq m)),
      mr_ledger_ts = Some (uint (m_ts m)), mr_emitted_at = Some (env_now env (ticks s)), mr_raw = Some raw\<rparr>"
  define row where "row = \<lparr>er_event_id = Str (ce_id ce), er_contract_id = Str (env_contract_id env),
      er_ledger = Num (number_of_int (ce_ledger ce)), er_device_id = Str (m_device m), er_operator = Null,
      er_units = BigInt (uint (m_units m)), er_rate_per_unit = BigInt 0, er_cost = BigInt (sint (m_cost m)),
      er_balance_after = BigInt (sint (m_balance m)), er_seq = Num (number_of_int (uint (m_seq m))),
      er_ledger_ts = Num (number_of_int (uint (m_ts m))), er_emitted_at = Str (env_now env (ticks s)),
      er_raw = Str raw :: 'x jsval\<rparr>"
  have zero: "in_i64 0" by (simp add: in_i64_def)
  have ing: "ingest (env_driver env) row c = (Inr (), insert_event r c)" if "has_column ''ledger_ts'' c" for c
    using m ledger that zero
    by (simp add: ingest_def need_column_def js_bind_def js_lift_def ingest_ctx_def row_def bind_row_def
        complete_row_def cacheable_def db.bind_text_str db.bind_text_null db.bind_int_null db.bind_int_big
        db.bind_int_num number_of_u64 js_simps r_def)
  obtain w where w: "env_on_event env row (world s) = (Inr (), w)"
    using callback [of row "world s"] by (metis prod.collapse)
  have "handleEvent env (host_event enc ce) s =
      js_bind (on_cache (ingest (env_driver env) row)) (\<lambda>_. on_world (env_on_event env row)) (s\<lparr>ticks := Suc (ticks s)\<rparr>)"
    using m raw unfolding handleEvent_def Let_def
    by (simp add: host_event_def ev meter_event_def topic_list_def elem_def vals.decode_symbol vals.decode_address
        vals.decode_vec vals.decode_u64 vals.decode_i128 TOPIC_METER_def METER_TOPIC_def cacheable_def
        bigint_or_def number_or_null_def now_iso_def js_bind_def js_lift_def row_def)
  also have "\<dots> = (Inr (), s\<lparr>ticks := Suc (ticks s), cache := insert_event r (cache s), world := w\<rparr>)"
    using ing [OF col] w by (simp add: js_bind_def on_cache_def on_world_def)
  finally show thesis
    by (rule that [rotated 2]) (simp_all add: records_def r_def)
qed

end

section \<open>What the cache holds\<close>

definition cached_ids :: "db \<Rightarrow> string option set" where
  "cached_ids c = set (map mr_event_id (meter_events c))"

text \<open>Every \<open>meter\<close> event of a list of events is cached.\<close>

definition covers :: "chain_event list \<Rightarrow> db \<Rightarrow> bool" where
  "covers ces c \<longleftrightarrow> (\<forall>ce\<in>set ces. meter_of (ce_event ce) \<noteq> None \<longrightarrow> Some (ce_id ce) \<in> cached_ids c)"

text \<open>Every row records an event of the list.\<close>

definition faithful :: "string \<Rightarrow> chain_event list \<Rightarrow> db \<Rightarrow> bool" where
  "faithful contract ces c \<longleftrightarrow>
     (\<forall>r\<in>set (meter_events c). \<exists>ce\<in>set ces. \<exists>m. meter_of (ce_event ce) = Some m \<and> records contract ce m r)"

lemma cached_ids_insert: "cached_ids (insert_event r c) = cached_ids c \<union> (if mr_event_id r = None then cached_ids (insert_event r c) else {mr_event_id r})"
  by (auto simp: cached_ids_def insert_event_def known_event_def)

lemma cached_ids_insert_mono: "cached_ids c \<subseteq> cached_ids (insert_event r c)"
  by (auto simp: cached_ids_def insert_event_def)

lemma cached_ids_insert_in: "mr_event_id r \<noteq> None \<Longrightarrow> mr_event_id r \<in> cached_ids (insert_event r c)"
  by (auto simp: cached_ids_def insert_event_def known_event_def)

lemma covers_mono: "covers ces c \<Longrightarrow> cached_ids c \<subseteq> cached_ids c' \<Longrightarrow> set ces' \<subseteq> set ces \<Longrightarrow> covers ces' c'"
  by (auto simp: covers_def)

lemma covers_append [simp]: "covers (xs @ ys) c \<longleftrightarrow> covers xs c \<and> covers ys c"
  by (auto simp: covers_def)

lemma faithful_mono: "faithful k ces c \<Longrightarrow> set ces \<subseteq> set ces' \<Longrightarrow> faithful k ces' c"
  unfolding faithful_def by blast

lemma faithful_insert:
  "faithful k ces c \<Longrightarrow> ce \<in> set ces \<Longrightarrow> meter_of (ce_event ce) = Some m \<Longrightarrow> records k ce m r \<Longrightarrow>
   faithful k ces (insert_event r c)"
  by (auto simp: faithful_def insert_event_def)

text \<open>The cache matters to the poller through these; the watermark may move.\<close>

lemma cached_ids_meta [simp]: "cached_ids (c\<lparr>meta := f\<rparr>) = cached_ids c"
  by (simp add: cached_ids_def)

lemma faithful_meta [simp]: "faithful k ces (c\<lparr>meta := f\<rparr>) = faithful k ces c"
  by (simp add: faithful_def)

lemma has_column_meta [simp]: "has_column x (c\<lparr>meta := f\<rparr>) = has_column x c"
  by (simp add: has_column_def)

lemma has_column_insert [simp]: "has_column x (insert_event r c) = has_column x c"
  by (simp add: has_column_def)

section \<open>A page\<close>

text \<open>
  What a page leaves: everything on it cached, nothing cached lost or invented, the watermark,
  the schema and the count of calls as before.
\<close>

definition page_effect :: "string \<Rightarrow> chain_event list \<Rightarrow> 'w indexer \<Rightarrow> 'w indexer \<Rightarrow> bool" where
  "page_effect contract ces s s' \<longleftrightarrow>
     covers ces (cache s') \<and> cached_ids (cache s) \<subseteq> cached_ids (cache s')
   \<and> (\<forall>all. faithful contract all (cache s) \<longrightarrow> set ces \<subseteq> set all \<longrightarrow> faithful contract all (cache s'))
   \<and> meta (cache s') = meta (cache s) \<and> has_column ''ledger_ts'' (cache s') = has_column ''ledger_ts'' (cache s)
   \<and> rpc_calls s' = rpc_calls s"

context indexer_host
begin

lemma handle_event_effect:
  assumes "plain_event (ce_event ce)" and "\<bar>ce_ledger ce\<bar> \<le> 2 ^ 53" and "has_column ''ledger_ts'' (cache s)"
  obtains s' where "handleEvent env (host_event enc ce) s = (Inr (), s')"
    and "page_effect (env_contract_id env) [ce] s s'"
proof (cases "meter_of (ce_event ce)")
  case None
  with assms(1) obtain t tps where "topics (ce_event ce) = ScSymbol t # tps" "t \<noteq> METER_TOPIC"
    by (auto simp: plain_event_def split: list.splits scval.splits)
  from handle_other [OF this] None show ?thesis
    by (intro that [of s]) (auto simp: page_effect_def covers_def)
next
  case (Some m)
  with assms(1) have m: "cacheable m" by (simp add: plain_event_def)
  from handle_meter [OF meter_of_inverse [OF Some] m assms(2,3)] obtain r w where
    r: "records (env_contract_id env) ce m r"
    and run: "handleEvent env (host_event enc ce) s =
      (Inr (), s\<lparr>ticks := Suc (ticks s), cache := insert_event r (cache s), world := w\<rparr>)" by metis
  have id: "mr_event_id r = Some (ce_id ce)" using r by (simp add: records_def)
  show ?thesis
  proof (rule that [OF run])
    show "page_effect (env_contract_id env) [ce] s (s\<lparr>ticks := Suc (ticks s), cache := insert_event r (cache s), world := w\<rparr>)"
      using cached_ids_insert_mono [of "cache s" r] cached_ids_insert_in [of r "cache s"] id r Some
      by (auto simp: page_effect_def covers_def intro: faithful_insert)
  qed
qed

lemma handle_page_effect:
  assumes "\<forall>ce\<in>set ces. plain_event (ce_event ce) \<and> \<bar>ce_ledger ce\<bar> \<le> 2 ^ 53"
    and "has_column ''ledger_ts'' (cache s)" and "\<bar>h\<bar> \<le> 2 ^ 53"
  shows "\<exists>s'. handle_page env (map (host_event enc) ces) (number_of_int h) s =
      (Inr (number_of_int (foldl max h (map ce_ledger ces))), s') \<and> page_effect (env_contract_id env) ces s s'"
  using assms
proof (induction ces arbitrary: h s)
  case Nil
  then show ?case by (simp add: js_simps page_effect_def covers_def)
next
  case (Cons ce ces)
  have l: "\<bar>ce_ledger ce\<bar> \<le> 2 ^ 53" using Cons.prems(1) by simp
  obtain s1 where s1: "handleEvent env (host_event enc ce) s = (Inr (), s1)"
    and e1: "page_effect (env_contract_id env) [ce] s s1"
    using handle_event_effect [of ce s] Cons.prems by auto
  have "has_column ''ledger_ts'' (cache s1)" "\<bar>max h (ce_ledger ce)\<bar> \<le> 2 ^ 53"
    using e1 Cons.prems(2,3) l by (auto simp: page_effect_def)
  with Cons obtain s2 where s2: "handle_page env (map (host_event enc) ces) (number_of_int (max h (ce_ledger ce))) s1 =
      (Inr (number_of_int (foldl max (max h (ce_ledger ce)) (map ce_ledger ces))), s2)"
    and e2: "page_effect (env_contract_id env) ces s1 s2" by force
  have cmp: "(if js_less (number_of_int h) (number_of_int (ce_ledger ce)) then number_of_int (ce_ledger ce) else number_of_int h)
      = number_of_int (max h (ce_ledger ce))"
    using js_less_exact [OF Cons.prems(3) l] by (simp add: max_def)
  have led: "js_to_number (host_string (env_sdk env)) (ev_ledger (host_event enc ce)) = Inr (number_of_int (ce_ledger ce))"
    by (simp add: host_event_def)
  have "handle_page env (map (host_event enc) (ce # ces)) (number_of_int h) s =
      (Inr (number_of_int (foldl max h (map ce_ledger (ce # ces)))), s2)"
    using s2 by (simp add: js_bind_run(1) [where m = "handleEvent env (host_event enc ce)", OF s1] led js_bind_simps cmp)
  moreover have "page_effect (env_contract_id env) (ce # ces) s s2"
    using e1 e2 unfolding page_effect_def covers_def by (auto split: if_splits)
  ultimately show ?case by blast
qed

end

end
