(* ===== verification/Indexer_Complete.thy ===== *)
theory Indexer_Complete
  imports Indexer_Chain
begin

text \<open>
  The RPC server as the indexer relies on it, and the guarantee of the poller against it:
  every event at or below the watermark is in the cache, whatever calls fail, and a poll that
  ends without a failure has cached every event the server knew.
\<close>

section \<open>The server\<close>

text \<open>
  \<open>getEvents\<close> over the events of the chain in ledger order: from a ledger, or after a cursor,
  at most \<open>limit\<close> of them, with a cursor behind the last. A cursor is the number of events
  before it, printed.
\<close>

definition serve_from :: "chain_event list \<Rightarrow> 'x rpc_params \<Rightarrow> nat" where
  "serve_from ces p = (case rq_cursor p of
       Some (Str c) \<Rightarrow> (case bigint_of_string c of Some k \<Rightarrow> nat k | None \<Rightarrow> 0)
     | _ \<Rightarrow> (case rq_start_ledger p of
           Some l \<Rightarrow> length (takeWhile (\<lambda>ce. js_less (number_of_int (ce_ledger ce)) l) ces)
         | None \<Rightarrow> 0))"

definition serve :: "(scval \<Rightarrow> 'x) \<Rightarrow> chain_event list \<Rightarrow> int \<Rightarrow> 'x rpc_params \<Rightarrow> 'x rpc_response" where
  "serve enc ces latest p =
     (let k = serve_from ces p; page = take (rq_limit p) (drop k ces) in
      \<lparr>rs_events = map (host_event enc) page, rs_cursor = Str (dec_int (int (k + length page))),
       rs_latest_ledger = number_of_int latest\<rparr>)"

text \<open>
  The chain as call \<open>t\<close> finds it: it only grows, in ledgers after the latest one the previous
  call saw; every event is one the cache can hold. A call may fail instead.
\<close>

locale indexer_chain = indexer_host env enc for env :: "('x, 'w) indexer_env" and enc :: "scval \<Rightarrow> 'x" +
  fixes chain_at :: "nat \<Rightarrow> chain_event list" and latest_at :: "nat \<Rightarrow> int"
  assumes grows: "\<exists>ces. chain_at (Suc t) = chain_at t @ ces \<and> (\<forall>ce\<in>set ces. latest_at t < ce_ledger ce)"
    and latest_mono: "latest_at t \<le> latest_at (Suc t)"
    and ledgers: "ce \<in> set (chain_at t) \<Longrightarrow> 0 \<le> ce_ledger ce \<and> ce_ledger ce \<le> latest_at t"
    and latest_range: "0 \<le> latest_at t \<and> latest_at t < 2 ^ 53"
    and in_order: "sorted (map ce_ledger (chain_at t))"
    and events_ok: "ce \<in> set (chain_at t) \<Longrightarrow> plain_event (ce_event ce)"
    and serves: "env_get_events env t p = Inr (serve enc (chain_at t) (latest_at t) p) \<or> (\<exists>e. env_get_events env t p = Inl e)"
begin

lemma latest_le: "t \<le> t' \<Longrightarrow> latest_at t \<le> latest_at t'"
  by (rule lift_Suc_mono_le [of latest_at]) (rule latest_mono)

lemma chain_grows: "t \<le> t' \<Longrightarrow> \<exists>ces. chain_at t' = chain_at t @ ces \<and> (\<forall>ce\<in>set ces. latest_at t < ce_ledger ce)"
proof (induction t' rule: dec_induct)
  case base
  then show ?case by simp
next
  case (step n)
  then obtain ces where ces: "chain_at n = chain_at t @ ces" "\<forall>ce\<in>set ces. latest_at t < ce_ledger ce" by blast
  obtain new where new: "chain_at (Suc n) = chain_at n @ new" "\<forall>ce\<in>set new. latest_at n < ce_ledger ce"
    using grows [of n] by blast
  have "latest_at t \<le> latest_at n" using step.hyps by (simp add: latest_le)
  with ces new show ?case by (intro exI [of _ "ces @ new"]) fastforce
qed

lemma old_events: "t \<le> t' \<Longrightarrow> ce \<in> set (chain_at t') \<Longrightarrow> ce_ledger ce \<le> latest_at t \<Longrightarrow> ce \<in> set (chain_at t)"
  using chain_grows [of t t'] by force

lemma event_range: "ce \<in> set (chain_at t) \<Longrightarrow> plain_event (ce_event ce) \<and> \<bar>ce_ledger ce\<bar> \<le> 2 ^ 53"
  using events_ok [of ce t] ledgers [of ce t] latest_range [of t] by force

end

section \<open>The invariant between polls\<close>

text \<open>
  The watermark is a ledger \<open>w\<close>, and every event up to \<open>w\<close>, on the chain of any later call, is
  cached; every row records an event of the chain.
\<close>

definition caught_up_with :: "string \<Rightarrow> (nat \<Rightarrow> chain_event list) \<Rightarrow> int \<Rightarrow> 'w indexer \<Rightarrow> bool" where
  "caught_up_with contract chain_at w s \<longleftrightarrow>
     0 \<le> w \<and> w < 2 ^ 53 \<and> getLastLedger (cache s) = (Inr (number_of_int w), cache s)
     \<and> has_column ''ledger_ts'' (cache s)
     \<and> (\<forall>t \<ge> rpc_calls s. covers (filter (\<lambda>ce. ce_ledger ce \<le> w) (chain_at t)) (cache s))
     \<and> (\<forall>t \<ge> rpc_calls s. faithful contract (chain_at t) (cache s))"

text \<open>A ledger up to which, and a number of events so far as which, the cache is complete.\<close>

definition safe_ledger :: "(nat \<Rightarrow> chain_event list) \<Rightarrow> int \<Rightarrow> 'w indexer \<Rightarrow> bool" where
  "safe_ledger chain_at l s \<longleftrightarrow> 0 \<le> l \<and> l < 2 ^ 53
     \<and> (\<forall>t \<ge> rpc_calls s. covers (filter (\<lambda>ce. ce_ledger ce \<le> l) (chain_at t)) (cache s))"

definition seen_events :: "(nat \<Rightarrow> chain_event list) \<Rightarrow> nat \<Rightarrow> 'w indexer \<Rightarrow> bool" where
  "seen_events chain_at k s \<longleftrightarrow>
     (\<forall>t \<ge> rpc_calls s. covers (take k (chain_at t)) (cache s) \<and> k \<le> length (chain_at t))"

text \<open>The state inside the loop, \<open>k\<close> events into the chain.\<close>

definition at_page_of ::
    "string \<Rightarrow> (nat \<Rightarrow> chain_event list) \<Rightarrow> (nat \<Rightarrow> int) \<Rightarrow> int \<Rightarrow> int \<Rightarrow> nat \<Rightarrow> 'w indexer \<Rightarrow> bool" where
  "at_page_of contract chain_at latest_at w h k s \<longleftrightarrow>
     caught_up_with contract chain_at w s \<and> w \<le> h \<and> h < 2 ^ 53
     \<and> (h = w \<or> (\<exists>t < rpc_calls s. h \<le> latest_at t))
     \<and> (\<forall>t \<ge> rpc_calls s. covers (take k (chain_at t)) (cache s) \<and> k \<le> length (chain_at t))
     \<and> (\<forall>ce\<in>set (take k (chain_at (rpc_calls s))). ce_ledger ce \<le> h)"

lemma caught_up_console [simp]: "caught_up_with k c w (console_line t s) = caught_up_with k c w s"
  by (simp add: caught_up_with_def console_line_def)

section \<open>The loop keeps the invariant\<close>

lemma foldl_max_ge: "h \<le> foldl max h xs \<and> (\<forall>x\<in>set xs. x \<le> foldl max h xs)" for h :: int
  by (induction xs arbitrary: h) (auto, metis max.bounded_iff, metis max.bounded_iff)

lemma foldl_max_in: "foldl max h xs = h \<or> foldl max h xs \<in> set xs" for h :: int
proof (induction xs arbitrary: h)
  case (Cons x xs)
  from Cons.IH [of "max h x"] show ?case by (auto simp: max_def split: if_splits)
qed simp

lemma getLastLedger_meta:
  "meta c' = meta c \<Longrightarrow> getLastLedger c = (r, c) \<Longrightarrow> getLastLedger c' = (r, c')"
  by (simp add: getLastLedger_def js_bind_simps js_simps)

context indexer_chain
begin

abbreviation caught_up :: "int \<Rightarrow> 'w indexer \<Rightarrow> bool" where
  "caught_up \<equiv> caught_up_with (env_contract_id env) chain_at"

abbreviation at_cursor :: "int \<Rightarrow> int \<Rightarrow> nat \<Rightarrow> 'w indexer \<Rightarrow> bool" where
  "at_cursor \<equiv> at_page_of (env_contract_id env) chain_at latest_at"

lemma caught_up_step:
  assumes "caught_up w s" and "cached_ids (cache s) \<subseteq> cached_ids (cache s')" and "meta (cache s') = meta (cache s)"
    and "has_column ''ledger_ts'' (cache s') = has_column ''ledger_ts'' (cache s)" and "rpc_calls s \<le> rpc_calls s'"
    and "\<And>t. rpc_calls s' \<le> t \<Longrightarrow> faithful (env_contract_id env) (chain_at t) (cache s) \<Longrightarrow>
      faithful (env_contract_id env) (chain_at t) (cache s')"
  shows "caught_up w s'"
proof -
  have "covers (filter (\<lambda>ce. ce_ledger ce \<le> w) (chain_at t)) (cache s')" if "rpc_calls s' \<le> t" for t
    using assms(1,2,5) that unfolding caught_up_with_def by (meson covers_mono order_refl order_trans)
  moreover have "faithful (env_contract_id env) (chain_at t) (cache s')" if "rpc_calls s' \<le> t" for t
    using assms(1,5,6) that unfolding caught_up_with_def by (meson order_trans)
  ultimately show ?thesis
    using assms(1,3,4) getLastLedger_meta [of "cache s'" "cache s"] unfolding caught_up_with_def by blast
qed

lemma caught_up_call: "caught_up w s \<Longrightarrow> caught_up w (s\<lparr>rpc_calls := Suc (rpc_calls s)\<rparr>)"
  by (rule caught_up_step) simp_all

text \<open>One page, handled.\<close>

lemma page_step:
  assumes at: "at_cursor w h k s" and page: "ces = take n (drop k (chain_at (rpc_calls s)))"
  obtains s2 h2 where
    "handle_page env (map (host_event enc) ces) (number_of_int h) (s\<lparr>rpc_calls := Suc (rpc_calls s)\<rparr>) = (Inr (number_of_int h2), s2)"
    and "at_cursor w h2 (k + length ces) s2" and "rpc_calls s2 = Suc (rpc_calls s)"
proof -
  let ?t = "rpc_calls s" and ?s1 = "s\<lparr>rpc_calls := Suc (rpc_calls s)\<rparr>"
  have sub: "set ces \<subseteq> set (chain_at ?t)" unfolding page by (meson order_trans set_drop_subset set_take_subset)
  have h: "0 \<le> h" "h < 2 ^ 53" using at by (auto simp: at_page_of_def caught_up_with_def)
  define h2 where "h2 = foldl max h (map ce_ledger ces)"
  have "\<forall>ce\<in>set ces. plain_event (ce_event ce) \<and> \<bar>ce_ledger ce\<bar> \<le> 2 ^ 53" using sub event_range by blast
  moreover have "has_column ''ledger_ts'' (cache ?s1)" using at by (simp add: at_page_of_def caught_up_with_def)
  ultimately obtain s2 where run: "handle_page env (map (host_event enc) ces) (number_of_int h) ?s1 = (Inr (number_of_int h2), s2)"
    and eff: "page_effect (env_contract_id env) ces ?s1 s2"
    using handle_page_effect [of ces ?s1 h] h unfolding h2_def by force
  have calls: "rpc_calls s2 = Suc ?t" using eff by (simp add: page_effect_def)
  have cu: "caught_up w s2"
  proof (rule caught_up_step [of w s])
    fix t assume t: "rpc_calls s2 \<le> t" and f: "faithful (env_contract_id env) (chain_at t) (cache s)"
    have "set ces \<subseteq> set (chain_at t)" using sub chain_grows [of ?t t] t calls by fastforce
    with f eff show "faithful (env_contract_id env) (chain_at t) (cache s2)" by (simp add: page_effect_def)
  qed (use at eff in \<open>simp_all add: at_page_of_def page_effect_def\<close>)
  have same: "take (k + length ces) (chain_at t) = take k (chain_at t) @ ces" "k + length ces \<le> length (chain_at t)"
    if "?t \<le> t" for t
  proof -
    have k: "k \<le> length (chain_at ?t)" using at by (simp add: at_page_of_def)
    then have len: "k + length ces \<le> length (chain_at ?t)" unfolding page by simp
    obtain new where new: "chain_at t = chain_at ?t @ new" using chain_grows [OF \<open>?t \<le> t\<close>] by blast
    show "k + length ces \<le> length (chain_at t)" using len new by simp
    have "take (k + length ces) (chain_at ?t) = take k (chain_at ?t) @ ces"
      unfolding page by (simp add: take_add min_def)
    then show "take (k + length ces) (chain_at t) = take k (chain_at t) @ ces" using new len k by simp
  qed
  have "covers (take k (chain_at t) @ ces) (cache s2)" if "Suc ?t \<le> t" for t
    using at eff that covers_mono [of "take k (chain_at t)" "cache s" "cache s2" "take k (chain_at t)"]
    by (simp add: at_page_of_def page_effect_def)
  then have cov: "\<forall>t \<ge> rpc_calls s2. covers (take (k + length ces) (chain_at t)) (cache s2) \<and> k + length ces \<le> length (chain_at t)"
    using same calls by simp
  have ge: "h \<le> h2" "\<forall>l\<in>set (map ce_ledger ces). l \<le> h2" unfolding h2_def using foldl_max_ge by blast+
  have src: "h2 = h \<or> (\<exists>ce\<in>set ces. h2 = ce_ledger ce)"
    unfolding h2_def using foldl_max_in [of h "map ce_ledger ces"] by auto
  have "h2 = w \<or> (\<exists>t < rpc_calls s2. h2 \<le> latest_at t)"
    using src
  proof
    assume "h2 = h"
    with at calls show ?thesis unfolding at_page_of_def by (metis less_SucI)
  next
    assume "\<exists>ce\<in>set ces. h2 = ce_ledger ce"
    then have "h2 \<le> latest_at ?t" using sub ledgers by blast
    with calls show ?thesis by auto
  qed
  moreover have "h2 < 2 ^ 53"
    using src h(2) sub ledgers latest_range by (metis order_le_less_trans subsetD)
  moreover have "\<forall>ce\<in>set (take (k + length ces) (chain_at (rpc_calls s2))). ce_ledger ce \<le> h2"
  proof -
    have "take (k + length ces) (chain_at (Suc ?t)) = take k (chain_at ?t) @ ces"
      using same(1) [of "Suc ?t"] grows [of ?t] at by (auto simp: at_page_of_def)
    then show ?thesis using at ge by (force simp: calls at_page_of_def)
  qed
  ultimately have "at_cursor w h2 (k + length ces) s2"
    using at cu cov ge(1) unfolding at_page_of_def by auto
  then show thesis using run calls by (intro that)
qed

text \<open>The last page, and the watermark it leaves.\<close>

lemma finish_step:
  assumes at: "at_cursor w h k s" and t: "rpc_calls s = Suc t" and all: "k = length (chain_at t)"
  obtains w' s' where "advance_watermark env (number_of_int h) (number_of_int (latest_at t)) s = (Inr (), s')"
    and "caught_up w' s'" and "w \<le> w'" and "covers (chain_at t) (cache s')" and "rpc_calls s' = Suc t"
proof -
  have cu: "caught_up w s" and h: "w \<le> h" "h < 2 ^ 53" using at by (simp_all add: at_page_of_def)
  have w: "0 \<le> w" "w < 2 ^ 53" and last: "getLastLedger (cache s) = (Inr (number_of_int w), cache s)"
    using cu by (simp_all add: caught_up_with_def)
  have lat: "0 \<le> latest_at t" "latest_at t < 2 ^ 53" using latest_range [of t] by auto
  have cov: "covers (chain_at t) (cache s)"
  proof -
    have "covers (take k (chain_at (Suc t))) (cache s)" using at t by (simp add: at_page_of_def)
    moreover have "take k (chain_at (Suc t)) = chain_at t" using grows [of t] all by auto
    ultimately show ?thesis by simp
  qed
  define x where "x = (if w < h then h else latest_at t)"
  have x: "0 \<le> x" "x < 2 ^ 53" using w h lat by (auto simp: x_def)
  have cmp: "js_less (number_of_int w) (number_of_int h) \<longleftrightarrow> w < h"
    "js_less (number_of_int w) (number_of_int x) \<longleftrightarrow> w < x"
    using w h x by (simp_all add: js_less_exact)
  have run: "advance_watermark env (number_of_int h) (number_of_int (latest_at t)) s =
      (if w < x then on_cache (setLastLedger (env_driver env) (number_of_int x)) s else (Inr (), s))"
  proof -
    have "(if js_less (number_of_int w) (number_of_int h) then number_of_int h else number_of_int (latest_at t)) = number_of_int x"
      using cmp(1) by (simp add: x_def)
    then show ?thesis
      using last cmp(2) by (simp add: advance_watermark_def on_cache_def js_bind_def js_return_def Let_def)
  qed
  show thesis
  proof (cases "w < x")
    case False
    with run cu cov t show thesis by (intro that [of s w]) simp_all
  next
    case True
    let ?c = "snd (setLastLedger (env_driver env) (number_of_int x) (cache s))"
    have c: "?c = (cache s)\<lparr>meta := (meta (cache s))(''last_ledger'' \<mapsto> Some (number_to_string (number_of_int x)))\<rparr>"
      by (simp add: db.watermark_set)
    have "getLastLedger ?c = (Inr (number_of_int x), ?c)" using x by (intro db.watermark_get) simp
    moreover have "x \<le> latest_at t"
    proof (cases "w < h")
      case True
      then obtain t' where "t' < Suc t" "h \<le> latest_at t'" using at t by (auto simp: at_page_of_def)
      moreover have "latest_at t' \<le> latest_at t" using \<open>t' < Suc t\<close> by (simp add: latest_le)
      ultimately show ?thesis using True by (simp add: x_def)
    qed (simp add: x_def)
    then have "covers (filter (\<lambda>ce. ce_ledger ce \<le> x) (chain_at t')) (cache s)" if "Suc t \<le> t'" for t'
      using cov old_events [of t t'] that by (force simp: covers_def)
    ultimately have "caught_up x (s\<lparr>cache := ?c\<rparr>)"
      using cu x t unfolding caught_up_with_def by (simp add: c covers_def)
    moreover have "covers (chain_at t) ?c" using cov by (simp add: c covers_def)
    moreover have "on_cache (setLastLedger (env_driver env) (number_of_int x)) s = (Inr (), s\<lparr>cache := ?c\<rparr>)"
      by (simp add: on_cache_def db.watermark_set)
    ultimately show thesis using run True t by (intro that [of "s\<lparr>cache := ?c\<rparr>" x]) simp_all
  qed
qed

end

section \<open>Polls\<close>

context indexer_chain
begin

lemma serve_after: "serve_from ces (page_params env (Str (dec_int (int j))) first) = j"
  by (simp add: serve_from_def page_params_def)

lemma loop_step:
  assumes at: "at_cursor w h k s" and pos: "serve_from (chain_at (rpc_calls s)) (page_params env cursor first) = k"
  obtains (failed) e where "poll_loop (Suc n) env cursor first (number_of_int h) s = Some (Inl e, s\<lparr>rpc_calls := Suc (rpc_calls s)\<rparr>)"
        "env_get_events env (rpc_calls s) (page_params env cursor first) = Inl e"
    | (last) w' s' where "poll_loop (Suc n) env cursor first (number_of_int h) s = Some (Inr (), s')"
        "caught_up w' s'" "w \<le> w'" "covers (chain_at (rpc_calls s)) (cache s')" "rpc_calls s' = Suc (rpc_calls s)"
    | (more) s2 h2 where
        "poll_loop (Suc n) env cursor first (number_of_int h) s =
           poll_loop n env (Str (dec_int (int (k + PAGE_LIMIT)))) first (number_of_int h2) s2"
        "at_cursor w h2 (k + PAGE_LIMIT) s2" "rpc_calls s2 = Suc (rpc_calls s)" "k + PAGE_LIMIT \<le> length (chain_at (rpc_calls s))"
proof -
  let ?t = "rpc_calls s" and ?p = "page_params env cursor first" and ?s1 = "s\<lparr>rpc_calls := Suc (rpc_calls s)\<rparr>"
  consider (bad) e where "env_get_events env ?t ?p = Inl e"
    | (good) "env_get_events env ?t ?p = Inr (serve enc (chain_at ?t) (latest_at ?t) ?p)"
    using serves [of ?t ?p] by blast
  then show thesis
  proof cases
    case bad
    then show thesis by (intro failed) (simp_all add: getEvents_def)
  next
    case good
    define ces where "ces = take PAGE_LIMIT (drop k (chain_at ?t))"
    have limit: "rq_limit ?p = PAGE_LIMIT" by (simp add: page_params_def)
    have served: "serve enc (chain_at ?t) (latest_at ?t) ?p =
        \<lparr>rs_events = map (host_event enc) ces, rs_cursor = Str (dec_int (int (k + length ces))),
         rs_latest_ledger = number_of_int (latest_at ?t)\<rparr>"
      by (simp add: serve_def Let_def pos limit ces_def)
    obtain s2 h2 where run: "handle_page env (map (host_event enc) ces) (number_of_int h) ?s1 = (Inr (number_of_int h2), s2)"
      and at2: "at_cursor w h2 (k + length ces) s2" and calls: "rpc_calls s2 = Suc ?t"
      using page_step [OF at ces_def] by blast
    show thesis
    proof (cases "length ces < PAGE_LIMIT")
      case True
      have "k \<le> length (chain_at ?t)" using at by (simp add: at_page_of_def)
      with True have "k + length ces = length (chain_at ?t)" by (simp add: ces_def)
      from finish_step [OF at2 calls this] obtain w' s' where
        fin: "advance_watermark env (number_of_int h2) (number_of_int (latest_at ?t)) s2 = (Inr (), s')"
          "caught_up w' s'" "w \<le> w'" "covers (chain_at ?t) (cache s')" "rpc_calls s' = Suc ?t" by metis
      have "poll_loop (Suc n) env cursor first (number_of_int h) s = Some (Inr (), s')"
        using True by (simp add: getEvents_def good served run fin(1))
      then show thesis using fin by (intro last)
    next
      case False
      then have len: "length ces = PAGE_LIMIT" by (simp add: ces_def)
      have "poll_loop (Suc n) env cursor first (number_of_int h) s =
          poll_loop n env (Str (dec_int (int (k + PAGE_LIMIT)))) first (number_of_int h2) s2"
        using len by (simp add: getEvents_def good served run)
      moreover have "k + PAGE_LIMIT \<le> length (chain_at ?t)"
        using len unfolding ces_def PAGE_LIMIT_def by simp
      ultimately show thesis using at2 calls len by (intro more) simp_all
    qed
  qed
qed

lemma loop_keeps:
  assumes "at_cursor w h k s" and "serve_from (chain_at (rpc_calls s)) (page_params env cursor first) = k"
    and "poll_loop n env cursor first (number_of_int h) s = Some (r, s')"
  shows "(case r of
       Inl e \<Rightarrow> caught_up w s'
     | Inr u \<Rightarrow> \<exists>w' t. caught_up w' s' \<and> w \<le> w' \<and> rpc_calls s' = Suc t \<and> covers (chain_at t) (cache s'))
    \<and> rpc_calls s < rpc_calls s'"
  using assms
proof (induction n arbitrary: h k s cursor)
  case (Suc n)
  from Suc.prems(1,2) show ?case
  proof (cases rule: loop_step [where n = n])
    case (failed e)
    moreover have "caught_up w s" using Suc.prems(1) by (simp add: at_page_of_def)
    ultimately show ?thesis using Suc.prems(3) caught_up_call by auto
  next
    case (last w' s'')
    with Suc.prems(3) show ?thesis by auto
  next
    case (more s2 h2)
    from more(1) Suc.prems(3) have "poll_loop n env (Str (dec_int (int (k + PAGE_LIMIT)))) first (number_of_int h2) s2 = Some (r, s')"
      by simp
    from Suc.IH [OF more(2) serve_after this] more(3) show ?thesis by simp
  qed
qed simp

lemma loop_ends:
  assumes "at_cursor w h k s" and "serve_from (chain_at (rpc_calls s)) (page_params env cursor first) = k"
    and "\<And>t. length (chain_at t) < k + n * PAGE_LIMIT"
  shows "\<exists>r s'. poll_loop n env cursor first (number_of_int h) s = Some (r, s')"
  using assms
proof (induction n arbitrary: h k s cursor)
  case 0
  then show ?case by (simp add: at_page_of_def) (metis not_le order_refl)
next
  case (Suc n)
  from Suc.prems(1,2) show ?case
  proof (cases rule: loop_step [where n = n])
    case (more s2 h2)
    have "\<And>t. length (chain_at t) < (k + PAGE_LIMIT) + n * PAGE_LIMIT" using Suc.prems(3) by (simp add: algebra_simps)
    from Suc.IH [OF more(2) serve_after this] more(1) show ?thesis by simp
  qed auto
qed

lemma first_position:
  assumes safe: "safe_ledger chain_at l s"
  defines "k \<equiv> serve_from (chain_at (rpc_calls s)) (page_params env Null (number_of_int (l + 1)))"
  shows "seen_events chain_at k s" and "\<forall>ce\<in>set (take k (chain_at (rpc_calls s))). ce_ledger ce \<le> l"
proof -
  let ?C = "chain_at (rpc_calls s)"
  have l: "0 \<le> l" "l < 2 ^ 53" using safe by (simp_all add: safe_ledger_def)
  have less: "js_less (number_of_int (ce_ledger ce)) (number_of_int (l + 1)) \<longleftrightarrow> ce_ledger ce \<le> l"
    if "ce \<in> set ?C" for ce
    using js_less_exact [of "ce_ledger ce" "l + 1"] event_range [OF that] l by simp
  have k: "k = length (takeWhile (\<lambda>ce. ce_ledger ce \<le> l) ?C)"
    using less by (simp add: k_def serve_from_def page_params_def cong: takeWhile_cong)
  have prefix_k: "take k (chain_at t) = takeWhile (\<lambda>ce. ce_ledger ce \<le> l) ?C" "k \<le> length (chain_at t)" if "rpc_calls s \<le> t" for t
  proof -
    obtain new where "chain_at t = ?C @ new" using chain_grows [OF \<open>rpc_calls s \<le> t\<close>] by blast
    moreover have "k \<le> length ?C" unfolding k by (rule length_takeWhile_le)
    moreover have "take k ?C = takeWhile (\<lambda>ce. ce_ledger ce \<le> l) ?C" unfolding k by (rule takeWhile_eq_take [symmetric])
    ultimately show "take k (chain_at t) = takeWhile (\<lambda>ce. ce_ledger ce \<le> l) ?C" "k \<le> length (chain_at t)" by simp_all
  qed
  have "covers (takeWhile (\<lambda>ce. ce_ledger ce \<le> l) ?C) (cache s)"
  proof (rule covers_mono)
    show "covers (filter (\<lambda>ce. ce_ledger ce \<le> l) ?C) (cache s)" using safe by (simp add: safe_ledger_def)
    show "set (takeWhile (\<lambda>ce. ce_ledger ce \<le> l) ?C) \<subseteq> set (filter (\<lambda>ce. ce_ledger ce \<le> l) ?C)"
      by (auto dest: set_takeWhileD)
  qed simp
  then show "seen_events chain_at k s" unfolding seen_events_def using prefix_k by metis
  show "\<forall>ce\<in>set (take k ?C). ce_ledger ce \<le> l"
    unfolding prefix_k(1) [OF order_refl] by (blast dest: set_takeWhileD)
qed

lemma caught_up_safe: "caught_up w s \<Longrightarrow> safe_ledger chain_at w s"
  by (simp add: caught_up_with_def safe_ledger_def)

lemma at_first_page:
  assumes "caught_up w s"
  shows "at_cursor w w (serve_from (chain_at (rpc_calls s)) (page_params env Null (number_of_int (w + 1)))) s"
  using assms first_position [OF caught_up_safe [OF assms]]
  unfolding at_page_of_def seen_events_def by (simp add: caught_up_with_def)

text \<open>A poll starts behind the watermark.\<close>

lemma poll_run:
  assumes "caught_up w s"
  shows "poll n env s = map_option (\<lambda>(r, s2). case r of
        Inl e \<Rightarrow> console_line (''[indexer] poll failed: '' @ exn_message e) s2 | Inr _ \<Rightarrow> s2)
      (poll_loop n env Null (number_of_int (w + 1)) (number_of_int w) s)"
proof -
  have "js_add (number_of_int w) (Fin 1) = number_of_int (w + 1)"
    using assms js_add_exact [of w 1] number_of_int_exact [of 1] by (simp add: caught_up_with_def)
  then show ?thesis
    using assms by (simp add: poll_def caught_up_with_def on_cache_def js_bind_def js_return_def)
qed

text \<open>
  The guarantee: a poll keeps the invariant and never moves the watermark back; when it logs no
  failure, it has cached every event the server knew at its last call.
\<close>

lemma poll_keeps:
  assumes cu: "caught_up w s" and run: "poll n env s = Some s'"
  shows "\<exists>w'. caught_up w' s' \<and> w \<le> w'"
    and "console s' = console s \<Longrightarrow> \<exists>t. rpc_calls s' = Suc t \<and> covers (chain_at t) (cache s')"
proof -
  obtain r s2 where loop: "poll_loop n env Null (number_of_int (w + 1)) (number_of_int w) s = Some (r, s2)"
    and s': "s' = (case r of Inl e \<Rightarrow> console_line (''[indexer] poll failed: '' @ exn_message e) s2 | Inr _ \<Rightarrow> s2)"
    using run unfolding poll_run [OF cu] by fastforce
  note keep = loop_keeps [OF at_first_page [OF cu] refl loop]
  show "\<exists>w'. caught_up w' s' \<and> w \<le> w'" using keep s' by (cases r) auto
  show "\<exists>t. rpc_calls s' = Suc t \<and> covers (chain_at t) (cache s')" if c: "console s' = console s"
  proof (cases r)
    case (Inl e)
    then have "same_mark s s2" using loop poll_loop_failed by blast
    with Inl s' c have False by (simp add: same_mark_def console_line_def)
    then show ?thesis ..
  next
    case (Inr u)
    with keep s' show ?thesis by auto
  qed
qed

text \<open>Only the server can make a poll fail.\<close>

lemma loop_clean:
  assumes "at_cursor w h k s" and "serve_from (chain_at (rpc_calls s)) (page_params env cursor first) = k"
    and "poll_loop n env cursor first (number_of_int h) s = Some (r, s')"
    and up: "\<And>t p e. env_get_events env t p \<noteq> Inl e"
  shows "\<exists>u. r = Inr u"
  using assms(1-3)
proof (induction n arbitrary: h k s cursor)
  case (Suc n)
  from Suc.prems(1,2) show ?case
  proof (cases rule: loop_step [where n = n])
    case (failed e)
    with up show ?thesis by blast
  next
    case (last w' s'')
    with Suc.prems(3) show ?thesis by simp
  next
    case (more s2 h2)
    from more(1) Suc.prems(3) have "poll_loop n env (Str (dec_int (int (k + PAGE_LIMIT)))) first (number_of_int h2) s2 = Some (r, s')"
      by simp
    from Suc.IH [OF more(2) serve_after this] show ?thesis .
  qed
qed simp

lemma poll_clean:
  assumes cu: "caught_up w s" and run: "poll n env s = Some s'"
    and up: "\<And>t p e. env_get_events env t p \<noteq> Inl e"
  shows "console s' = console s"
proof -
  obtain r s2 where loop: "poll_loop n env Null (number_of_int (w + 1)) (number_of_int w) s = Some (r, s2)"
    and s': "s' = (case r of Inl e \<Rightarrow> console_line (''[indexer] poll failed: '' @ exn_message e) s2 | Inr _ \<Rightarrow> s2)"
    using run unfolding poll_run [OF cu] by fastforce
  obtain u where r: "r = Inr u" using loop_clean [OF at_first_page [OF cu] refl loop up] by blast
  obtain s3 top latest where m: "same_mark s s3" "advance_watermark env top latest s3 = (Inr u, s2)"
    using poll_loop_done [OF loop [unfolded r]] by metis
  have "console s2 = console s3"
    using m(2) by (cases rule: advance_cases [of env top latest s3]) auto
  with m(1) s' r show ?thesis by (simp add: same_mark_def)
qed

lemma poll_ends:
  assumes "caught_up w s" and "\<And>t. length (chain_at t) < n * PAGE_LIMIT"
  shows "\<exists>s'. poll n env s = Some s'"
proof -
  have "length (chain_at t) < k + n * PAGE_LIMIT" for t k using assms(2) [of t] by simp
  from loop_ends [OF at_first_page [OF assms(1)] refl this] show ?thesis
    unfolding poll_run [OF assms(1)] by auto
qed

end

end
