(* ===== verification/Mirror.thy ===== *)
theory Mirror
  imports Indexer_Complete
begin

text \<open>
  The cache against the contract: when every \<open>meter\<close> event of a log is cached once and every row
  records one, the rows of a device carry exactly the bills of the contract's log, so the sums
  the API reports are the contract's own counters.
\<close>

section \<open>Rows and events correspond\<close>

definition row_view :: "meter_row \<Rightarrow> string \<times> int \<times> int \<times> int option \<times> int option" where
  "row_view r = (mr_device_id r, mr_units r, mr_cost r, mr_balance_after r, mr_seq r)"

definition meter_view :: "meter \<Rightarrow> string \<times> int \<times> int \<times> int option \<times> int option" where
  "meter_view m = (m_device m, uint (m_units m), sint (m_cost m), Some (sint (m_balance m)), Some (uint (m_seq m)))"

definition metered_events :: "chain_event list \<Rightarrow> chain_event list" where
  "metered_events ces = filter (\<lambda>ce. meter_of (ce_event ce) \<noteq> None) ces"

lemma meters_metered_events: "meters (map ce_event ces) = map (\<lambda>ce. the (meter_of (ce_event ce))) (metered_events ces)"
  by (induction ces) (auto simp: meters_def metered_events_def map_filter_simps split: option.split)

text \<open>Lists keyed by the same distinct keys, with values determined by the key, agree up to order.\<close>

lemma keyed_mset_eq:
  assumes "distinct (map f xs)" and "distinct (map g ys)" and "set (map f xs) = set (map g ys)"
    and "\<And>x y. x \<in> set xs \<Longrightarrow> y \<in> set ys \<Longrightarrow> f x = g y \<Longrightarrow> u x = v y"
  shows "mset (map u xs) = mset (map v ys)"
proof -
  define F where "F k = v (SOME y. y \<in> set ys \<and> g y = k)" for k
  have "v y = F (g y)" if "y \<in> set ys" for y
  proof -
    let ?z = "SOME z. z \<in> set ys \<and> g z = g y"
    have "?z \<in> set ys \<and> g ?z = g y" by (rule someI [of _ y]) (use that in simp)
    then have "?z = y" using assms(2) that by (auto simp: distinct_map dest: inj_onD)
    then show ?thesis by (simp add: F_def)
  qed
  moreover have "u x = F (f x)" if "x \<in> set xs" for x
  proof -
    have "f x \<in> set (map g ys)" using that unfolding assms(3) [symmetric] by simp
    then obtain y where y: "y \<in> set ys" "g y = f x" by auto
    then have "u x = v y" using assms(4) [OF that y(1)] by simp
    then show ?thesis using calculation [OF y(1)] y(2) by simp
  qed
  ultimately have "map u xs = map F (map f xs)" "map v ys = map F (map g ys)" by simp_all
  moreover have "mset (map f xs) = mset (map g ys)"
    using assms(1-3) set_eq_iff_mset_eq_distinct by blast
  ultimately show ?thesis by (metis mset_map)
qed

lemma rows_are_events:
  assumes faithful: "faithful k ces c" and covers: "covers ces c" and "events_unique c"
    and ids: "distinct (map ce_id ces)"
  shows "mset (map row_view (meter_events c)) = mset (map meter_view (meters (map ce_event ces)))"
proof -
  have some: "mr_event_id r \<noteq> None" if "r \<in> set (meter_events c)" for r
    using faithful that by (fastforce simp: faithful_def records_def)
  then have "filter (\<lambda>i. i \<noteq> None) (map mr_event_id (meter_events c)) = map mr_event_id (meter_events c)"
    by (auto simp: filter_id_conv)
  then have rows: "distinct (map mr_event_id (meter_events c))"
    using assms(3) by (simp add: events_unique_def)
  have evs: "distinct (map (\<lambda>ce. Some (ce_id ce)) (metered_events ces))"
    using ids by (auto simp: metered_events_def distinct_map inj_on_def)
  have "mset (map row_view (meter_events c)) =
      mset (map (\<lambda>ce. meter_view (the (meter_of (ce_event ce)))) (metered_events ces))"
  proof (rule keyed_mset_eq [OF rows evs])
    show "set (map mr_event_id (meter_events c)) = set (map (\<lambda>ce. Some (ce_id ce)) (metered_events ces))"
    proof
      show "set (map mr_event_id (meter_events c)) \<subseteq> set (map (\<lambda>ce. Some (ce_id ce)) (metered_events ces))"
        using faithful by (fastforce simp: faithful_def records_def metered_events_def)
      show "set (map (\<lambda>ce. Some (ce_id ce)) (metered_events ces)) \<subseteq> set (map mr_event_id (meter_events c))"
        using covers by (auto simp: covers_def cached_ids_def metered_events_def)
    qed
    show "row_view r = meter_view (the (meter_of (ce_event ce)))"
      if r: "r \<in> set (meter_events c)" "ce \<in> set (metered_events ces)" "mr_event_id r = Some (ce_id ce)" for r ce
    proof -
      obtain ce' m where m: "ce' \<in> set ces" "meter_of (ce_event ce') = Some m" "records k ce' m r"
        using faithful r(1) by (auto simp: faithful_def)
      then have "ce_id ce' = ce_id ce" using r(3) by (simp add: records_def)
      then have "ce' = ce" using m(1) r(2) ids by (auto simp: metered_events_def distinct_map dest: inj_onD)
      with m show ?thesis by (simp add: row_view_def meter_view_def records_def)
    qed
  qed
  then show ?thesis by (simp add: meters_metered_events comp_def)
qed

lemma int_sum_list: "int (\<Sum>x\<leftarrow>xs. f x) = (\<Sum>x\<leftarrow>xs. int (f x))"
  by (induction xs) simp_all

text \<open>What follows for the rows of one device.\<close>

definition rows_of :: "string \<Rightarrow> db \<Rightarrow> meter_row list" where
  "rows_of d c = filter (\<lambda>r. d = mr_device_id r) (meter_events c)"

lemma device_rows_are_events:
  assumes "mset (map row_view (meter_events c)) = mset (map meter_view (meters evs))"
  shows "mset (map row_view (rows_of d c)) = mset (map meter_view (meters_of d evs))"
proof -
  have "mset (filter (\<lambda>v. fst v = d) (map row_view (meter_events c))) =
      mset (filter (\<lambda>v. fst v = d) (map meter_view (meters evs)))"
    using assms by simp
  then show ?thesis
    by (simp add: filter_map comp_def row_view_def meter_view_def rows_of_def meters_of_def eq_commute)
qed

lemma device_sums:
  assumes "mset (map row_view (rows_of d c)) = mset (map meter_view (meters_of d evs))"
  shows "(\<Sum>r\<leftarrow>rows_of d c. mr_units r) = int (metered d evs)"
    and "(\<Sum>r\<leftarrow>rows_of d c. mr_cost r) = billed d evs"
    and "length (rows_of d c) = length (meters_of d evs)"
    and "set (map mr_seq (rows_of d c)) = set (map (\<lambda>m. Some (uint (m_seq m))) (meters_of d evs))"
proof -
  have "(\<Sum>v\<leftarrow>map row_view (rows_of d c). fst (snd v)) = (\<Sum>v\<leftarrow>map meter_view (meters_of d evs). fst (snd v))"
    by (rule mset_eq_sum_map [OF assms])
  then show "(\<Sum>r\<leftarrow>rows_of d c. mr_units r) = int (metered d evs)"
    by (simp add: row_view_def meter_view_def comp_def metered_def int_sum_list)
  have "(\<Sum>v\<leftarrow>map row_view (rows_of d c). fst (snd (snd v))) = (\<Sum>v\<leftarrow>map meter_view (meters_of d evs). fst (snd (snd v)))"
    by (rule mset_eq_sum_map [OF assms])
  then show "(\<Sum>r\<leftarrow>rows_of d c. mr_cost r) = billed d evs"
    by (simp add: row_view_def meter_view_def comp_def billed_def)
  show "length (rows_of d c) = length (meters_of d evs)"
    using mset_eq_length [OF assms] by simp
  have "snd ` snd ` snd ` snd ` set (map row_view (rows_of d c)) = snd ` snd ` snd ` snd ` set (map meter_view (meters_of d evs))"
    using mset_eq_setD [OF assms] by simp
  then show "set (map mr_seq (rows_of d c)) = set (map (\<lambda>m. Some (uint (m_seq m))) (meters_of d evs))"
    by (simp add: image_image row_view_def meter_view_def)
qed

section \<open>The shape of the contract's log\<close>

text \<open>Every event the contract publishes is a \<open>meter\<close> event or has another symbol as its first topic.\<close>

definition shaped_event :: "event \<Rightarrow> bool" where
  "shaped_event e \<longleftrightarrow> meter_of e \<noteq> None
     \<or> (case topics e of ScSymbol t # _ \<Rightarrow> t \<noteq> TOPIC_METER | _ \<Rightarrow> False)"

definition log_shaped :: "'t cstate \<Rightarrow> bool" where
  "log_shaped s \<longleftrightarrow> list_all shaped_event (published s)"

interpretation shaped: ledger_invariant net log_shaped for net :: "'t network"
proof unfold_locales
  fix s s' :: "'t cstate" and tx d pk opr rate v
  assume "log_shaped s" "register_device tx d pk opr rate s = Inr (v, s')"
  then show "log_shaped s'"
    by (auto simp: log_shaped_def shaped_event_def TOPIC_DEVICE_REGISTERED_def TOPIC_METER_def dest!: register_device_Inr)
next
  fix s s' :: "'t cstate" and tx d amt v
  assume "log_shaped s" "deposit_funds net tx d amt s = Inr (v, s')"
  then show "log_shaped s'"
    by (auto simp: log_shaped_def shaped_event_def TOPIC_DEPOSIT_def TOPIC_METER_def dest!: deposit_funds_Inr)
next
  fix s s' :: "'t cstate" and tx d units seq ts sig cost
  assume "submit_reading net tx d units seq ts sig s = Inr (cost, s')" "log_shaped s"
  then show "log_shaped s'"
    by (cases rule: submit_reading_cases)
      (simp add: log_shaped_def shaped_event_def meter_of_def log_decode)
next
  fix s s' :: "'t cstate" and tx opr amt v
  assume "log_shaped s" "settle_balance net tx opr amt s = Inr (v, s')"
  then show "log_shaped s'"
    by (auto simp: log_shaped_def shaped_event_def TOPIC_SETTLEMENT_def TOPIC_METER_def dest!: settle_balance_Inr)
qed (auto simp: log_shaped_def same_data_def)

text \<open>So a reachable contract's log is one the indexer can read, as far as the amounts fit.\<close>

lemma published_plain:
  assumes "reachable net s" and "e \<in> set (published s)" and "\<And>m. meter_of e = Some m \<Longrightarrow> cacheable m"
  shows "plain_event e"
proof -
  have same: "METER_TOPIC = TOPIC_METER" by (simp add: METER_TOPIC_def TOPIC_METER_def)
  have "shaped_event e"
    using shaped.inv_reachable [OF assms(1)] assms(2) by (simp add: log_shaped_def list_all_iff)
  then show ?thesis
    using assms(3) unfolding shaped_event_def plain_event_def same by (cases "meter_of e") simp_all
qed

text \<open>The latest sequence number of the cache is the contract's counter.\<close>

lemma latest_seq_of_log:
  assumes "map (\<lambda>m. unat (m_seq m)) (meters_of d evs) = [1..<Suc (length (meters_of d evs))]"
    and "set (map mr_seq (rows_of d c)) = set (map (\<lambda>m. Some (uint (m_seq m))) (meters_of d evs))"
  shows "(case sql_max (map mr_seq (rows_of d c)) of None \<Rightarrow> 0 | Some n \<Rightarrow> n) = int (length (meters_of d evs))"
proof -
  have "set (map (\<lambda>m. Some (uint (m_seq m))) (meters_of d evs)) =
      (\<lambda>n. Some (int n)) ` set (map (\<lambda>m. unat (m_seq m)) (meters_of d evs))"
    by (simp add: image_image)
  then have seqs: "set (map mr_seq (rows_of d c)) = (\<lambda>n. Some (int n)) ` {1..<Suc (length (meters_of d evs))}"
    unfolding assms(2) assms(1) set_upt .
  show ?thesis
  proof (cases "meters_of d evs = []")
    case True
    with seqs have "sql_max (map mr_seq (rows_of d c)) = None" by (simp add: sql_max_None)
    with True show ?thesis by simp
  next
    case False
    then have "Some (int (length (meters_of d evs))) \<in> set (map mr_seq (rows_of d c))"
      unfolding seqs by (intro image_eqI [OF refl]) (cases "meters_of d evs"; simp)
    moreover then obtain n where n: "sql_max (map mr_seq (rows_of d c)) = Some n"
      by (cases "sql_max (map mr_seq (rows_of d c))") (auto simp only: sql_max_None option.distinct)
    moreover have "n \<le> int (length (meters_of d evs))"
      using sql_max_Some [OF n] unfolding seqs by auto
    ultimately have "n = int (length (meters_of d evs))" using sql_max_Some [OF n] by (simp add: order_antisym)
    with n show ?thesis by simp
  qed
qed

end
