(* ===== verification/Service.thy ===== *)
theory Service
  imports Api Telemetry Mirror
begin

text \<open>
  The process: its configuration (\<open>backend/src/config.js\<close>), the wiring of the components and the
  shutdown (\<open>backend/src/index.js\<close>), and the migration script (\<open>backend/src/db/migrate.js\<close>).
\<close>

section \<open>Configuration\<close>

text \<open>\<open>process.env.K || d\<close>: an empty variable counts as absent.\<close>

definition env_or :: "(string \<Rightarrow> string option) \<Rightarrow> string \<Rightarrow> string \<Rightarrow> string" where
  "env_or env k d = (case env k of None \<Rightarrow> d | Some v \<Rightarrow> if v = [] then d else v)"

definition env_number :: "(string \<Rightarrow> string option) \<Rightarrow> string \<Rightarrow> int \<Rightarrow> js_number" where
  "env_number env k d = (case env k of None \<Rightarrow> number_of_int d
     | Some v \<Rightarrow> if v = [] then number_of_int d else number_of_string v)"

record config =
  sorobanRpcUrl :: string
  networkPassphrase :: string
  contractId :: string
  relayerSecret :: string
  pollIntervalMs :: js_number
  dbPath :: string
  databaseUrl :: "string option"
  httpPort :: js_number
  wsPort :: js_number
  frontendDist :: string
  corsOrigin :: string
  rateLimitWindowMs :: js_number
  rateLimitMax :: js_number

definition read_config :: "(string \<Rightarrow> string option) \<Rightarrow> config" where
  "read_config env = \<lparr>
     sorobanRpcUrl = env_or env ''SOROBAN_RPC_URL'' ''https://soroban-testnet.stellar.org'',
     networkPassphrase = env_or env ''NETWORK_PASSPHRASE'' ''Test SDF Network ; September 2015'',
     contractId = env_or env ''CONTRACT_ID'' [],
     relayerSecret = env_or env ''RELAYER_SECRET'' [],
     pollIntervalMs = env_number env ''POLL_INTERVAL_MS'' 5000,
     dbPath = env_or env ''DB_PATH'' ''./data/billing.db'',
     databaseUrl = (let u = env_or env ''DATABASE_URL'' [] in if u = [] then None else Some u),
     httpPort = env_number env ''HTTP_PORT'' 8080,
     wsPort = env_number env ''WS_PORT'' 8080,
     frontendDist = env_or env ''FRONTEND_DIST'' ''../frontend/dist'',
     corsOrigin = env_or env ''CORS_ORIGIN'' [],
     rateLimitWindowMs = env_number env ''RATE_LIMIT_WINDOW_MS'' 60000,
     rateLimitMax = env_number env ''RATE_LIMIT_MAX'' 60\<rparr>"

definition pollEnabled :: "config \<Rightarrow> bool" where
  "pollEnabled c \<longleftrightarrow> contractId c \<noteq> []"

definition config_kind :: "config \<Rightarrow> dialect" where
  "config_kind c = store_kind ((case databaseUrl c of None \<Rightarrow> Null | Some u \<Rightarrow> Str u) :: unit jsval)"

definition gateway_config_of :: "config \<Rightarrow> gateway_config" where
  "gateway_config_of c = \<lparr>cfg_contract_id = contractId c, cfg_relayer_secret = relayerSecret c,
     cfg_passphrase = networkPassphrase c\<rparr>"

section \<open>Wiring\<close>

text \<open>The indexer of the service: its callback publishes on the bus, whose subscriber is the hub.\<close>

definition service_env ::
    "config \<Rightarrow> 'x sdk \<Rightarrow> 'x driver \<Rightarrow> (nat \<Rightarrow> 'x rpc_params \<Rightarrow> exn + 'x rpc_response) \<Rightarrow> (nat \<Rightarrow> string) \<Rightarrow>
     ('x rpc_event \<Rightarrow> exn + string) \<Rightarrow> ('x, hub) indexer_env" where
  "service_env c sdk drv server now stringify = \<lparr>env_sdk = sdk, env_driver = drv,
     env_contract_id = contractId c, env_poll_interval = pollIntervalMs c, env_get_events = server,
     env_now = now, env_stringify = stringify, env_on_event = service_on_event\<rparr>"

definition empty_hub :: hub where
  "empty_hub = \<lparr>clients = [], heartbeat_on = True, hub_console = []\<rparr>"

definition boot :: "('x, hub) indexer_env \<Rightarrow> db \<Rightarrow> bool \<times> hub indexer" where
  "boot env s = start env \<lparr>cache = open_store (env_driver env) s, world = empty_hub, rpc_calls = 0, ticks = 0,
     timer = None, intervals = [], next_timer = 0, running = False, console = []\<rparr>"

definition shutdown :: "hub indexer \<Rightarrow> hub indexer" where
  "shutdown s = (let s1 = stop s in s1\<lparr>world := hub_close (world s1)\<rparr>)"

section \<open>Migration\<close>

definition migrate_message :: "string option \<Rightarrow> string option \<Rightarrow> string" where
  "migrate_message arg url0 =
     (let dbPath = (case arg of None \<Rightarrow> ''./data/billing.db'' | Some p \<Rightarrow> if p = [] then ''./data/billing.db'' else p);
          url = (case url0 of None \<Rightarrow> [] | Some u \<Rightarrow> u)
      in if url \<noteq> [] then ''Migrations applied (postgres '' @ last (split_on (CHR ''@'') url) @ '')''
         else ''Migrations applied (sqlite '' @ dbPath @ '')'')"

text \<open>The script: what it prints, and the cache it leaves behind, opened and closed again.\<close>

definition migrate :: "(dialect \<Rightarrow> 'x driver) \<Rightarrow> string option \<Rightarrow> string option \<Rightarrow> db \<Rightarrow> string \<times> db" where
  "migrate drivers arg url s =
     (migrate_message arg url,
      open_store (drivers (store_kind ((case url of None \<Rightarrow> Null | Some u \<Rightarrow> Str u) :: unit jsval))) s)"

lemma split_on_nonempty [simp]: "split_on d s \<noteq> []"
  by (induction s) (auto split: list.splits)

lemma split_on_two: "tl (split_on d (s @ d # t)) \<noteq> []"
  by (induction s) (auto split: list.split)

lemma split_on_append: "last (split_on d (s @ d # t)) = last (split_on d t)"
proof (induction s)
  case (Cons c s)
  obtain w ws where w: "split_on d (s @ d # t) = w # ws" by (cases "split_on d (s @ d # t)") auto
  with split_on_two [of d s t] have "ws \<noteq> []" by simp
  with w Cons.IH show ?case by auto
qed simp

lemma split_on_none: "d \<notin> set t \<Longrightarrow> split_on d t = [t]"
  by (induction t) auto

section \<open>The hub never hears of a bill\<close>

lemma bigint_or_BigInt: "bigint_or sdk v (BigInt k) = Inr x \<Longrightarrow> \<exists>n. x = BigInt n"
  by (auto simp: bigint_or_def bindE_Inr_iff split: if_splits)

lemma service_on_event_bigint:
  assumes "er_units row = BigInt n"
  shows "service_on_event row h =
    (Inr (), hub_log ''[telemetry] subscriber error: Do not know how to serialize a BigInt'' h)"
  by (simp add: service_on_event_def bus_publish_def service_bus_def subscribe_def js_bind_def js_try_def
      broadcast_bigint [OF assms] js_simps)

definition same_clients :: "hub indexer \<Rightarrow> hub indexer \<Rightarrow> bool" where
  "same_clients s s' \<longleftrightarrow> clients (world s') = clients (world s)"

interpretation same_clients: respected same_clients
  by unfold_locales (simp_all add: same_clients_def)

lemma handleEvent_same_clients:
  assumes "env_on_event env = service_on_event"
  shows "keeps same_clients (handleEvent env event)"
proof -
  have ingest: "keeps same_clients (on_cache m)" for m :: "unit db_op"
    by (simp add: keeps_def same_clients_def on_cache_def split_beta)
  have now: "keeps same_clients (now_iso env)" by (simp add: keeps_def same_clients_def now_iso_def)
  have event: "keeps same_clients (on_world (env_on_event env row))" if "er_units row = BigInt n" for row n
    using service_on_event_bigint [OF that]
    by (simp add: assms keeps_def same_clients_def on_world_def hub_log_def)
  show ?thesis
    unfolding handleEvent_def Let_def
    apply (rule same_clients.keeps_lift_bind)
    apply (rule same_clients.keeps_if [OF same_clients.keeps_pure(1)])
    apply (rule same_clients.keeps_lift_bind)+
    apply (rule same_clients.keeps_bind [OF now])
    apply (rule same_clients.keeps_lift_bind)
    apply (rule same_clients.keeps_bind [OF ingest])
    apply (drule bigint_or_BigInt, erule exE)
    apply (rule event)
    apply simp
    done
qed

lemma page_same_clients:
  assumes "env_on_event env = service_on_event"
  shows "keeps same_clients (handle_page env events highest)"
proof (induction events arbitrary: highest)
  case Nil
  then show ?case using same_clients.keeps_pure(1) by simp
next
  case (Cons event events)
  show ?case unfolding handle_page.simps
    by (intro same_clients.keeps_bind handleEvent_same_clients [OF assms] same_clients.keeps_pure Cons.IH)
qed

interpretation stream: poll_frame same_clients "service_env c sdk drv server now stringify"
  for c :: config and sdk :: "'x sdk" and drv server now stringify
proof unfold_locales
  show "keeps same_clients (handle_page (service_env c sdk drv server now stringify) events highest)" for events highest
    by (rule page_same_clients) (simp add: service_env_def)
  show "keeps same_clients (advance_watermark (service_env c sdk drv server now stringify) highest latest)" for highest latest
    unfolding keeps_def
  proof
    fix s
    show "same_clients s (snd (advance_watermark (service_env c sdk drv server now stringify) highest latest s))"
      by (cases rule: advance_cases [of "service_env c sdk drv server now stringify" highest latest s])
        (simp_all add: same_clients_def)
  qed
qed (simp_all add: same_clients_def keeps_def getEvents_def console_line_def)

end
