(* ===== verification/Http_App.thy ===== *)
theory Http_App
  imports Service
begin

text \<open>
  \<open>createApi\<close> of \<open>backend/src/api/server.js\<close> as a whole: the layers of the Express application in
  the order they are installed, and the process that serves requests with it while polls of the
  indexer run over the same cache. The packages it installs (\<open>cors\<close>, \<open>express.json\<close>,
  \<open>express-rate-limit\<close>, \<open>express.static\<close>) and Express' matching of paths are parameters.
\<close>

section \<open>Requests and layers\<close>

record 'x request =
  rq_method :: string
  rq_path :: string
  rq_origin :: "string option"
  rq_query :: "'x jsval"
  rq_raw :: string
  rq_body :: "'x jsval"

text \<open>
  What the packages do: whether \<open>cors\<close> answers the request itself as a preflight; the body
  \<open>express.json\<close> parses; whether the rate limiter, with its window and limit, admits the request;
  whether a path is under a mount point; the parameters with which it matches a route, whose
  decoding may fail; the files.
\<close>

record ('x, 'l) packages =
  preflight :: "'x request \<Rightarrow> bool"
  parse_body :: "'x request \<Rightarrow> exn + 'x jsval"
  admit :: "js_number \<Rightarrow> js_number \<Rightarrow> 'x request \<Rightarrow> 'l \<Rightarrow> bool \<times> 'l"
  under :: "string \<Rightarrow> string \<Rightarrow> bool"
  route_params :: "string \<Rightarrow> string \<Rightarrow> (exn + string list) option"
  dir_exists :: "string \<Rightarrow> bool"
  static_file :: "string \<Rightarrow> 'x request \<Rightarrow> 'x reply option"
  index_page :: "string \<Rightarrow> 'x reply"
  default_answer :: "'x request \<Rightarrow> 'x reply"

record ('n, 'l) site =
  st_gateway :: "'n gateway"
  st_limits :: 'l

definition on_gateway :: "('n gateway, 'a) js \<Rightarrow> (('n, 'l) site, 'a) js" where
  "on_gateway m s = (case m (st_gateway s) of (r, g) \<Rightarrow> (r, s\<lparr>st_gateway := g\<rparr>))"

text \<open>
  What a layer makes of a request: it passes it on, answers it, or hands an error to the next
  error handler. A rejection of an asynchronous handler is none of these (\<open>Inl\<close>): Express 4 does
  not await handlers.
\<close>

datatype 'x flow = Next "'x request" | Send "'x reply" | Fail exn

type_synonym ('x, 'n, 'l) layer = "'x request \<Rightarrow> (('n, 'l) site, 'x flow) js"

fun run_layers :: "('x, 'n, 'l) layer list \<Rightarrow> ('x, 'n, 'l) layer" where
  "run_layers [] rq = js_return (Next rq)"
| "run_layers (l # ls) rq = js_bind (l rq) (\<lambda>f. case f of Next rq' \<Rightarrow> run_layers ls rq' | _ \<Rightarrow> js_return f)"

definition cors_layer :: "('x, 'l) packages \<Rightarrow> string list \<Rightarrow> ('x, 'n, 'l) layer" where
  "cors_layer pk allowed rq = js_return
     (case cors_check allowed (rq_origin rq) of
        Inl e \<Rightarrow> Fail e
      | Inr _ \<Rightarrow> if preflight pk rq then Send \<lparr>reply_status = 204, reply_body = Undef\<rparr> else Next rq)"

definition json_layer :: "('x, 'l) packages \<Rightarrow> ('x, 'n, 'l) layer" where
  "json_layer pk rq = js_return
     (case parse_body pk rq of Inl e \<Rightarrow> Fail e | Inr b \<Rightarrow> Next (rq\<lparr>rq_body := b\<rparr>))"

text \<open>\<open>app.get(pattern, handler)\<close>, which also serves \<open>HEAD\<close>.\<close>

definition get_layer ::
    "('x, 'l) packages \<Rightarrow> string \<Rightarrow> (string list \<Rightarrow> 'x request \<Rightarrow> 'x reply db_op) \<Rightarrow> ('x, 'n, 'l) layer" where
  "get_layer pk pattern handler rq =
     (if rq_method rq \<notin> {''GET'', ''HEAD''} then js_return (Next rq)
      else case route_params pk pattern (rq_path rq) of
          None \<Rightarrow> js_return (Next rq)
        | Some (Inl e) \<Rightarrow> js_return (Fail e)
        | Some (Inr ps) \<Rightarrow> js_bind (on_gateway (on_db (handler ps rq))) (\<lambda>r. js_return (Send r)))"

definition too_many :: "'x reply" where
  "too_many = error_reply 429 ''too many telemetry submissions; slow down''"

definition limit_layer :: "('x, 'l) packages \<Rightarrow> config \<Rightarrow> ('x, 'n, 'l) layer" where
  "limit_layer pk cfg rq s =
     (if under pk ''/api/readings'' (rq_path rq)
      then case admit pk (rateLimitWindowMs cfg) (rateLimitMax cfg) rq (st_limits s) of
          (ok, l) \<Rightarrow> (Inr (if ok then Next rq else Send too_many), s\<lparr>st_limits := l\<rparr>)
      else (Inr (Next rq), s))"

definition readings_layer ::
    "('x, 'l) packages \<Rightarrow> 'x node \<Rightarrow> ('n, 'p) stellar \<Rightarrow> 'x driver \<Rightarrow> config \<Rightarrow> string \<Rightarrow> ('x, 'n, 'l) layer" where
  "readings_layer pk node sdk drv cfg now rq =
     (if rq_method rq = ''POST'' \<and> route_params pk ''/api/readings'' (rq_path rq) = Some (Inr [])
      then js_bind (on_gateway (post_reading node sdk drv (gateway_config_of cfg) now (rq_body rq))) (\<lambda>r. js_return (Send r))
      else js_return (Next rq))"

section \<open>The application\<close>

text \<open>
  The layers with the handlers of the routes that use the store: the gateway's and the three
  reading endpoints.
\<close>

definition routed_layers ::
    "('x, 'l) packages \<Rightarrow> config option \<Rightarrow> (config \<Rightarrow> ('x, 'n, 'l) layer) \<Rightarrow> (string list \<Rightarrow> 'x request \<Rightarrow> 'x reply db_op) \<Rightarrow>
     (string list \<Rightarrow> 'x request \<Rightarrow> 'x reply db_op) \<Rightarrow> (string list \<Rightarrow> 'x request \<Rightarrow> 'x reply db_op) \<Rightarrow> ('x, 'n, 'l) layer list" where
  "routed_layers pk cfg readings metrics balance devices =
     [cors_layer pk (allowed_origins (map_option corsOrigin cfg)), json_layer pk,
      get_layer pk ''/health'' (\<lambda>ps rq. js_return health)]
   @ (case cfg of None \<Rightarrow> [] | Some c \<Rightarrow> [limit_layer pk c, readings c])
   @ [get_layer pk ''/api/devices/:id/metrics'' metrics,
      get_layer pk ''/api/devices/:id/balance'' balance,
      get_layer pk ''/api/devices'' devices]"

definition api_layers ::
    "('x, 'l) packages \<Rightarrow> 'x node \<Rightarrow> ('n, 'p) stellar \<Rightarrow> 'x driver \<Rightarrow> config option \<Rightarrow> string \<Rightarrow> ('x, 'n, 'l) layer list" where
  "api_layers pk node sdk drv cfg now =
     routed_layers pk cfg (\<lambda>c. readings_layer pk node sdk drv c now) (\<lambda>ps rq. get_metrics drv (hd ps) (rq_query rq))
       (\<lambda>ps rq. get_device_balance drv (hd ps)) (\<lambda>ps rq. get_devices drv)"

text \<open>The files, installed after the error handler.\<close>

definition frontend_answer :: "('x, 'l) packages \<Rightarrow> config option \<Rightarrow> 'x request \<Rightarrow> 'x reply option" where
  "frontend_answer pk cfg rq =
     (case cfg of
        None \<Rightarrow> None
      | Some c \<Rightarrow>
        if frontendDist c \<noteq> [] \<and> dir_exists pk (frontendDist c)
        then (case static_file pk (frontendDist c) rq of
            Some r \<Rightarrow> Some r
          | None \<Rightarrow> if rq_method rq \<in> {''GET'', ''HEAD''} \<and> spa_route (rq_path rq)
              then Some (index_page pk (frontendDist c)) else None)
        else None)"

definition report_error :: "exn \<Rightarrow> (('n, 'l) site, 'x reply) js" where
  "report_error e s = (case error_middleware e (gw_console (st_gateway s)) of
     (r, c) \<Rightarrow> (Inr r, s\<lparr>st_gateway := (st_gateway s)\<lparr>gw_console := c\<rparr>\<rparr>))"

definition answer_request ::
    "('x, 'l) packages \<Rightarrow> config option \<Rightarrow> ('x, 'n, 'l) layer list \<Rightarrow> 'x request \<Rightarrow> (('n, 'l) site, 'x reply) js" where
  "answer_request pk cfg layers rq =
     js_bind (run_layers layers rq) (\<lambda>f. case f of
         Send r \<Rightarrow> js_return r
       | Fail e \<Rightarrow> report_error e
       | Next rq' \<Rightarrow> js_return (case frontend_answer pk cfg rq' of Some r \<Rightarrow> r | None \<Rightarrow> default_answer pk rq'))"

definition handle_request ::
    "('x, 'l) packages \<Rightarrow> 'x node \<Rightarrow> ('n, 'p) stellar \<Rightarrow> 'x driver \<Rightarrow> config option \<Rightarrow> string \<Rightarrow> 'x request \<Rightarrow>
     (('n, 'l) site, 'x reply) js" where
  "handle_request pk node sdk drv cfg now rq = answer_request pk cfg (api_layers pk node sdk drv cfg now) rq"

lemmas app_defs = handle_request_def answer_request_def api_layers_def routed_layers_def cors_layer_def json_layer_def
  get_layer_def limit_layer_def readings_layer_def

end
