(* ===== verification/Overlap.thy ===== *)
theory Overlap
  imports Indexer_Complete
begin

text \<open>
  Overlapping polls. \<open>start\<close> (\<open>backend/src/indexer/indexer.js\<close>) calls \<open>poll\<close> once and then at every
  tick of the interval, without waiting for the previous call: several polls run at a time, and
  one goes on where another awaits. Here a poll is a machine whose steps are the stretches
  between its awaits, and any interleaving of any number of them keeps the cache complete up to
  the watermark; only the watermark itself may go back. An event, from its decoding to its
  callback, is one step: its only await is the insertion.
\<close>

section \<open>A poll as a machine\<close>

datatype 'x poller =
    Starting
  | Started js_number
  | Paging "'x jsval" js_number js_number
  | Handling "'x rpc_event list" js_number js_number "'x rpc_response"
  | Finishing js_number js_number
  | Storing js_number
  | Done

definition poll_failed :: "exn \<Rightarrow> 'w indexer \<Rightarrow> 'x poller \<times> 'w indexer" where
  "poll_failed e s = (Done, console_line (''[indexer] poll failed: '' @ exn_message e) s)"

fun poller_step :: "('x, 'w) indexer_env \<Rightarrow> 'x poller \<Rightarrow> 'w indexer \<Rightarrow> 'x poller \<times> 'w indexer" where
  "poller_step env Starting s =
     (case on_cache getLastLedger s of
        (Inl e, s1) \<Rightarrow> poll_failed e s1
      | (Inr l, s1) \<Rightarrow> (Started (js_add l (Fin 1)), s1))"
| "poller_step env (Started first) s =
     (case on_cache getLastLedger s of
        (Inl e, s1) \<Rightarrow> poll_failed e s1
      | (Inr highest, s1) \<Rightarrow> (Paging Null first highest, s1))"
| "poller_step env (Paging cursor first highest) s =
     (case getEvents env (page_params env cursor first) s of
        (Inl e, s1) \<Rightarrow> poll_failed e s1
      | (Inr res, s1) \<Rightarrow> (Handling (rs_events res) first highest res, s1))"
| "poller_step env (Handling (event # events) first highest res) s =
     (case handle_page env [event] highest s of
        (Inl e, s1) \<Rightarrow> poll_failed e s1
      | (Inr highest', s1) \<Rightarrow> (Handling events first highest' res, s1))"
| "poller_step env (Handling [] first highest res) s =
     (if length (rs_events res) < PAGE_LIMIT \<or> \<not> truthy (rs_cursor res)
      then (Finishing highest (rs_latest_ledger res), s)
      else (Paging (rs_cursor res) first highest, s))"
| "poller_step env (Finishing highest latest) s =
     (case on_cache getLastLedger s of
        (Inl e, s1) \<Rightarrow> poll_failed e s1
      | (Inr lastLedger, s1) \<Rightarrow>
        (let newWatermark = (if js_less lastLedger highest then highest else latest) in
         if js_less lastLedger newWatermark then (Storing newWatermark, s1) else (Done, s1)))"
| "poller_step env (Storing newWatermark) s =
     (case on_cache (setLastLedger (env_driver env) newWatermark) s of
        (Inl e, s1) \<Rightarrow> poll_failed e s1
      | (Inr _, s1) \<Rightarrow> (Done, s1))"
| "poller_step env Done s = (Done, s)"

text \<open>The machine alone, for a number of steps.\<close>

fun poller_run :: "nat \<Rightarrow> ('x, 'w) indexer_env \<Rightarrow> 'x poller \<Rightarrow> 'w indexer \<Rightarrow> 'x poller \<times> 'w indexer" where
  "poller_run 0 env p s = (p, s)"
| "poller_run (Suc n) env p s = (case poller_step env p s of (p', s') \<Rightarrow> poller_run n env p' s')"

lemma poller_run_add: "poller_run (m + n) env p s = (case poller_run m env p s of (p', s') \<Rightarrow> poller_run n env p' s')"
  by (induction m arbitrary: p s) (simp_all split: prod.split)

text \<open>
  The process: the polls in flight, in the order they were started, over the shared state. The
  interval starts another, and any of them takes a step.
\<close>

inductive polls_step :: "('x, 'w) indexer_env \<Rightarrow> 'x poller list \<times> 'w indexer \<Rightarrow> 'x poller list \<times> 'w indexer \<Rightarrow> bool"
  for env where
  fires: "polls_step env (ps, s) (ps @ [Starting], s)"
| advances: "i < length ps \<Longrightarrow> poller_step env (ps ! i) s = (p, s') \<Longrightarrow> polls_step env (ps, s) (ps[i := p], s')"

inductive polls_reach :: "('x, 'w) indexer_env \<Rightarrow> 'x poller list \<times> 'w indexer \<Rightarrow> 'x poller list \<times> 'w indexer \<Rightarrow> bool"
  for env where
  now: "polls_reach env c c"
| then_step: "polls_reach env c1 c2 \<Longrightarrow> polls_step env c2 c3 \<Longrightarrow> polls_reach env c1 c3"

inductive_cases polls_stepE: "polls_step env (ps, s) c"

section \<open>A poll is the machine run to its end\<close>

definition poller_ends :: "('x, 'w) indexer_env \<Rightarrow> 'x poller \<Rightarrow> 'w indexer \<Rightarrow> 'w indexer \<Rightarrow> bool" where
  "poller_ends env p s s' \<longleftrightarrow> (\<exists>n. poller_run n env p s = (Done, s'))"

lemma poller_ends_step: "poller_step env p s = (p1, s1) \<Longrightarrow> poller_ends env p1 s1 s' \<Longrightarrow> poller_ends env p s s'"
  unfolding poller_ends_def by (metis poller_run.simps(2) case_prod_conv)

lemma poller_ends_Done [intro]: "poller_ends env Done s s"
  unfolding poller_ends_def by (intro exI [of _ 0]) simp

lemma handle_page_split:
  "handle_page env (event # events) h s =
     (case handle_page env [event] h s of (Inl e, s1) \<Rightarrow> (Inl e, s1) | (Inr h1, s1) \<Rightarrow> handle_page env events h1 s1)"
  by (simp add: js_bind_def js_return_def split: prod.split sum.split)

lemma handling_ends:
  assumes "handle_page env events h s = (r, s1)"
    and "case r of Inl e \<Rightarrow> s' = console_line (''[indexer] poll failed: '' @ exn_message e) s1
       | Inr h1 \<Rightarrow> poller_ends env (Handling [] first h1 res) s1 s'"
  shows "poller_ends env (Handling events first h res) s s'"
  using assms
proof (induction events arbitrary: h s)
  case Nil
  then show ?case by (auto simp: js_return_def)
next
  case (Cons event events)
  obtain r1 s2 where one: "handle_page env [event] h s = (r1, s2)" by fastforce
  show ?case
  proof (cases r1)
    case (Inl e)
    then have "r = Inl e" "s1 = s2" using Cons.prems(1) one by (simp_all only: handle_page_split [of env event events] prod.case sum.case prod.inject)
    then show ?thesis
      using Cons.prems(2) one Inl by (intro poller_ends_step [of env _ s Done "console_line (''[indexer] poll failed: '' @ exn_message e) s2"])
        (auto simp: poll_failed_def simp del: handle_page.simps)
  next
    case (Inr h1)
    then have "handle_page env events h1 s2 = (r, s1)"
      using Cons.prems(1) one by (simp only: handle_page_split [of env event events] prod.case sum.case)
    from Cons.IH [OF this Cons.prems(2)] show ?thesis
      using one Inr by (intro poller_ends_step [of env _ s "Handling events first h1 res" s2]) (simp del: handle_page.simps)
  qed
qed


lemma finishing_ends:
  assumes "advance_watermark env h latest s = (r, s1)"
  shows "poller_ends env (Finishing h latest) s
    (case r of Inl e \<Rightarrow> console_line (''[indexer] poll failed: '' @ exn_message e) s1 | Inr _ \<Rightarrow> s1)"
proof -
  obtain r0 s0 where read: "on_cache getLastLedger s = (r0, s0)" by fastforce
  show ?thesis
  proof (cases r0)
    case (Inl e)
    with read assms have "r = Inl e" "s1 = s0" by (simp_all add: advance_watermark_def js_bind_def)
    then show ?thesis using read Inl by (intro poller_ends_step [OF _ poller_ends_Done]) (simp add: poll_failed_def)
  next
    case (Inr l)
    define w where "w = (if js_less l h then h else latest)"
    show ?thesis
    proof (cases "js_less l w")
      case False
      with read Inr assms have "r = Inr ()" "s1 = s0"
        by (simp_all add: advance_watermark_def js_bind_def js_return_def Let_def w_def split: if_splits)
      then show ?thesis
        using read Inr False by (intro poller_ends_step [OF _ poller_ends_Done]) (simp add: Let_def w_def)
    next
      case True
      have go: "poller_step env (Finishing h latest) s = (Storing w, s0)"
        using read Inr True by (simp add: Let_def w_def)
      have set: "on_cache (setLastLedger (env_driver env) w) s0 = (r, s1)"
        using read Inr assms True by (simp add: advance_watermark_def js_bind_def Let_def w_def)
      show ?thesis
        by (rule poller_ends_step [OF go], rule poller_ends_step [OF _ poller_ends_Done])
          (simp add: set poll_failed_def split: sum.split)
    qed
  qed
qed

lemma paging_ends:
  assumes "poll_loop n env cursor first h s = Some (r, s1)"
  shows "poller_ends env (Paging cursor first h) s
    (case r of Inl e \<Rightarrow> console_line (''[indexer] poll failed: '' @ exn_message e) s1 | Inr _ \<Rightarrow> s1)"
  using assms
proof (induction n arbitrary: cursor h s)
  case (Suc n)
  obtain r0 s0 where got: "getEvents env (page_params env cursor first) s = (r0, s0)" by fastforce
  show ?case
  proof (cases r0)
    case (Inl e)
    with got Suc.prems have "r = Inl e" "s1 = s0" by simp_all
    then show ?thesis using got Inl by (intro poller_ends_step [OF _ poller_ends_Done]) (simp add: poll_failed_def)
  next
    case (Inr res)
    obtain r2 s2 where page: "handle_page env (rs_events res) h s0 = (r2, s2)" by fastforce
    have go: "poller_step env (Paging cursor first h) s = (Handling (rs_events res) first h res, s0)"
      using got Inr by simp
    show ?thesis
    proof (rule poller_ends_step [OF go], rule handling_ends [OF page], cases r2)
      case (Inl e)
      with got \<open>r0 = Inr res\<close> page Suc.prems show "case r2 of Inl e \<Rightarrow> (case r of Inl e \<Rightarrow> console_line (''[indexer] poll failed: '' @ exn_message e) s1 | Inr _ \<Rightarrow> s1)
           = console_line (''[indexer] poll failed: '' @ exn_message e) s2
         | Inr h1 \<Rightarrow> poller_ends env (Handling [] first h1 res) s2
             (case r of Inl e \<Rightarrow> console_line (''[indexer] poll failed: '' @ exn_message e) s1 | Inr _ \<Rightarrow> s1)"
        by auto
    next
      case h1: (Inr h1)
      let ?final = "case r of Inl e \<Rightarrow> console_line (''[indexer] poll failed: '' @ exn_message e) s1 | Inr _ \<Rightarrow> s1"
      have "poller_ends env (Handling [] first h1 res) s2 ?final"
      proof (cases "length (rs_events res) < PAGE_LIMIT \<or> \<not> truthy (rs_cursor res)")
        case True
        then have "advance_watermark env h1 (rs_latest_ledger res) s2 = (r, s1)"
          using got Inr page h1 Suc.prems by (auto split: if_splits)
        from finishing_ends [OF this] True show ?thesis
          by (intro poller_ends_step [of env "Handling [] first h1 res" s2 "Finishing h1 (rs_latest_ledger res)" s2]) simp_all
      next
        case False
        then have "poll_loop n env (rs_cursor res) first h1 s2 = Some (r, s1)"
          using got Inr page h1 Suc.prems by (auto split: if_splits)
        from Suc.IH [OF this] False show ?thesis
          by (intro poller_ends_step [of env "Handling [] first h1 res" s2 "Paging (rs_cursor res) first h1" s2]) simp_all
      qed
      with h1 show "case r2 of Inl e \<Rightarrow> ?final = console_line (''[indexer] poll failed: '' @ exn_message e) s2
         | Inr h1 \<Rightarrow> poller_ends env (Handling [] first h1 res) s2 ?final" by simp
    qed
  qed
qed simp

lemma poll_is_poller:
  assumes "poll n env s = Some s'"
  shows "poller_ends env Starting s s'"
proof -
  obtain r1 s1 where one: "on_cache getLastLedger s = (r1, s1)" by fastforce
  show ?thesis
  proof (cases r1)
    case (Inl e)
    with one assms have "s' = console_line (''[indexer] poll failed: '' @ exn_message e) s1"
      by (simp add: poll_def js_bind_def)
    then show ?thesis using one Inl by (intro poller_ends_step [OF _ poller_ends_Done]) (simp add: poll_failed_def)
  next
    case (Inr l)
    obtain r2 s2 where two: "on_cache getLastLedger s1 = (r2, s2)" by fastforce
    have go: "poller_step env Starting s = (Started (js_add l (Fin 1)), s1)" using one Inr by simp
    show ?thesis
    proof (cases r2)
      case (Inl e)
      with one two \<open>r1 = Inr l\<close> assms have "s' = console_line (''[indexer] poll failed: '' @ exn_message e) s2"
        by (simp add: poll_def js_bind_def)
      with two Inl show ?thesis
        by (intro poller_ends_step [OF go] poller_ends_step [OF _ poller_ends_Done]) (simp add: poll_failed_def)
    next
      case h: (Inr h)
      from one two Inr h assms obtain r s3 where loop: "poll_loop n env Null (js_add l (Fin 1)) h s2 = Some (r, s3)"
        and s': "s' = (case r of Inl e \<Rightarrow> console_line (''[indexer] poll failed: '' @ exn_message e) s3 | Inr _ \<Rightarrow> s3)"
        by (auto simp: poll_def js_bind_def js_return_def)
      have go2: "poller_step env (Started (js_add l (Fin 1))) s1 = (Paging Null (js_add l (Fin 1)) h, s2)"
        using two h by simp
      show ?thesis unfolding s' by (rule poller_ends_step [OF go], rule poller_ends_step [OF go2], rule paging_ends [OF loop])
    qed
  qed
qed

section \<open>What a poll in flight relies on\<close>

text \<open>
  What is true of a poll between two of its steps, whatever the others do: a ledger it read or
  will store is safe, and the events it has handled are cached.
\<close>

context indexer_chain
begin

definition top_ok :: "int \<Rightarrow> nat \<Rightarrow> 'w indexer \<Rightarrow> bool" where
  "top_ok h t s \<longleftrightarrow> 0 \<le> h \<and> h < 2 ^ 53 \<and> (safe_ledger chain_at h s \<or> h \<le> latest_at t)"

fun poller_ok :: "'x poller \<Rightarrow> 'w indexer \<Rightarrow> bool" where
  "poller_ok Starting s = True"
| "poller_ok (Started first) s = (\<exists>l. first = number_of_int (l + 1) \<and> safe_ledger chain_at l s)"
| "poller_ok (Paging cursor first h) s =
     (\<exists>hh. h = number_of_int hh \<and> top_ok hh (rpc_calls s) s
        \<and> (\<exists>k. seen_events chain_at k s \<and> cursor = Str (dec_int (int k)) \<or>
             (\<exists>l. first = number_of_int (l + 1) \<and> safe_ledger chain_at l s \<and> cursor = Null)))"
| "poller_ok (Handling events first h res) s =
     (\<exists>hh t k rest. h = number_of_int hh \<and> events = map (host_event enc) rest \<and> t < rpc_calls s \<and> top_ok hh t s
        \<and> take k (chain_at t) @ rest = take (k + length rest) (chain_at t) \<and> k + length rest \<le> length (chain_at t)
        \<and> seen_events chain_at k s
        \<and> rs_cursor res = Str (dec_int (int (k + length rest))) \<and> rs_latest_ledger res = number_of_int (latest_at t)
        \<and> (length (rs_events res) < PAGE_LIMIT \<longrightarrow> k + length rest = length (chain_at t)))"
| "poller_ok (Finishing h latest) s =
     (\<exists>hh t. h = number_of_int hh \<and> latest = number_of_int (latest_at t) \<and> t < rpc_calls s \<and> top_ok hh t s
        \<and> covers (chain_at t) (cache s))"
| "poller_ok (Storing w) s = (\<exists>l. w = number_of_int l \<and> safe_ledger chain_at l s)"
| "poller_ok Done s = True"

text \<open>Nothing another poll does takes this away.\<close>

definition later :: "'w indexer \<Rightarrow> 'w indexer \<Rightarrow> bool" where
  "later s s' \<longleftrightarrow> cached_ids (cache s) \<subseteq> cached_ids (cache s') \<and> rpc_calls s \<le> rpc_calls s'"

lemma safe_later: "later s s' \<Longrightarrow> safe_ledger chain_at l s \<Longrightarrow> safe_ledger chain_at l s'"
  unfolding later_def safe_ledger_def by (meson covers_mono order_refl order_trans)

lemma seen_later: "later s s' \<Longrightarrow> seen_events chain_at k s \<Longrightarrow> seen_events chain_at k s'"
  unfolding later_def seen_events_def by (meson covers_mono order_refl order_trans)

lemma top_later: "later s s' \<Longrightarrow> top_ok h t s \<Longrightarrow> t \<le> t' \<Longrightarrow> top_ok h t' s'"
  unfolding top_ok_def using safe_later latest_le by (meson order_trans)

lemma poller_ok_later:
  assumes "later s s'" and "poller_ok p s"
  shows "poller_ok p s'"
proof (cases p)
  case (Paging cursor first h)
  have "rpc_calls s \<le> rpc_calls s'" using assms(1) by (simp add: later_def)
  then show ?thesis
    using assms Paging top_later [OF assms(1)] safe_later [OF assms(1)] seen_later [OF assms(1)] by fastforce
next
  case (Handling events first h res)
  have "rpc_calls s \<le> rpc_calls s'" using assms(1) by (simp add: later_def)
  moreover obtain hh t k rest where "h = number_of_int hh" "events = map (host_event enc) rest" "t < rpc_calls s" "top_ok hh t s"
    "take k (chain_at t) @ rest = take (k + length rest) (chain_at t)" "k + length rest \<le> length (chain_at t)"
    "seen_events chain_at k s" "rs_cursor res = Str (dec_int (int (k + length rest)))"
    "rs_latest_ledger res = number_of_int (latest_at t)"
    "length (rs_events res) < PAGE_LIMIT \<longrightarrow> k + length rest = length (chain_at t)"
    using assms(2) Handling by auto
  ultimately show ?thesis
    unfolding Handling poller_ok.simps
    using top_later [OF assms(1) _ order_refl] seen_later [OF assms(1)]
    by (intro exI [of _ hh] exI [of _ t] exI [of _ k] exI [of _ rest]) simp
next
  case (Finishing h latest)
  then obtain hh t where "h = number_of_int hh" "latest = number_of_int (latest_at t)" "t < rpc_calls s" "top_ok hh t s"
    "covers (chain_at t) (cache s)"
    using assms(2) by auto
  moreover have "rpc_calls s \<le> rpc_calls s'" "cached_ids (cache s) \<subseteq> cached_ids (cache s')"
    using assms(1) by (simp_all add: later_def)
  ultimately show ?thesis
    unfolding Finishing poller_ok.simps
    using top_later [OF assms(1) _ order_refl] covers_mono [of "chain_at t" "cache s" "cache s'" "chain_at t"]
    by (intro exI [of _ hh] exI [of _ t]) simp
qed (use assms safe_later [OF assms(1)] in auto)

end


section \<open>Any interleaving keeps the cache complete\<close>

context indexer_chain
begin

lemma later_refl [simp]: "later s s"
  by (simp add: later_def)

lemma read_watermark: "caught_up w s \<Longrightarrow> on_cache getLastLedger s = (Inr (number_of_int w), s)"
  by (simp add: caught_up_with_def on_cache_def)

lemma failed_ok: "caught_up w s \<Longrightarrow> poll_failed e s = (p', s') \<Longrightarrow> caught_up w s' \<and> poller_ok p' s' \<and> later s s'"
  by (auto simp: poll_failed_def later_def console_line_def caught_up_with_def)

text \<open>A page arrives.\<close>

lemma paging_step:
  assumes cu: "caught_up w s" and ok: "poller_ok (Paging cursor first h) s"
    and step: "poller_step env (Paging cursor first h) s = (p', s')"
  shows "caught_up w s' \<and> poller_ok p' s' \<and> later s s'"
proof -
  let ?t = "rpc_calls s" and ?p = "page_params env cursor first" and ?s1 = "s\<lparr>rpc_calls := Suc (rpc_calls s)\<rparr>"
  have cu1: "caught_up w ?s1" by (rule caught_up_call [OF cu])
  have lat: "later s ?s1" by (simp add: later_def)
  consider (bad) e where "env_get_events env ?t ?p = Inl e"
    | (good) "env_get_events env ?t ?p = Inr (serve enc (chain_at ?t) (latest_at ?t) ?p)"
    using serves [of ?t ?p] by blast
  then show ?thesis
  proof cases
    case bad
    with step have "poll_failed e ?s1 = (p', s')" by (simp add: getEvents_def)
    from failed_ok [OF cu1 this] show ?thesis by (simp add: later_def)
  next
    case good
    obtain hh where h: "h = number_of_int hh" "top_ok hh ?t s" using ok by auto
    define k where "k = serve_from (chain_at ?t) ?p"
    have k: "seen_events chain_at k s"
    proof -
      from ok consider (later_page) k' where "seen_events chain_at k' s" "cursor = Str (dec_int (int k'))"
        | (first_page) l where "first = number_of_int (l + 1)" "safe_ledger chain_at l s" "cursor = Null" by auto
      then show ?thesis
      proof cases
        case later_page
        then show ?thesis by (simp add: k_def serve_after)
      next
        case first_page
        then show ?thesis unfolding k_def by (simp only: first_position(1))
      qed
    qed
    define ces where "ces = take PAGE_LIMIT (drop k (chain_at ?t))"
    define res where "res = serve enc (chain_at ?t) (latest_at ?t) ?p"
    have res: "rs_events res = map (host_event enc) ces" "rs_cursor res = Str (dec_int (int (k + length ces)))"
      "rs_latest_ledger res = number_of_int (latest_at ?t)"
      by (simp_all add: res_def serve_def Let_def k_def ces_def page_params_def)
    have step': "p' = Handling (map (host_event enc) ces) first h res" "s' = ?s1"
      using step good by (simp_all add: getEvents_def flip: res_def) (simp_all add: res)
    have len: "k \<le> length (chain_at ?t)" using k by (simp add: seen_events_def)
    have "take k (chain_at ?t) @ ces = take (k + length ces) (chain_at ?t)"
      unfolding ces_def by (simp add: take_add min_def)
    moreover have "k + length ces \<le> length (chain_at ?t)" using len by (simp add: ces_def)
    moreover have "length (rs_events res) < PAGE_LIMIT \<longrightarrow> k + length ces = length (chain_at ?t)"
      using len by (auto simp: res ces_def)
    moreover have "seen_events chain_at k ?s1" using k lat by (rule seen_later [rotated])
    moreover have "top_ok hh ?t ?s1" by (rule top_later [OF lat h(2) order_refl])
    ultimately have "poller_ok p' s'"
      unfolding step' poller_ok.simps h(1)
      by (intro exI [of _ hh] exI [of _ ?t] exI [of _ k] exI [of _ ces]) (simp add: res)
    then show ?thesis using cu1 lat by (simp add: step')
  qed
qed

text \<open>An event is handled.\<close>

lemma handling_step:
  assumes cu: "caught_up w s" and ok: "poller_ok (Handling (event # events) first h res) s"
    and step: "poller_step env (Handling (event # events) first h res) s = (p', s')"
  shows "caught_up w s' \<and> poller_ok p' s' \<and> later s s'"
proof -
  obtain hh t k rest where h: "h = number_of_int hh" and ev: "event # events = map (host_event enc) rest"
    and t: "t < rpc_calls s" and top: "top_ok hh t s"
    and pos: "take k (chain_at t) @ rest = take (k + length rest) (chain_at t)" "k + length rest \<le> length (chain_at t)"
    and seen: "seen_events chain_at k s"
    and res: "rs_cursor res = Str (dec_int (int (k + length rest)))" "rs_latest_ledger res = number_of_int (latest_at t)"
      "length (rs_events res) < PAGE_LIMIT \<longrightarrow> k + length rest = length (chain_at t)"
    using ok unfolding poller_ok.simps by (elim exE conjE) (rule that; assumption)
  obtain ce rest' where rest: "rest = ce # rest'" "event = host_event enc ce" "events = map (host_event enc) rest'"
    using ev by (cases rest) auto
  have "ce \<in> set (take k (chain_at t) @ rest)" by (simp add: rest)
  then have ce: "ce \<in> set (chain_at t)" unfolding pos(1) by (rule in_set_takeD)
  have hr: "0 \<le> hh" "hh < 2 ^ 53" using top by (simp_all add: top_ok_def)
  have "has_column ''ledger_ts'' (cache s)" using cu by (simp add: caught_up_with_def)
  then obtain s2 where run: "handle_page env [event] h s = (Inr (number_of_int (max hh (ce_ledger ce))), s2)"
    and eff: "page_effect (env_contract_id env) [ce] s s2"
    using handle_page_effect [of "[ce]" s hh] event_range [OF ce] hr by (auto simp: rest h)
  have st: "p' = Handling events first (number_of_int (max hh (ce_ledger ce))) res" "s' = s2"
    using step run by (simp_all del: handle_page.simps)
  have lat: "later s s2" using eff by (simp add: later_def page_effect_def)
  have sub: "ce \<in> set (chain_at t')" if "rpc_calls s2 \<le> t'" for t'
  proof -
    have "t \<le> t'" using t that lat by (simp add: later_def)
    then show ?thesis using chain_grows [of t t'] ce by auto
  qed
  have cu2: "caught_up w s2"
  proof (rule caught_up_step [OF cu])
    show "faithful (env_contract_id env) (chain_at t') (cache s2)"
      if "rpc_calls s2 \<le> t'" "faithful (env_contract_id env) (chain_at t') (cache s)" for t'
      using eff that sub [OF that(1)] by (simp add: page_effect_def)
  qed (use eff in \<open>simp_all add: page_effect_def\<close>)
  have nth: "take (Suc k) (chain_at t') = take k (chain_at t') @ [ce]" "Suc k \<le> length (chain_at t')" if t': "t \<le> t'" for t'
  proof -
    obtain new where new: "chain_at t' = chain_at t @ new" using chain_grows [OF t'] by blast
    have "k < length (chain_at t)" using pos(2) by (simp add: rest)
    moreover have "chain_at t ! k = ce"
    proof -
      have "(take k (chain_at t) @ rest) ! k = ce" using \<open>k < length (chain_at t)\<close> by (simp add: rest nth_append)
      then show ?thesis unfolding pos(1) by (simp add: rest)
    qed
    ultimately show "take (Suc k) (chain_at t') = take k (chain_at t') @ [ce]" "Suc k \<le> length (chain_at t')"
      by (simp_all add: new take_Suc_conv_app_nth)
  qed
  have seen2: "seen_events chain_at (Suc k) s2"
    using seen_later [OF lat seen] eff nth t lat unfolding seen_events_def page_effect_def later_def by auto
  have "top_ok (max hh (ce_ledger ce)) t s2"
  proof (cases "hh < ce_ledger ce")
    case True
    then have "max hh (ce_ledger ce) = ce_ledger ce" by simp
    then show ?thesis using ledgers [OF ce] latest_range [of t] by (simp add: top_ok_def)
  next
    case False
    then have "max hh (ce_ledger ce) = hh" by simp
    then show ?thesis using top_later [OF lat top order_refl] by simp
  qed
  moreover have "take (Suc k) (chain_at t) @ rest' = take (Suc k + length rest') (chain_at t)"
    using pos(1) nth(1) [OF order_refl] by (simp add: rest)
  ultimately have "poller_ok p' s'"
    unfolding st poller_ok.simps using seen2 res pos(2) t lat
    by (intro exI [of _ "max hh (ce_ledger ce)"] exI [of _ t] exI [of _ "Suc k"] exI [of _ rest'])
      (simp add: rest later_def)
  then show ?thesis using cu2 lat by (simp add: st)
qed

end


context indexer_chain
begin

lemma page_done_step:
  assumes ok: "poller_ok (Handling [] first h res) s"
    and step: "poller_step env (Handling [] first h res) s = (p', s')"
  shows "s' = s \<and> poller_ok p' s'"
proof -
  obtain hh t k where h: "h = number_of_int hh" and t: "t < rpc_calls s" and top: "top_ok hh t s"
    and k: "k \<le> length (chain_at t)" and seen: "seen_events chain_at k s"
    and res: "rs_cursor res = Str (dec_int (int k))" "rs_latest_ledger res = number_of_int (latest_at t)"
      "length (rs_events res) < PAGE_LIMIT \<longrightarrow> k = length (chain_at t)"
    using ok by auto
  show ?thesis
  proof (cases "length (rs_events res) < PAGE_LIMIT")
    case True
    then have "p' = Finishing h (number_of_int (latest_at t))" "s' = s" using step res by auto
    moreover have "covers (chain_at t) (cache s)"
    proof -
      obtain new where "chain_at (rpc_calls s) = chain_at t @ new" using chain_grows [of t "rpc_calls s"] t by auto
      then have "take k (chain_at (rpc_calls s)) = chain_at t" using True res(3) by simp
      then show ?thesis using seen unfolding seen_events_def by (metis order_refl)
    qed
    ultimately show ?thesis using h t top by auto
  next
    case False
    have "truthy (rs_cursor res)" by (simp add: res)
    with False step have "p' = Paging (Str (dec_int (int k))) first h" "s' = s" by (simp_all add: res)
    moreover have "top_ok hh (rpc_calls s) s" using top_later [OF later_refl top] t by simp
    ultimately show ?thesis using h seen by auto
  qed
qed

lemma finishing_step:
  assumes cu: "caught_up w s" and ok: "poller_ok (Finishing h latest) s"
    and step: "poller_step env (Finishing h latest) s = (p', s')"
  shows "s' = s \<and> poller_ok p' s'"
proof -
  obtain hh t where h: "h = number_of_int hh" "latest = number_of_int (latest_at t)" and t: "t < rpc_calls s"
    and top: "top_ok hh t s" and cov: "covers (chain_at t) (cache s)"
    using ok by auto
  have safe: "safe_ledger chain_at l s" if "0 \<le> l" "l < 2 ^ 53" "l \<le> latest_at t" for l
    unfolding safe_ledger_def
  proof (intro conjI allI impI that)
    fix t' assume "rpc_calls s \<le> t'"
    then have "set (filter (\<lambda>ce. ce_ledger ce \<le> l) (chain_at t')) \<subseteq> set (chain_at t)"
      using old_events [of t t'] that(3) t by auto
    then show "covers (filter (\<lambda>ce. ce_ledger ce \<le> l) (chain_at t')) (cache s)"
      by (rule covers_mono [OF cov order_refl])
  qed
  have "safe_ledger chain_at hh s" using top safe [of hh] by (auto simp: top_ok_def)
  moreover have "safe_ledger chain_at (latest_at t) s" using latest_range [of t] by (intro safe) simp_all
  ultimately show ?thesis
    using step h by (auto simp: read_watermark [OF cu] Let_def split: if_splits)
qed

lemma storing_step:
  assumes cu: "caught_up w s" and ok: "poller_ok (Storing x) s" and step: "poller_step env (Storing x) s = (p', s')"
  shows "(\<exists>w'. caught_up w' s') \<and> p' = Done \<and> later s s'"
proof -
  obtain l where l: "x = number_of_int l" "safe_ledger chain_at l s" using ok by auto
  then have r: "0 \<le> l" "l < 2 ^ 53" by (simp_all add: safe_ledger_def)
  let ?c = "snd (setLastLedger (env_driver env) (number_of_int l) (cache s))"
  have c: "?c = (cache s)\<lparr>meta := (meta (cache s))(''last_ledger'' \<mapsto> Some (number_to_string (number_of_int l)))\<rparr>"
    by (simp add: db.watermark_set)
  have st: "p' = Done" "s' = s\<lparr>cache := ?c\<rparr>"
    using step by (simp_all add: l on_cache_def db.watermark_set)
  have "getLastLedger ?c = (Inr (number_of_int l), ?c)" using r by (intro db.watermark_get) simp
  then have "caught_up l s'"
    using cu l(2) unfolding caught_up_with_def safe_ledger_def st(2) by (simp add: c covers_def)
  moreover have "later s s'" by (simp add: later_def st(2) c)
  ultimately show ?thesis using st(1) by blast
qed

lemma any_step:
  assumes cu: "caught_up w s" and ok: "poller_ok p s" and step: "poller_step env p s = (p', s')"
  shows "(\<exists>w'. caught_up w' s') \<and> poller_ok p' s' \<and> later s s'"
proof (cases p)
  case Starting
  have "js_add (number_of_int w) (Fin 1) = number_of_int (w + 1)"
    using cu js_add_exact [of w 1] number_of_int_exact [of 1] by (simp add: caught_up_with_def)
  then have "p' = Started (number_of_int (w + 1))" "s' = s"
    using step Starting read_watermark [OF cu] by auto
  then show ?thesis using cu caught_up_safe [OF cu] by auto
next
  case (Started first)
  then have st: "p' = Paging Null first (number_of_int w)" "s' = s" using step read_watermark [OF cu] by auto
  moreover obtain l where "first = number_of_int (l + 1)" "safe_ledger chain_at l s" using ok Started by auto
  moreover have "top_ok w (rpc_calls s) s"
    using caught_up_safe [OF cu] by (simp add: top_ok_def safe_ledger_def)
  ultimately have "poller_ok p' s'" by auto
  then show ?thesis using cu st by auto
next
  case (Paging cursor first h)
  then show ?thesis using paging_step [OF cu] ok step by blast
next
  case (Handling events first h res)
  show ?thesis
  proof (cases events)
    case Nil
    have "s' = s \<and> poller_ok p' s'"
      using ok step by (intro page_done_step [of first h res]) (simp_all only: Handling Nil)
    then show ?thesis using cu by auto
  next
    case (Cons event rest)
    have "caught_up w s' \<and> poller_ok p' s' \<and> later s s'"
      using ok step by (intro handling_step [OF cu, of event rest first h res]) (simp_all only: Handling Cons)
    then show ?thesis by blast
  qed
next
  case (Finishing h latest)
  then have "s' = s \<and> poller_ok p' s'" using finishing_step [OF cu] ok step by blast
  then show ?thesis using cu by auto
next
  case (Storing x)
  have "(\<exists>w'. caught_up w' s') \<and> p' = Done \<and> later s s'"
    using ok step by (intro storing_step [OF cu, of x]) (simp_all only: Storing)
  then show ?thesis by simp
next
  case Done
  then show ?thesis using step cu by auto
qed

text \<open>The invariant of the process.\<close>

lemma polls_keep:
  assumes "polls_reach env (ps, s) (ps', s')" and "\<exists>w. caught_up w s" and "\<forall>p\<in>set ps. poller_ok p s"
  shows "(\<exists>w. caught_up w s') \<and> (\<forall>p\<in>set ps'. poller_ok p s') \<and> later s s'"
  using assms
proof (induction "(ps, s)" "(ps', s')" arbitrary: ps' s' rule: polls_reach.induct)
  case now
  then show ?case by simp
next
  case (then_step c)
  obtain qs u where c: "c = (qs, u)" by fastforce
  then obtain w where w: "caught_up w u" and qs: "\<forall>p\<in>set qs. poller_ok p u" and lat: "later s u"
    using then_step by blast
  from then_step(3) show ?case unfolding c
  proof (cases rule: polls_step.cases)
    case fires
    then show ?thesis using w qs lat by auto
  next
    case (advances i p)
    have "poller_ok (qs ! i) u" using qs advances by (simp add: nth_mem)
    from any_step [OF w this] advances
    have u': "\<exists>w'. caught_up w' s'" "poller_ok p s'" "later u s'" by auto
    have "\<forall>q\<in>set ps'. poller_ok q s'"
      using advances u'(2) qs poller_ok_later [OF u'(3)] set_update_subset_insert [of qs i p] by auto
    moreover have "later s s'" using lat u'(3) by (auto simp: later_def)
    ultimately show ?thesis using u'(1) by blast
  qed
qed

end


section \<open>Schedules\<close>

text \<open>An interleaving as a list of choices: \<open>None\<close> starts a poll, \<open>Some i\<close> lets poll \<open>i\<close> take a step.\<close>

fun run_schedule ::
    "('x, 'w) indexer_env \<Rightarrow> nat option list \<Rightarrow> 'x poller list \<times> 'w indexer \<Rightarrow> 'x poller list \<times> 'w indexer" where
  "run_schedule env [] c = c"
| "run_schedule env (None # is) (ps, s) = run_schedule env is (ps @ [Starting], s)"
| "run_schedule env (Some i # is) (ps, s) =
     (if i < length ps then case poller_step env (ps ! i) s of (p, s') \<Rightarrow> run_schedule env is (ps[i := p], s')
      else run_schedule env is (ps, s))"

lemma polls_reach_first: "polls_step env c1 c2 \<Longrightarrow> polls_reach env c2 c3 \<Longrightarrow> polls_reach env c1 c3"
  by (rotate_tac 1, induction rule: polls_reach.induct) (blast intro: polls_reach.intros)+

lemma run_schedule_reach: "polls_reach env c (run_schedule env is c)"
proof (induction env "is" c rule: run_schedule.induct)
  case (2 env "is" ps s)
  then show ?case using polls_reach_first [OF polls_step.fires] by simp
next
  case (3 env i "is" ps s)
  show ?case
  proof (cases "i < length ps")
    case True
    obtain p s' where "poller_step env (ps ! i) s = (p, s')" by fastforce
    with 3(1) [OF True this [symmetric]] True show ?thesis
      using polls_reach_first [OF polls_step.advances] by simp
  qed (use 3(2) in simp)
qed (simp add: polls_reach.now)


lemma polls_reach_trans: "polls_reach env c2 c3 \<Longrightarrow> polls_reach env c1 c2 \<Longrightarrow> polls_reach env c1 c3"
  by (induction rule: polls_reach.induct) (auto intro: polls_reach.then_step)

end
