(* ===== verification/Gateway_Overlap.thy ===== *)
theory Gateway_Overlap
  imports Readings
begin

text \<open>
  Overlapping requests of the gateway (\<open>backend/src/api/readings.js\<close>). The handler awaits the
  relayer's account, the simulation, the submission and the insertion, and other requests go on
  meanwhile. Here a posted reading is a machine whose steps are the stretches between these
  awaits; run alone it is \<open>post_reading\<close>, and any number of them may be in flight over one cache
  and one network.
\<close>

section \<open>A posted reading as a machine\<close>

record ('x, 'n, 'p) gateway_env =
  ge_node :: "'x node"
  ge_stellar :: "('n, 'p) stellar"
  ge_driver :: "'x driver"
  ge_config :: gateway_config

record 'x reading =
  rd_device :: string
  rd_key :: "'x jsval"
  rd_signature :: "'x jsval"
  rd_seq :: js_number
  rd_units :: js_number
  rd_time :: js_number

datatype ('x, 'p) posting =
    Posted "'x jsval"
  | Fetching "'x reading" string "relay_arg list"
  | Preparing "'x reading" relay_tx
  | Submitting "'x reading" string 'p
  | Recording "'x reading" "string option"
  | Answered "'x reply"
  | Rejected exn

text \<open>The checks of the handler, up to the device address: it throws, answers, or has a reading.\<close>

definition post_checks :: "('x, 'n, 'p) gateway_env \<Rightarrow> 'x jsval \<Rightarrow> exn + ('x reply + 'x reading)" where
  "post_checks env body =
     (let node = ge_node env; devicePubkeyHex = get_prop body ''device_pubkey''; signatureHex = get_prop body ''signature'' in
      if missing_fields body \<noteq> [] then Inr (Inl (error_reply 400 (''missing fields: '' @ missing_fields body)))
      else case bindE (parseU64 node (get_prop body ''seq'') ''seq'') (\<lambda>q.
             bindE (parseU64 node (get_prop body ''delta_units'') ''delta_units'') (\<lambda>d.
             bindE (parseU64 node (get_prop body ''timestamp_ms'') ''timestamp_ms'') (\<lambda>t. Inr (q, d, t)))) of
        Inl e \<Rightarrow> Inr (Inl (error_reply 400 (exn_message e)))
      | Inr (seqN, deltaN, tsN) \<Rightarrow>
        bindE (verifyDeviceSignature node devicePubkeyHex seqN deltaN tsN signatureHex) (\<lambda>valid.
        if \<not> valid then Inr (Inl (error_reply 401 ''invalid device signature''))
        else case bindE (buffer_from node devicePubkeyHex) (encode_pubkey (ge_stellar env)) of
            Inl _ \<Rightarrow> Inr (Inl (error_reply 400 ''invalid device_pubkey''))
          | Inr deviceAddress \<Rightarrow> Inr (Inr \<lparr>rd_device = deviceAddress, rd_key = devicePubkeyHex, rd_signature = signatureHex,
              rd_seq = seqN, rd_units = deltaN, rd_time = tsN\<rparr>)))"

text \<open>\<open>relayReading\<close> up to its first await.\<close>

definition relay_setup :: "('x, 'n, 'p) gateway_env \<Rightarrow> 'x reading \<Rightarrow> exn + string \<times> relay_arg list" where
  "relay_setup env rd =
     (let sdk = ge_stellar env; cfg = ge_config env in
      bindE (keypair_public sdk (cfg_relayer_secret cfg)) (\<lambda>relayer.
      bindE (contract_id_ok sdk (cfg_contract_id cfg)) (\<lambda>_.
      bindE (buffer_from (ge_node env) (rd_signature rd)) (\<lambda>sig.
      bindE (address_ok sdk (rd_device rd)) (\<lambda>_.
        Inr (relayer, relay_args (rd_device rd) (rd_units rd) (rd_seq rd) (rd_time rd) sig))))))"

definition relay_failed :: "exn \<Rightarrow> 'n gateway \<Rightarrow> ('x, 'p) posting \<times> 'n gateway" where
  "relay_failed e s = (Answered (error_reply 502 (''relay failed: '' @ exn_message e)),
     s\<lparr>gw_console := gw_console s @ [''[gateway] relay failed: '' @ exn_message e]\<rparr>)"

definition recorded_reply :: "'x reading \<Rightarrow> string option \<Rightarrow> 'x reply" where
  "recorded_reply rd tx = (case tx of
       Some h \<Rightarrow> \<lparr>reply_status = 200, reply_body = Obj [(''ok'', Bool True), (''tx_hash'', Str h),
         (''device_id'', Str (rd_device rd))]\<rparr>
     | None \<Rightarrow> \<lparr>reply_status = 202, reply_body = Obj [(''ok'', Bool True), (''relayed'', Bool False),
         (''device_id'', Str (rd_device rd)), (''note'', Str accepted_note)]\<rparr>)"

fun posting_step ::
    "('x, 'n, 'p) gateway_env \<Rightarrow> string \<Rightarrow> ('x, 'p) posting \<Rightarrow> 'n gateway \<Rightarrow> ('x, 'p) posting \<times> 'n gateway" where
  "posting_step env now (Posted body) s =
     (case post_checks env body of
        Inl e \<Rightarrow> (Rejected e, s)
      | Inr (Inl r) \<Rightarrow> (Answered r, s)
      | Inr (Inr rd) \<Rightarrow>
        if cfg_contract_id (ge_config env) \<noteq> [] \<and> cfg_relayer_secret (ge_config env) \<noteq> []
        then case relay_setup env rd of
            Inl e \<Rightarrow> relay_failed e s
          | Inr (relayer, args) \<Rightarrow> (Fetching rd relayer args, s)
        else (Recording rd None, s))"
| "posting_step env now (Fetching rd relayer args) s =
     (case on_net (get_account (ge_stellar env) relayer) s of
        (Inl e, s1) \<Rightarrow> relay_failed e s1
      | (Inr account, s1) \<Rightarrow> (Preparing rd (relay_tx_of relayer account (cfg_contract_id (ge_config env))
          (cfg_passphrase (ge_config env)) args), s1))"
| "posting_step env now (Preparing rd tx) s =
     (case on_net (prepare_transaction (ge_stellar env) tx) s of
        (Inl e, s1) \<Rightarrow> relay_failed e s1
      | (Inr prepared, s1) \<Rightarrow> (Submitting rd (tx_source tx) prepared, s1))"
| "posting_step env now (Submitting rd relayer prepared) s =
     (case on_net (send_transaction (ge_stellar env) relayer prepared) s of
        (Inl e, s1) \<Rightarrow> relay_failed e s1
      | (Inr res, s1) \<Rightarrow> (case relay_outcome res of
            Inl e \<Rightarrow> relay_failed e s1
          | Inr h \<Rightarrow> (Recording rd (Some h), s1)))"
| "posting_step env now (Recording rd tx) s =
     (case on_db (recordPendingReading (ge_driver env) now (Str (rd_device rd)) (rd_key rd) (Num (rd_seq rd))
         (Num (rd_units rd)) (Num (rd_time rd)) (case tx of None \<Rightarrow> Null | Some h \<Rightarrow> Str h)) s of
        (Inl e, s1) \<Rightarrow> (case tx of None \<Rightarrow> (Rejected e, s1) | Some _ \<Rightarrow> relay_failed e s1)
      | (Inr _, s1) \<Rightarrow> (Answered (recorded_reply rd tx), s1))"
| "posting_step env now (Answered r) s = (Answered r, s)"
| "posting_step env now (Rejected e) s = (Rejected e, s)"

fun posting_run ::
    "nat \<Rightarrow> ('x, 'n, 'p) gateway_env \<Rightarrow> string \<Rightarrow> ('x, 'p) posting \<Rightarrow> 'n gateway \<Rightarrow> ('x, 'p) posting \<times> 'n gateway" where
  "posting_run 0 env now p s = (p, s)"
| "posting_run (Suc n) env now p s = (case posting_step env now p s of (p', s') \<Rightarrow> posting_run n env now p' s')"

section \<open>A request is the machine run to its end\<close>

definition gateway_env_of ::
    "'x node \<Rightarrow> ('n, 'p) stellar \<Rightarrow> 'x driver \<Rightarrow> gateway_config \<Rightarrow> ('x, 'n, 'p) gateway_env" where
  "gateway_env_of node sdk drv cfg = \<lparr>ge_node = node, ge_stellar = sdk, ge_driver = drv, ge_config = cfg\<rparr>"

lemma gateway_env_sel [simp]:
  "ge_node (gateway_env_of node sdk drv cfg) = node" "ge_stellar (gateway_env_of node sdk drv cfg) = sdk"
  "ge_driver (gateway_env_of node sdk drv cfg) = drv" "ge_config (gateway_env_of node sdk drv cfg) = cfg"
  by (simp_all add: gateway_env_of_def)

definition posting_result :: "(exn + 'x reply) \<times> 'n gateway \<Rightarrow> ('x, 'p) posting \<times> 'n gateway" where
  "posting_result r = (case r of (Inl e, s) \<Rightarrow> (Rejected e, s) | (Inr a, s) \<Rightarrow> (Answered a, s))"

lemma posting_run_ended [simp]:
  "posting_run n env now (Answered r) s = (Answered r, s)" "posting_run n env now (Rejected e) s = (Rejected e, s)"
  by (induction n) simp_all

lemma relay_tx_sel [simp]: "tx_source (relay_tx_of a n c p xs) = a" "tx_sequence (relay_tx_of a n c p xs) = n + 1"
  by (simp_all add: relay_tx_of_def)

lemma on_net_bind: "on_net (js_bind m f) = js_bind (on_net m) (\<lambda>x. on_net (f x))"
  by (rule ext) (simp add: on_net_def js_bind_def split: prod.split sum.split)

lemma on_net_lift: "on_net (js_lift r) = js_lift r"
  by (rule ext) (simp add: on_net_def js_lift_def)

text \<open>The relay with the recording, from where it awaits the account.\<close>

definition relay_and_record :: "('x, 'n, 'p) gateway_env \<Rightarrow> string \<Rightarrow> 'x reading \<Rightarrow> ('n gateway, 'x reply) js" where
  "relay_and_record env now rd =
     js_bind (on_net (relayReading (ge_node env) (ge_stellar env) (cfg_passphrase (ge_config env)) (cfg_contract_id (ge_config env))
        (cfg_relayer_secret (ge_config env)) (rd_device rd) (rd_signature rd) (rd_units rd) (rd_seq rd) (rd_time rd))) (\<lambda>h.
     js_bind (on_db (recordPendingReading (ge_driver env) now (Str (rd_device rd)) (rd_key rd) (Num (rd_seq rd))
        (Num (rd_units rd)) (Num (rd_time rd)) (Str h))) (\<lambda>_. js_return (recorded_reply rd (Some h))))"

lemma relay_and_record_setup:
  "relay_and_record env now rd s = (case relay_setup env rd of
     Inl e \<Rightarrow> (Inl e, s)
   | Inr (relayer, args) \<Rightarrow>
       js_bind (on_net (get_account (ge_stellar env) relayer)) (\<lambda>account.
       js_bind (on_net (prepare_transaction (ge_stellar env) (relay_tx_of relayer account (cfg_contract_id (ge_config env))
          (cfg_passphrase (ge_config env)) args))) (\<lambda>prepared.
       js_bind (on_net (send_transaction (ge_stellar env) relayer prepared)) (\<lambda>res.
       js_bind (js_lift (relay_outcome res)) (\<lambda>h.
       js_bind (on_db (recordPendingReading (ge_driver env) now (Str (rd_device rd)) (rd_key rd) (Num (rd_seq rd))
          (Num (rd_units rd)) (Num (rd_time rd)) (Str h))) (\<lambda>_. js_return (recorded_reply rd (Some h))))))) s)"
  by (simp add: relay_and_record_def relayReading_def relay_setup_def Let_def on_net_bind on_net_lift js_bind_def js_lift_def
      bindE_def split: sum.split prod.split)

text \<open>What \<open>relay_failed\<close> makes of an exception of the \<open>try\<close> block.\<close>

definition relay_result :: "(exn + 'x reply) \<times> 'n gateway \<Rightarrow> ('x, 'p) posting \<times> 'n gateway" where
  "relay_result r = (case r of (Inl e, s) \<Rightarrow> relay_failed e s | (Inr a, s) \<Rightarrow> (Answered a, s))"

lemma fetching_run:
  assumes "relay_setup env rd = Inr (relayer, args)"
  shows "posting_run (Suc (Suc (Suc (Suc 0)))) env now (Fetching rd relayer args) s = relay_result (relay_and_record env now rd s)"
  unfolding relay_and_record_setup assms
  by (simp add: js_bind_def js_lift_def js_return_def relay_result_def relay_failed_def split_beta split: sum.split)

text \<open>The \<open>catch\<close> block, and the handler in terms of its checks.\<close>

definition relay_catch :: "exn \<Rightarrow> ('n gateway, 'x reply) js" where
  "relay_catch e = js_bind (js_modify (\<lambda>s. s\<lparr>gw_console := gw_console s @ [''[gateway] relay failed: '' @ exn_message e]\<rparr>)) (\<lambda>_.
     js_return (error_reply 502 (''relay failed: '' @ exn_message e)))"

lemma relay_caught: "posting_result (js_try m relay_catch u) = relay_result (m u)"
  by (auto simp: posting_result_def relay_result_def relay_failed_def relay_catch_def js_try_def js_bind_def js_modify_def
      js_return_def split: prod.split sum.split)

lemma post_reading_checks:
  fixes node :: "'x node" and sdk :: "('n, 'p) stellar" and drv cfg
  defines "env \<equiv> gateway_env_of node sdk drv cfg"
  shows "post_reading node sdk drv cfg now body s = (case post_checks env body of
      Inl e \<Rightarrow> (Inl e, s)
    | Inr (Inl r) \<Rightarrow> (Inr r, s)
    | Inr (Inr rd) \<Rightarrow>
      if cfg_contract_id cfg \<noteq> [] \<and> cfg_relayer_secret cfg \<noteq> []
      then js_try (relay_and_record env now rd) relay_catch s
      else js_bind (on_db (recordPendingReading drv now (Str (rd_device rd)) (rd_key rd) (Num (rd_seq rd))
          (Num (rd_units rd)) (Num (rd_time rd)) Null)) (\<lambda>_. js_return (recorded_reply rd None)) s)"
proof -
  have tri: "(case m of Inl e \<Rightarrow> F e | Inr (a, b, c) \<Rightarrow> G a b c) = (case m of Inl e \<Rightarrow> F e | Inr t \<Rightarrow> G (fst t) (fst (snd t)) (snd (snd t)))"
    for m :: "exn + js_number \<times> js_number \<times> js_number" and F :: "exn \<Rightarrow> 'q" and G
    by (simp split: sum.split prod.split)
  show ?thesis
    unfolding post_reading_def post_checks_def accept_reading_def env_def Let_def relay_catch_def [abs_def]
    by (simp add: tri js_bind_def js_lift_def js_return_def relay_and_record_def recorded_reply_def bindE_def
        split: sum.split)
qed

lemma posting_run_result:
  "posting_run (Suc (Suc (Suc (Suc (Suc 0))))) (gateway_env_of node sdk drv cfg) now (Posted body) s =
     posting_result (post_reading node sdk drv cfg now body s)"
proof -
  let ?env = "gateway_env_of node sdk drv cfg"
  show ?thesis
  proof (cases "post_checks ?env body")
    case (Inl e)
    then show ?thesis by (simp add: post_reading_checks posting_result_def)
  next
    case (Inr res)
    show ?thesis
    proof (cases res)
      case (Inl r)
      with Inr show ?thesis by (simp add: post_reading_checks posting_result_def)
    next
      case rd: (Inr rd)
      show ?thesis
      proof (cases "cfg_contract_id cfg \<noteq> [] \<and> cfg_relayer_secret cfg \<noteq> []")
        case False
        with Inr rd show ?thesis
          by (auto simp: post_reading_checks posting_result_def js_bind_def js_return_def split_beta split: sum.split)
      next
        case on: True
        show ?thesis
        proof (cases "relay_setup ?env rd")
          case (Inl e)
          with Inr rd on show ?thesis
            by (simp add: post_reading_checks relay_caught relay_and_record_setup relay_result_def relay_failed_def)
        next
          case ra: (Inr ra)
          obtain relayer args where "relay_setup ?env rd = Inr (relayer, args)" using ra by (cases ra) simp
          from fetching_run [OF this, of now s] Inr rd on this show ?thesis
            by (simp add: post_reading_checks relay_caught del: posting_run.simps(1))
        qed
      qed
    qed
  qed
qed

section \<open>Requests in flight\<close>

text \<open>Another request arrives, or one of those in flight takes a step.\<close>

inductive postings_step ::
    "('x, 'n, 'p) gateway_env \<Rightarrow> ('x, 'p) posting list \<times> 'n gateway \<Rightarrow> ('x, 'p) posting list \<times> 'n gateway \<Rightarrow> bool"
  for env where
  arrives: "postings_step env (ps, s) (ps @ [Posted body], s)"
| goes: "i < length ps \<Longrightarrow> posting_step env now (ps ! i) s = (p, s') \<Longrightarrow> postings_step env (ps, s) (ps[i := p], s')"

inductive postings_reach ::
    "('x, 'n, 'p) gateway_env \<Rightarrow> ('x, 'p) posting list \<times> 'n gateway \<Rightarrow> ('x, 'p) posting list \<times> 'n gateway \<Rightarrow> bool"
  for env where
  still: "postings_reach env c c"
| moves: "postings_reach env c1 c2 \<Longrightarrow> postings_step env c2 c3 \<Longrightarrow> postings_reach env c1 c3"

inductive_cases postings_stepE: "postings_step env (ps, s) c"

text \<open>A property of single postings that every step keeps holds of all that are ever in flight.\<close>

lemma postings_all:
  assumes "postings_reach env ([], s) (ps, s')"
    and "\<And>body. P (Posted body)"
    and "\<And>now p u p' u'. P p \<Longrightarrow> posting_step env now p u = (p', u') \<Longrightarrow> P p'"
  shows "\<forall>p\<in>set ps. P p"
  using assms(1)
proof (induction "([] :: ('a, 'c) posting list, s)" "(ps, s')" arbitrary: ps s' rule: postings_reach.induct)
  case still
  then show ?case by simp
next
  case (moves c)
  obtain qs u where c: "c = (qs, u)" by fastforce
  from moves(3) moves(2) [OF c] show ?case unfolding c
    by (auto elim!: postings_stepE intro: assms(2,3) dest!: subsetD [OF set_update_subset_insert])
qed

section \<open>The table of pending readings\<close>

lemma record_one:
  assumes "recordPendingReading drv now d k q u t h c = (r, c')"
  shows "case r of Inr _ \<Rightarrow> \<exists>row. pending_readings c' = pending_readings c @ [row]
    | Inl e \<Rightarrow> pending_readings c' = pending_readings c"
  using assms
  by (auto simp: recordPendingReading_def js_bind_def js_lift_def js_read_def js_modify_def js_throw_def
      split: sum.splits option.splits)

text \<open>A posting whose sender was told that it was accepted.\<close>

fun accepted :: "('x, 'p) posting \<Rightarrow> bool" where
  "accepted (Answered r) = (reply_status r \<in> {200, 202})"
| "accepted _ = False"

lemma post_checks_reply: "post_checks env body = Inr (Inl r) \<Longrightarrow> reply_status r \<in> {400, 401}"
  by (auto simp: post_checks_def Let_def bindE_Inr_iff split: if_splits sum.splits prod.splits)

lemma not_accepted_failed: "relay_failed e s = (p, s') \<Longrightarrow> \<not> accepted p \<and> gw_db s' = gw_db s"
  by (auto simp: relay_failed_def)

lemma on_net_db: "on_net m s = (r, s') \<Longrightarrow> gw_db s' = gw_db s"
  by (auto simp: on_net_def split: prod.splits)

lemma posting_step_rows:
  assumes "posting_step env now p s = (p', s')"
  shows "\<exists>new. pending_readings (gw_db s') = pending_readings (gw_db s) @ new
    \<and> length new + (if accepted p then 1 else 0) = (if accepted p' then 1 else 0)"
proof (cases p)
  case (Recording rd tx)
  let ?tx = "case tx of None \<Rightarrow> Null | Some h \<Rightarrow> Str h"
  obtain r c where rec: "recordPendingReading (ge_driver env) now (Str (rd_device rd)) (rd_key rd) (Num (rd_seq rd))
         (Num (rd_units rd)) (Num (rd_time rd)) ?tx (gw_db s) = (r, c)" by fastforce
  show ?thesis
  proof (cases r)
    case (Inl e)
    with record_one [OF rec] have "pending_readings c = pending_readings (gw_db s)" by simp
    moreover have "\<not> accepted p'" "gw_db s' = c"
      using assms Recording rec Inl by (auto simp: on_db_def relay_failed_def split: option.splits)
    ultimately show ?thesis using Recording by simp
  next
    case (Inr x)
    with record_one [OF rec] obtain row where "pending_readings c = pending_readings (gw_db s) @ [row]" by auto
    moreover have "accepted p'" "gw_db s' = c"
      using assms Recording rec Inr by (auto simp: on_db_def recorded_reply_def split: option.splits)
    ultimately show ?thesis using Recording by simp
  qed
qed (use assms in \<open>auto dest!: post_checks_reply not_accepted_failed on_net_db split: sum.splits prod.splits if_splits\<close>)

lemma filter_update:
  assumes "i < length xs"
  shows "length (filter P (xs[i := y])) + (if P (xs ! i) then 1 else 0) = length (filter P xs) + (if P y then 1 else 0)"
  by (subst (2) id_take_nth_drop [OF assms]) (simp add: upd_conv_take_nth_drop [OF assms])

text \<open>As many rows are added as senders were told so.\<close>

lemma postings_rows:
  assumes "postings_reach env ([], s) (ps, s')"
  shows "\<exists>new. pending_readings (gw_db s') = pending_readings (gw_db s) @ new \<and> length new = length (filter accepted ps)"
  using assms
proof (induction "([] :: ('a, 'c) posting list, s)" "(ps, s')" arbitrary: ps s' rule: postings_reach.induct)
  case still
  then show ?case by simp
next
  case (moves c)
  obtain qs u where c: "c = (qs, u)" by fastforce
  obtain new where new: "pending_readings (gw_db u) = pending_readings (gw_db s) @ new" "length new = length (filter accepted qs)"
    using moves(2) [OF c] by blast
  from moves(3) show ?case unfolding c
  proof (cases rule: postings_step.cases)
    case (arrives body)
    then show ?thesis using new by simp
  next
    case (goes i now p)
    then show ?thesis using posting_step_rows [OF goes(3)] filter_update [OF goes(2), of accepted p] new by auto
  qed
qed

end
