(* ===== verification/Api_Overlap.thy ===== *)
theory Api_Overlap
  imports Api
begin

text \<open>
  The reading endpoints of \<open>backend/src/api/server.js\<close> cut at their awaits. The metrics and the
  balance endpoint read the cache twice, and what other work the process has takes place in
  between; on Postgres each read is a round trip to the server.
\<close>

section \<open>Requests in flight\<close>

datatype 'x ask = AskMetrics string "'x jsval" | AskBalance string | AskDevices

text \<open>
  A request before its first query; after it, with the rows it returned, before the second; with
  its answer; and rejected.
\<close>

datatype 'x getting =
    Asked "'x ask"
  | SecondQuery "'x ask" "sample list"
  | Replied "'x ask" "'x reply"
  | Refused exn

definition metrics_reply :: "string \<Rightarrow> sample list \<Rightarrow> bucket_row list \<Rightarrow> 'x reply" where
  "metrics_reply dev_id rows series = ok_reply (Obj [(''device_id'', Str dev_id), (''series'', Arr (map bucket_json series)),
     (''samples'', Arr (map sample_json rows))])"

text \<open>What the balance endpoint makes of its rows before it asks for the sequence number.\<close>

definition balance_of :: "string \<Rightarrow> sample list \<Rightarrow> js_number \<Rightarrow> balance_body" where
  "balance_of dev_id rows seq =
     (let latest = (if rows = [] then None else Some (rows ! (length rows - 1))) in
      \<lparr>bv_device_id = dev_id,
       bv_on_chain_balance = map_option (\<lambda>r. case sm_balance_after r of None \<Rightarrow> Fin 0 | Some b \<Rightarrow> b) latest,
       bv_latest_seq = seq, bv_pending_uncommitted_units = Fin 0,
       bv_total_units = total_of sm_units rows, bv_total_billed = total_of sm_cost rows,
       bv_last_reading = latest\<rparr>)"

text \<open>From one await to the next.\<close>

fun first_query :: "'x driver \<Rightarrow> 'x ask \<Rightarrow> sample list db_op" where
  "first_query drv (AskMetrics d query) = metricsFor drv (Str d) (get_prop query ''from'') (get_prop query ''to'')"
| "first_query drv (AskBalance d) = metricsFor drv (Str d) Undef Undef"
| "first_query drv AskDevices = js_return []"

fun second_query :: "'x driver \<Rightarrow> 'x ask \<Rightarrow> sample list \<Rightarrow> 'x reply db_op" where
  "second_query drv (AskMetrics d query) rows =
     js_bind (aggregate drv (Str d) (get_prop query ''from'') (get_prop query ''to'') (get_prop query ''granularity'')) (\<lambda>series.
     js_return (metrics_reply d rows series))"
| "second_query drv (AskBalance d) rows =
     js_bind (latestSequence drv (Str d)) (\<lambda>seq. js_return (ok_reply (balance_json (balance_of d rows seq))))"
| "second_query drv AskDevices rows = get_devices drv"

fun get_step :: "'x driver \<Rightarrow> 'x getting \<Rightarrow> db \<Rightarrow> 'x getting \<times> db" where
  "get_step drv (Asked AskDevices) c =
     (case get_devices drv c of (Inl e, c') \<Rightarrow> (Refused e, c') | (Inr r, c') \<Rightarrow> (Replied AskDevices r, c'))"
| "get_step drv (Asked a) c =
     (case first_query drv a c of (Inl e, c') \<Rightarrow> (Refused e, c') | (Inr rows, c') \<Rightarrow> (SecondQuery a rows, c'))"
| "get_step drv (SecondQuery a rows) c =
     (case second_query drv a rows c of (Inl e, c') \<Rightarrow> (Refused e, c') | (Inr r, c') \<Rightarrow> (Replied a r, c'))"
| "get_step drv g c = (g, c)"

section \<open>The handlers\<close>

fun ask_handler :: "'x driver \<Rightarrow> 'x ask \<Rightarrow> 'x reply db_op" where
  "ask_handler drv (AskMetrics d query) = get_metrics drv d query"
| "ask_handler drv (AskBalance d) = get_device_balance drv d"
| "ask_handler drv AskDevices = get_devices drv"

lemma ask_handler_queries: "ask_handler drv a = js_bind (first_query drv a) (second_query drv a)"
proof (cases a)
  case (AskBalance d)
  then show ?thesis
    by (simp add: get_device_balance_def balance_view_def balance_of_def js_bind_def js_return_def Let_def fun_eq_iff
        split: prod.split sum.split)
qed (simp_all add: get_metrics_def metrics_reply_def js_bind_def js_return_def fun_eq_iff split: prod.split sum.split)

text \<open>The queries read.\<close>

lemma pure_queries:
  "snd (metricsFor drv d f t c) = c" "snd (aggregate drv d f t g c) = c" "snd (latestSequence drv d c) = c"
  "snd (listDevices drv c) = c"
  by (simp_all add: metricsFor_def aggregate_def latestSequence_def listDevices_def need_column_def js_bind_def js_lift_def
      js_read_def Let_def split: prod.split sum.split)

lemma first_query_pure: "snd (first_query drv a c) = c"
  by (cases a) (simp_all add: pure_queries js_return_def)

lemma get_devices_pure: "snd (get_devices drv c) = c"
  using pure_queries(4) [of drv c] by (cases "listDevices drv c") (simp add: get_devices_def js_bind_def js_return_def split: sum.split)

lemma second_query_pure: "snd (second_query drv a rows c) = c"
proof (cases a)
  case (AskMetrics d query)
  then show ?thesis
    using pure_queries(2) [of drv "Str d" "get_prop query ''from''" "get_prop query ''to''" "get_prop query ''granularity''" c]
    by (simp add: js_bind_def js_return_def split_beta split: sum.split)
next
  case (AskBalance d)
  then show ?thesis using pure_queries(3) [of drv "Str d" c]
    by (simp add: js_bind_def js_return_def split_beta split: sum.split)
qed (simp add: get_devices_pure)

lemma get_step_pure: "snd (get_step drv g c) = c"
  by (cases "(drv, g, c)" rule: get_step.cases)
    (simp_all add: split_beta first_query_pure second_query_pure get_devices_pure del: first_query.simps second_query.simps split: sum.split)

text \<open>What two reads of the cache, at one state and a later one, answer.\<close>

definition answer_at :: "'x driver \<Rightarrow> 'x ask \<Rightarrow> db \<Rightarrow> db \<Rightarrow> exn + 'x reply" where
  "answer_at drv a c0 c1 = bindE (fst (first_query drv a c0)) (\<lambda>rows. fst (second_query drv a rows c1))"

lemma answer_at_once: "ask_handler drv a c = (answer_at drv a c c, c)"
proof -
  obtain r where r: "first_query drv a c = (r, c)" using first_query_pure [of drv a c] by (metis prod.collapse)
  show ?thesis
  proof (cases r)
    case (Inr rows)
    obtain r' where "second_query drv a rows c = (r', c)" using second_query_pure [of drv a rows c] by (metis prod.collapse)
    then show ?thesis using r Inr by (simp add: ask_handler_queries answer_at_def js_bind_def)
  qed (use r in \<open>simp add: ask_handler_queries answer_at_def js_bind_def\<close>)
qed

text \<open>The machine left alone for two steps.\<close>

definition get_alone :: "'x driver \<Rightarrow> 'x ask \<Rightarrow> db \<Rightarrow> 'x getting" where
  "get_alone drv a c = fst (get_step drv (fst (get_step drv (Asked a) c)) c)"

lemma get_alone_answers: "get_alone drv a c = (case answer_at drv a c c of Inl e \<Rightarrow> Refused e | Inr r \<Rightarrow> Replied a r)"
  by (cases a) (simp_all add: get_alone_def answer_at_def js_return_def split_beta split: sum.split)

end
