(* ===== verification/Process.thy ===== *)
theory Process
  imports Http_App Overlap Gateway_Overlap Api_Overlap
begin

text \<open>
  The running process (\<open>backend/src/index.js\<close>): the polls the interval starts, the HTTP requests
  and the WebSocket connections take turns over one cache. A posted reading takes a step at a time,
  from one of its awaits to the next (\<open>Gateway_Overlap\<close>), and so does a request that reads
  (\<open>Api_Overlap\<close>); a request may also run without interruption, in one step. A rejection nobody handles ends the process, as Node does from
  version 15 on.
\<close>

section \<open>What requests leave alone\<close>

text \<open>The log, the watermark and the schema stay; pending readings are only added.\<close>

definition only_adds_pending :: "db \<Rightarrow> db \<Rightarrow> bool" where
  "only_adds_pending s s' \<longleftrightarrow> meter_events s' = meter_events s \<and> meta s' = meta s \<and> meter_columns s' = meter_columns s
     \<and> (\<exists>new. pending_readings s' = pending_readings s @ new)"

definition gateway_adds :: "'n gateway \<Rightarrow> 'n gateway \<Rightarrow> bool" where
  "gateway_adds g g' \<longleftrightarrow> only_adds_pending (gw_db g) (gw_db g')"

definition site_adds :: "('n, 'l) site \<Rightarrow> ('n, 'l) site \<Rightarrow> bool" where
  "site_adds s s' \<longleftrightarrow> gateway_adds (st_gateway s) (st_gateway s')"

lemma only_adds_refl [simp]: "only_adds_pending s s"
  by (simp add: only_adds_pending_def)

lemma only_adds_trans: "only_adds_pending a b \<Longrightarrow> only_adds_pending b c \<Longrightarrow> only_adds_pending a c"
  by (auto simp: only_adds_pending_def)

interpretation rows: respected only_adds_pending
  by unfold_locales (simp, rule only_adds_trans)

text \<open>The queries read.\<close>

lemma need_column_adds: "keeps only_adds_pending (need_column drv c)"
  by (simp add: keeps_def need_column_def)

lemma metricsFor_adds: "keeps only_adds_pending (metricsFor drv d a b)"
  unfolding metricsFor_def by (intro rows.keeps_bind rows.keeps_pure)

lemma aggregate_adds: "keeps only_adds_pending (aggregate drv d a b g)"
  unfolding aggregate_def Let_def by (intro rows.keeps_bind rows.keeps_pure)

lemma latestSequence_adds: "keeps only_adds_pending (latestSequence drv d)"
  unfolding latestSequence_def by (intro rows.keeps_bind rows.keeps_pure)

lemma listDevices_adds: "keeps only_adds_pending (listDevices drv)"
  unfolding listDevices_def Let_def by (intro rows.keeps_bind rows.keeps_pure need_column_adds)

lemma endpoints_add:
  "keeps only_adds_pending (get_metrics drv d q)" "keeps only_adds_pending (get_device_balance drv d)"
  "keeps only_adds_pending (get_devices drv)"
  unfolding get_metrics_def get_device_balance_def balance_view_def get_devices_def Let_def
  by (intro rows.keeps_bind rows.keeps_pure metricsFor_adds aggregate_adds latestSequence_adds listDevices_adds)+

text \<open>Recording a reading adds it.\<close>

lemma record_adds: "keeps only_adds_pending (recordPendingReading drv now d k q u t h)"
proof -
  have "keeps only_adds_pending (js_modify (\<lambda>s. s\<lparr>next_pending := i, pending_readings := pending_readings s @ [r]\<rparr>))" for i r
    by (simp add: keeps_def js_simps only_adds_pending_def)
  moreover have "keeps only_adds_pending (js_modify (\<lambda>s. if p then s\<lparr>next_pending := i\<rparr> else s))" for p i
    by (simp add: keeps_def js_simps only_adds_pending_def)
  ultimately show ?thesis
    unfolding recordPendingReading_def
    by (intro rows.keeps_bind rows.keeps_pure) (auto intro!: rows.keeps_bind rows.keeps_pure split: option.split)
qed

section \<open>What requests keep\<close>

text \<open>
  A relation between states of the gateway that looks at the database only, and that recording a
  reading respects: every request respects it, as far as the handlers of its endpoints do.
\<close>

locale gateway_frame = respected R for R :: "'n gateway \<Rightarrow> 'n gateway \<Rightarrow> bool" +
  fixes drv :: "'x driver"
  assumes R_db: "gw_db g' = gw_db g \<Longrightarrow> R g g'"
    and R_record: "keeps R (on_db (recordPendingReading drv now d k q u t h))"
begin

lemma on_net_keeps: "keeps R (on_net m)"
  by (simp add: keeps_def on_net_def split_beta R_db)

lemma log_keeps: "keeps R (js_modify (\<lambda>s. s\<lparr>gw_console := f s\<rparr>))"
  by (simp add: keeps_def js_simps R_db)

lemma try_keeps:
  assumes "keeps R m" and "\<And>e. keeps R (h e)"
  shows "keeps R (js_try m h)"
  unfolding keeps_def js_try_def
proof
  fix s
  obtain r s' where m: "m s = (r, s')" by fastforce
  then have "R s s'" using assms(1) by (rule keepsD [rotated])
  moreover have "R s' (snd (h e s'))" for e using assms(2) by (simp add: keeps_def)
  ultimately show "R s (snd (case m s of (Inl e, s') \<Rightarrow> h e s' | (Inr x, s') \<Rightarrow> (Inr x, s')))"
    using m R_trans by (auto split: sum.split)
qed

lemma accept_reading_keeps: "keeps R (accept_reading node sdk drv cfg now pk sg q u t)"
  unfolding accept_reading_def Let_def
  by (auto split: sum.split intro!: keeps_pure keeps_bind try_keeps on_net_keeps R_record log_keeps)

lemma post_reading_keeps: "keeps R (post_reading node sdk drv cfg now body)"
  unfolding post_reading_def Let_def
  by (auto split: sum.split prod.split intro!: keeps_pure keeps_bind accept_reading_keeps)

text \<open>A posted reading, step by step.\<close>

lemma posting_step_keeps:
  assumes "ge_driver env = drv" and "posting_step env now p g = (p', g')"
  shows "R g g'"
proof -
  have net: "R u u'" if "on_net m u = (r, u')" for m :: "('n, 'v) js" and r u u'
    using that on_net_keeps by (rule keepsD [rotated])
  have db: "R u u'" if "on_db (recordPendingReading (ge_driver env) t d k q x y h) u = (r, u')" for t d k q x y h r u u'
    using that R_record unfolding assms(1) by (rule keepsD [rotated])
  have failed: "R u u'" if "relay_failed e u = (q, u')" for e u u' and q :: "('x, 'a) posting"
    using that by (auto simp: relay_failed_def intro: R_db)
  show ?thesis
    using assms(2)
    by (cases p) (auto split: sum.splits prod.splits if_splits option.splits
        dest!: net db failed intro: R_refl R_trans)
qed

text \<open>The layers, over the state of the site.\<close>

abbreviation RS :: "('n, 'l) site \<Rightarrow> ('n, 'l) site \<Rightarrow> bool" where
  "RS s s' \<equiv> R (st_gateway s) (st_gateway s')"

lemma site_respected: "respected RS"
  by unfold_locales (auto intro: R_refl R_trans)

lemmas site_pure = respected.keeps_pure [OF site_respected] and site_bind = respected.keeps_bind [OF site_respected]

lemma on_gateway_keeps: "keeps R m \<Longrightarrow> keeps RS (on_gateway m)"
  by (simp add: keeps_def on_gateway_def split_beta)

lemma get_layer_keeps:
  assumes "\<And>ps. keeps R (on_db (handler ps rq))"
  shows "keeps RS (get_layer pk pattern handler rq)"
  unfolding get_layer_def
  by (auto split: option.split sum.split intro!: site_pure site_bind on_gateway_keeps assms)

lemma limit_layer_keeps: "keeps RS (limit_layer pk c rq)"
  by (simp add: keeps_def limit_layer_def R_refl split: prod.split)

lemma readings_layer_keeps: "keeps RS (readings_layer pk node sdk drv c now rq)"
  unfolding readings_layer_def by (auto intro!: site_pure site_bind on_gateway_keeps post_reading_keeps)

lemma run_layers_keep:
  assumes "\<And>l rq. l \<in> set ls \<Longrightarrow> keeps RS (l rq)"
  shows "keeps RS (run_layers ls rq)"
  using assms
proof (induction ls arbitrary: rq)
  case Nil
  then show ?case by (simp add: site_pure)
next
  case (Cons l ls)
  have rest: "keeps RS (run_layers ls rq)" for rq by (rule Cons.IH) (simp add: Cons.prems)
  have first: "keeps RS (l rq)" by (simp add: Cons.prems)
  show ?case unfolding run_layers.simps
    by (rule site_bind [OF first]) (auto intro: rest site_pure split: flow.split)
qed

lemma routed_layers_keep:
  assumes "l \<in> set (routed_layers pk cfg (\<lambda>c. readings_layer pk node sdk drv c now) metrics balance devices)"
    and "\<And>ps rq. keeps R (on_db (metrics ps rq))" and "\<And>ps rq. keeps R (on_db (balance ps rq))"
    and "\<And>ps rq. keeps R (on_db (devices ps rq))"
  shows "keeps RS (l rq)"
  using assms(1)
  by (auto simp: routed_layers_def cors_layer_def json_layer_def split: option.splits
      intro: site_pure limit_layer_keeps readings_layer_keeps intro!: get_layer_keeps assms(2-4))
    (auto simp: keeps_def on_db_def js_return_def R_refl intro!: get_layer_keeps)

lemma answer_request_keeps:
  assumes "\<And>l rq. l \<in> set ls \<Longrightarrow> keeps RS (l rq)"
  shows "keeps RS (answer_request pk cfg ls rq)"
proof -
  have "keeps RS (report_error e)" for e
    by (simp add: keeps_def report_error_def R_db split: prod.split)
  then show ?thesis unfolding answer_request_def
    by (intro site_bind run_layers_keep assms) (auto split: flow.split intro: site_pure)
qed

end

text \<open>Requests only add pending readings.\<close>

lemma on_db_adds: "keeps only_adds_pending m \<Longrightarrow> keeps gateway_adds (on_db m)"
  by (simp add: keeps_def gateway_adds_def on_db_def split_beta)

interpretation adds: gateway_frame gateway_adds drv for drv :: "'x driver"
proof unfold_locales
  show "keeps gateway_adds (on_db (recordPendingReading drv now d k q u t h))" for now d k q u t h
    by (rule on_db_adds [OF record_adds])
qed (auto simp: gateway_adds_def intro: only_adds_trans)

lemma api_layers_add: "l \<in> set (api_layers pk node sdk drv cfg now) \<Longrightarrow> keeps site_adds (l rq)"
  unfolding api_layers_def site_adds_def [abs_def]
  by (erule adds.routed_layers_keep) (intro on_db_adds endpoints_add)+

lemma handle_request_adds: "keeps site_adds (handle_request pk node sdk drv cfg now rq)"
  unfolding handle_request_def site_adds_def [abs_def]
  by (rule adds.answer_request_keeps) (rule api_layers_add [unfolded site_adds_def [abs_def]])

section \<open>The process\<close>

record ('x, 'n, 'p, 'l) platform =
  pf_packages :: "('x, 'l) packages"
  pf_node :: "'x node"
  pf_stellar :: "('n, 'p) stellar"
  pf_config :: config
  pf_env :: "('x, hub) indexer_env"
  pf_sockets :: hub_env

record ('x, 'n, 'p, 'l) process =
  pr_polls :: "'x poller list"
  pr_indexer :: "hub indexer"
  pr_posts :: "('x, 'p) posting list"
  pr_gets :: "'x getting list"
  pr_site :: "('n, 'l) site"
  pr_alive :: bool

text \<open>The cache is the indexer's and the site's: \<open>storage\<close> is one object.\<close>

definition with_cache :: "db \<Rightarrow> ('n, 'l) site \<Rightarrow> ('n, 'l) site" where
  "with_cache c st = st\<lparr>st_gateway := (st_gateway st)\<lparr>gw_db := c\<rparr>\<rparr>"

definition settle_request ::
    "(exn + 'x reply) \<times> ('n, 'l) site \<Rightarrow> ('x, 'n, 'p, 'l) process \<Rightarrow> 'x reply option \<times> ('x, 'n, 'p, 'l) process" where
  "settle_request res p = (case res of (r, st) \<Rightarrow>
     (case r of Inr a \<Rightarrow> Some a | Inl _ \<Rightarrow> None,
      p\<lparr>pr_site := st, pr_indexer := (pr_indexer p)\<lparr>cache := gw_db (st_gateway st)\<rparr>,
        pr_alive := (case r of Inr _ \<Rightarrow> True | Inl _ \<Rightarrow> False)\<rparr>))"

definition serve_request ::
    "('x, 'n, 'p, 'l) platform \<Rightarrow> string \<Rightarrow> 'x request \<Rightarrow> ('x, 'n, 'p, 'l) process \<Rightarrow> 'x reply option \<times> ('x, 'n, 'p, 'l) process" where
  "serve_request pf now rq p =
     settle_request (handle_request (pf_packages pf) (pf_node pf) (pf_stellar pf) (env_driver (pf_env pf)) (Some (pf_config pf)) now rq
        (with_cache (cache (pr_indexer p)) (pr_site p))) p"

text \<open>
  A posted reading that passes the layers before the gateway's joins those in flight, and one of
  them takes a step; its rejection is one of an asynchronous handler.
\<close>

definition accept_post ::
    "('x, 'n, 'p, 'l) platform \<Rightarrow> 'x request \<Rightarrow> ('x, 'n, 'p, 'l) process \<Rightarrow> ('x, 'n, 'p, 'l) process option" where
  "accept_post pf rq p =
     (case run_layers (take 4 (api_layers (pf_packages pf) (pf_node pf) (pf_stellar pf) (env_driver (pf_env pf)) (Some (pf_config pf)) []))
        rq (with_cache (cache (pr_indexer p)) (pr_site p)) of
        (Inr (Next rq'), st) \<Rightarrow>
          if rq_method rq' = ''POST'' \<and> route_params (pf_packages pf) ''/api/readings'' (rq_path rq') = Some (Inr [])
          then Some (p\<lparr>pr_site := st, pr_indexer := (pr_indexer p)\<lparr>cache := gw_db (st_gateway st)\<rparr>,
            pr_posts := pr_posts p @ [Posted (rq_body rq')]\<rparr>)
          else None
      | _ \<Rightarrow> None)"

definition posting_env :: "('x, 'n, 'p, 'l) platform \<Rightarrow> ('x, 'n, 'p) gateway_env" where
  "posting_env pf = gateway_env_of (pf_node pf) (pf_stellar pf) (env_driver (pf_env pf)) (gateway_config_of (pf_config pf))"

definition step_post :: "('x, 'n, 'p, 'l) platform \<Rightarrow> string \<Rightarrow> nat \<Rightarrow> ('x, 'n, 'p, 'l) process \<Rightarrow> ('x, 'n, 'p, 'l) process" where
  "step_post pf now i p =
     (case posting_step (posting_env pf) now (pr_posts p ! i) (st_gateway (with_cache (cache (pr_indexer p)) (pr_site p))) of
        (q, g) \<Rightarrow> p\<lparr>pr_posts := (pr_posts p)[i := q], pr_site := (pr_site p)\<lparr>st_gateway := g\<rparr>,
          pr_indexer := (pr_indexer p)\<lparr>cache := gw_db g\<rparr>,
          pr_alive := (case q of Rejected _ \<Rightarrow> False | _ \<Rightarrow> True)\<rparr>)"

text \<open>
  A request for one of the reading endpoints that passes the layers before them joins those in
  flight, and one of them makes its next query.
\<close>

definition asks_for :: "('x, 'l) packages \<Rightarrow> 'x request \<Rightarrow> 'x ask option" where
  "asks_for pk rq =
     (if rq_method rq \<notin> {''GET'', ''HEAD''} then None
      else case route_params pk ''/api/devices/:id/metrics'' (rq_path rq) of
          Some r \<Rightarrow> (case r of Inl e \<Rightarrow> None | Inr ps \<Rightarrow> Some (AskMetrics (hd ps) (rq_query rq)))
        | None \<Rightarrow> (case route_params pk ''/api/devices/:id/balance'' (rq_path rq) of
            Some r \<Rightarrow> (case r of Inl e \<Rightarrow> None | Inr ps \<Rightarrow> Some (AskBalance (hd ps)))
          | None \<Rightarrow> (case route_params pk ''/api/devices'' (rq_path rq) of
              Some (Inr ps) \<Rightarrow> Some AskDevices | _ \<Rightarrow> None)))"

definition accept_get ::
    "('x, 'n, 'p, 'l) platform \<Rightarrow> 'x request \<Rightarrow> ('x, 'n, 'p, 'l) process \<Rightarrow> ('x, 'n, 'p, 'l) process option" where
  "accept_get pf rq p =
     (case run_layers (take 5 (api_layers (pf_packages pf) (pf_node pf) (pf_stellar pf) (env_driver (pf_env pf)) (Some (pf_config pf)) []))
        rq (with_cache (cache (pr_indexer p)) (pr_site p)) of
        (Inr (Next rq'), st) \<Rightarrow> (case asks_for (pf_packages pf) rq' of
            None \<Rightarrow> None
          | Some a \<Rightarrow> Some (p\<lparr>pr_site := st, pr_indexer := (pr_indexer p)\<lparr>cache := gw_db (st_gateway st)\<rparr>,
              pr_gets := pr_gets p @ [Asked a]\<rparr>))
      | _ \<Rightarrow> None)"

definition step_get :: "('x, 'n, 'p, 'l) platform \<Rightarrow> nat \<Rightarrow> ('x, 'n, 'p, 'l) process \<Rightarrow> ('x, 'n, 'p, 'l) process" where
  "step_get pf i p =
     (case get_step (env_driver (pf_env pf)) (pr_gets p ! i) (cache (pr_indexer p)) of
        (g, c) \<Rightarrow> p\<lparr>pr_gets := (pr_gets p)[i := g], pr_indexer := (pr_indexer p)\<lparr>cache := c\<rparr>,
          pr_alive := (case g of Refused _ \<Rightarrow> False | _ \<Rightarrow> True)\<rparr>)"

text \<open>A socket connects, answers a ping, or a heartbeat is due.\<close>

definition set_hub :: "hub \<Rightarrow> ('x, 'n, 'p, 'l) process \<Rightarrow> ('x, 'n, 'p, 'l) process" where
  "set_hub h p = p\<lparr>pr_indexer := (pr_indexer p)\<lparr>world := h\<rparr>\<rparr>"

definition connect_socket ::
    "('x, 'n, 'p, 'l) platform \<Rightarrow> string \<Rightarrow> string option \<Rightarrow> nat \<times> client \<Rightarrow> ('x, 'n, 'p, 'l) process \<Rightarrow> ('x, 'n, 'p, 'l) process" where
  "connect_socket pf now url ic p =
     (let h = world (pr_indexer p) in
      case on_connection (pf_sockets pf) now url (fst ic) (h\<lparr>clients := clients h @ [ic]\<rparr>) of
        (r, h') \<Rightarrow> (set_hub h' p)\<lparr>pr_alive := (case r of Inr _ \<Rightarrow> True | Inl _ \<Rightarrow> False)\<rparr>)"

inductive process_step ::
    "('x, 'n, 'p, 'l) platform \<Rightarrow> ('x, 'n, 'p, 'l) process \<Rightarrow> ('x, 'n, 'p, 'l) process \<Rightarrow> bool" for pf where
  polls: "pr_alive p \<Longrightarrow> polls_step (pf_env pf) (pr_polls p, pr_indexer p) (ps, s) \<Longrightarrow>
     process_step pf p (p\<lparr>pr_polls := ps, pr_indexer := s\<rparr>)"
| request: "pr_alive p \<Longrightarrow> serve_request pf now rq p = (answer, p') \<Longrightarrow> process_step pf p p'"
| posted: "pr_alive p \<Longrightarrow> accept_post pf rq p = Some p' \<Longrightarrow> process_step pf p p'"
| posting: "pr_alive p \<Longrightarrow> i < length (pr_posts p) \<Longrightarrow> process_step pf p (step_post pf now i p)"
| asked: "pr_alive p \<Longrightarrow> accept_get pf rq p = Some p' \<Longrightarrow> process_step pf p p'"
| reading: "pr_alive p \<Longrightarrow> i < length (pr_gets p) \<Longrightarrow> process_step pf p (step_get pf i p)"
| connects: "pr_alive p \<Longrightarrow> process_step pf p (connect_socket pf now url ic p)"
| pong: "pr_alive p \<Longrightarrow> process_step pf p (set_hub (on_pong i (world (pr_indexer p))) p)"
| beat: "pr_alive p \<Longrightarrow> process_step pf p (set_hub (heartbeat (world (pr_indexer p))) p)"

inductive process_run ::
    "('x, 'n, 'p, 'l) platform \<Rightarrow> ('x, 'n, 'p, 'l) process \<Rightarrow> ('x, 'n, 'p, 'l) process \<Rightarrow> bool" for pf where
  rests: "process_run pf p p"
| goes: "process_run pf p1 p2 \<Longrightarrow> process_step pf p2 p3 \<Longrightarrow> process_run pf p1 p3"

inductive_cases process_stepE: "process_step pf p p'"

section \<open>What no step takes away\<close>

text \<open>Rows and pending readings are only added, and no event is stored twice.\<close>

definition cache_grows :: "db \<Rightarrow> db \<Rightarrow> bool" where
  "cache_grows c c' \<longleftrightarrow> prefix (meter_events c) (meter_events c') \<and> (events_unique c \<longrightarrow> events_unique c')
     \<and> prefix (pending_readings c) (pending_readings c')"

lemma cache_grows_trans: "cache_grows a b \<Longrightarrow> cache_grows b c \<Longrightarrow> cache_grows a c"
  unfolding cache_grows_def using prefix_order.trans by metis

lemma adds_grows: "only_adds_pending c c' \<Longrightarrow> cache_grows c c'"
  by (auto simp: only_adds_pending_def cache_grows_def events_unique_def)

lemma log_grows_cache: "log_grows s s' \<Longrightarrow> cache_grows (cache s) (cache s')"
  by (simp add: log_grows_def cache_grows_def)

lemma getLastLedger_same: "snd (getLastLedger c) = c"
  by (simp add: getLastLedger_def js_bind_simps js_simps)

lemma poll_failed_grows: "poll_failed e s = (p', s') \<Longrightarrow> log_grows s s'"
  by (auto simp: poll_failed_def log_grows_def console_line_def)

lemma poller_step_grows:
  assumes "poller_step env p s = (p', s')"
  shows "log_grows s s'"
proof -
  have refl: "log_grows a a" and trans: "log_grows a b \<Longrightarrow> log_grows b c \<Longrightarrow> log_grows a c" for a b c :: "'b indexer"
    by (rule log_page.R_refl) (rule log_page.R_trans)
  have reads: "s1 = s" if "on_cache getLastLedger s = (r, s1)" for r s1
    using that getLastLedger_same [of "cache s"] by (auto simp: on_cache_def split: prod.splits)
  have stores: "log_grows s s1" if "on_cache (setLastLedger drv x) s = (r, s1)" for drv :: "'a driver" and x r s1
    using that by (cases rule: setLastLedger_cases [of drv x "cache s"])
      (auto simp: on_cache_def log_grows_def events_unique_def split: prod.splits)
  have pages: "log_grows s s1" if "handle_page env events h s = (r, s1)" for events h r s1
    using that log_page.handle_page_keeps [of env events h] by (rule keepsD [rotated])
  have calls: "log_grows s s1" if "getEvents env q s = (r, s1)" for q r s1
    using that by (auto simp: getEvents_def log_grows_def)

  show ?thesis
  proof (cases p)
    case (Handling events first h res)
    then show ?thesis using assms
      by (cases events) (auto dest: pages intro: trans [OF _ poll_failed_grows] refl split: prod.splits sum.splits if_splits
          simp del: handle_page.simps)
  qed (use assms in \<open>auto dest: reads stores calls intro: trans [OF _ poll_failed_grows] refl
      split: prod.splits sum.splits if_splits simp: Let_def\<close>)
qed

text \<open>A request, to the indexer, is a cache with more pending readings.\<close>

lemma serve_adds:
  assumes "serve_request pf now rq p = (answer, p')"
  obtains c where "pr_indexer p' = (pr_indexer p)\<lparr>cache := c\<rparr>" and "only_adds_pending (cache (pr_indexer p)) c"
    and "pr_polls p' = pr_polls p" and "pr_alive p' \<longleftrightarrow> answer \<noteq> None"
proof -
  let ?s0 = "with_cache (cache (pr_indexer p)) (pr_site p)"
  obtain r st where r: "handle_request (pf_packages pf) (pf_node pf) (pf_stellar pf) (env_driver (pf_env pf))
      (Some (pf_config pf)) now rq ?s0 = (r, st)" by fastforce
  have "site_adds ?s0 st" using r handle_request_adds by (rule keepsD [rotated])
  then have "only_adds_pending (cache (pr_indexer p)) (gw_db (st_gateway st))"
    by (simp add: site_adds_def gateway_adds_def with_cache_def)
  then show thesis using assms r that [of "gw_db (st_gateway st)"]
    by (auto simp: serve_request_def settle_request_def split: sum.splits)
qed

lemma first_layers_add:
  assumes "run_layers (take k (api_layers pk node sdk drv cfg now)) rq (with_cache c s) = (r, st)"
  shows "only_adds_pending c (gw_db (st_gateway st))"
proof -
  have "keeps site_adds (run_layers (take k (api_layers pk node sdk drv cfg now)) rq)"
    unfolding site_adds_def [abs_def]
    by (rule adds.run_layers_keep) (blast dest: in_set_takeD intro: api_layers_add [unfolded site_adds_def [abs_def]])
  then have "site_adds (with_cache c s) st" using assms by (rule keepsD)
  then show ?thesis by (simp add: site_adds_def gateway_adds_def with_cache_def)
qed

lemma accept_post_adds:
  assumes "accept_post pf rq p = Some p'"
  obtains c where "pr_indexer p' = (pr_indexer p)\<lparr>cache := c\<rparr>" and "only_adds_pending (cache (pr_indexer p)) c"
    and "pr_polls p' = pr_polls p"
  using assms
  by (auto simp: accept_post_def split: prod.splits sum.splits flow.splits if_splits dest!: first_layers_add)

lemma accept_get_adds:
  assumes "accept_get pf rq p = Some p'"
  obtains c where "pr_indexer p' = (pr_indexer p)\<lparr>cache := c\<rparr>" and "only_adds_pending (cache (pr_indexer p)) c"
    and "pr_polls p' = pr_polls p"
  using assms
  by (auto simp: accept_get_def split: prod.splits sum.splits flow.splits option.splits dest!: first_layers_add)

text \<open>A query leaves the whole process as it is, but for the request itself.\<close>

lemma step_get_view:
  "step_get pf i p = p\<lparr>pr_gets := pr_gets (step_get pf i p), pr_alive := pr_alive (step_get pf i p)\<rparr>"
proof -
  obtain g where "get_step (env_driver (pf_env pf)) (pr_gets p ! i) (cache (pr_indexer p)) = (g, cache (pr_indexer p))"
    using get_step_pure [of "env_driver (pf_env pf)" "pr_gets p ! i" "cache (pr_indexer p)"] by (metis prod.collapse)
  then show ?thesis by (simp add: step_get_def)
qed

lemma step_post_adds:
  obtains c where "pr_indexer (step_post pf now i p) = (pr_indexer p)\<lparr>cache := c\<rparr>"
    and "only_adds_pending (cache (pr_indexer p)) c" and "pr_polls (step_post pf now i p) = pr_polls p"
proof -
  let ?g0 = "st_gateway (with_cache (cache (pr_indexer p)) (pr_site p))"
  obtain q g where q: "posting_step (posting_env pf) now (pr_posts p ! i) ?g0 = (q, g)" by fastforce
  have "only_adds_pending (cache (pr_indexer p)) (gw_db g)"
    using adds.posting_step_keeps [OF refl q] by (simp add: gateway_adds_def with_cache_def)
  with q that [of "gw_db g"] show thesis by (simp add: step_post_def)
qed

text \<open>
  To the indexer, a step of the process is a step of its polls, a cache with more pending readings,
  or a change of the hub.
\<close>

lemma process_step_view:
  assumes "process_step pf p p'"
  obtains (polled) "polls_step (pf_env pf) (pr_polls p, pr_indexer p) (pr_polls p', pr_indexer p')"
    | (added) c where "pr_indexer p' = (pr_indexer p)\<lparr>cache := c\<rparr>" and "only_adds_pending (cache (pr_indexer p)) c"
        and "pr_polls p' = pr_polls p"
    | (sockets) h where "pr_indexer p' = (pr_indexer p)\<lparr>world := h\<rparr>" and "pr_polls p' = pr_polls p"
  using assms
proof cases
  case (polls ps s)
  then show thesis by (intro polled) simp
next
  case (request now rq answer)
  from request(2) show thesis by (rule serve_adds) (blast intro: added)
next
  case (posted rq)
  from posted(2) show thesis by (rule accept_post_adds) (blast intro: added)
next
  case (posting i now)
  show thesis by (rule step_post_adds [of pf now i p]) (rule added, simp_all only: posting(1))
next
  case (asked rq)
  from asked(2) show thesis by (rule accept_get_adds) (blast intro: added)
next
  case (reading i)
  have "pr_indexer p' = (pr_indexer p)\<lparr>cache := cache (pr_indexer p)\<rparr>" "pr_polls p' = pr_polls p"
    unfolding reading(1) by (subst step_get_view, simp)+
  then show thesis by (intro added [of "cache (pr_indexer p)"]) simp_all
qed (rule sockets; simp add: set_hub_def connect_socket_def Let_def split_beta)+

lemma process_step_grows:
  assumes "process_step pf p p'"
  shows "cache_grows (cache (pr_indexer p)) (cache (pr_indexer p'))"
  using assms
proof (cases rule: process_step_view)
  case polled
  then show ?thesis
    by (cases rule: polls_step.cases) (auto simp: cache_grows_def dest: poller_step_grows [THEN log_grows_cache])
next
  case (added c)
  then show ?thesis using adds_grows by simp
qed (simp add: cache_grows_def)

text \<open>Once a rejection went unhandled, nothing happens any more.\<close>

lemma dead_stays: "process_run pf p p' \<Longrightarrow> \<not> pr_alive p \<Longrightarrow> p' = p"
  by (induction rule: process_run.induct) (auto elim: process_step.cases)

section \<open>The guarantee of the indexer among requests\<close>

definition process_ok ::
    "(scval \<Rightarrow> 'x) \<Rightarrow> (nat \<Rightarrow> chain_event list) \<Rightarrow> (nat \<Rightarrow> int) \<Rightarrow> ('x, hub) indexer_env \<Rightarrow> ('x, 'n, 'p, 'l) process \<Rightarrow> bool" where
  "process_ok enc chain_at latest_at env p \<longleftrightarrow>
     (\<exists>w. caught_up_with (env_contract_id env) chain_at w (pr_indexer p))
     \<and> (\<forall>q\<in>set (pr_polls p). indexer_chain.poller_ok enc chain_at latest_at q (pr_indexer p))"

lemma caught_up_adds:
  assumes "caught_up_with k chain_at w s" and "meter_events c = meter_events (cache s)" and "meta c = meta (cache s)"
    and "meter_columns c = meter_columns (cache s)"
  shows "caught_up_with k chain_at w (s\<lparr>cache := c\<rparr>)"
  using assms getLastLedger_meta [OF assms(3)]
  by (auto simp: caught_up_with_def has_column_def covers_def faithful_def cached_ids_def)

lemma caught_up_world: "caught_up_with k chain_at w (s\<lparr>world := h\<rparr>) = caught_up_with k chain_at w s"
  by (simp add: caught_up_with_def)

lemma process_step_ok:
  fixes p p' :: "('x, 'n, 'p, 'l) process"
  assumes chain: "indexer_chain (pf_env pf) enc chain_at latest_at"
    and step: "process_step pf p p'" and ok: "process_ok enc chain_at latest_at (pf_env pf) p"
  shows "process_ok enc chain_at latest_at (pf_env pf) p'"
proof -
  note later = indexer_chain.poller_ok_later [OF chain] and later_def = indexer_chain.later_def [OF chain]
  from step show ?thesis
  proof (cases rule: process_step_view)
    case polled
    then have "polls_reach (pf_env pf) (pr_polls p, pr_indexer p) (pr_polls p', pr_indexer p')"
      using polls_reach.intros by metis
    from indexer_chain.polls_keep [OF chain this] ok show ?thesis by (simp add: process_ok_def)
  next
    case (added c)
    have same: "meter_events c = meter_events (cache (pr_indexer p))" "meta c = meta (cache (pr_indexer p))"
      "meter_columns c = meter_columns (cache (pr_indexer p))"
      using added(2) by (simp_all add: only_adds_pending_def)
    from ok obtain w where "caught_up_with (env_contract_id (pf_env pf)) chain_at w (pr_indexer p)"
      by (auto simp: process_ok_def)
    from caught_up_adds [OF this same] show ?thesis
      using ok later [of "pr_indexer p" "pr_indexer p'"] same added(1,3)
      by (auto simp: process_ok_def later_def cached_ids_def)
  next
    case (sockets h)
    then show ?thesis using ok later [of "pr_indexer p" "pr_indexer p'"]
      by (auto simp: process_ok_def caught_up_world later_def)
  qed
qed

lemma process_run_ok:
  assumes "indexer_chain (pf_env pf) enc chain_at latest_at" and "process_run pf p p'"
    and "process_ok enc chain_at latest_at (pf_env pf) p"
  shows "process_ok enc chain_at latest_at (pf_env pf) p' \<and> cache_grows (cache (pr_indexer p)) (cache (pr_indexer p'))"
  using assms(2,3)
proof (induction rule: process_run.induct)
  case (rests p)
  then show ?case by (simp add: cache_grows_def)
next
  case (goes p1 p2 p3)
  then have two: "process_ok enc chain_at latest_at (pf_env pf) p2" "cache_grows (cache (pr_indexer p1)) (cache (pr_indexer p2))"
    by simp_all
  show ?case
    using process_step_ok [OF assms(1) goes.hyps(2) two(1)] cache_grows_trans [OF two(2) process_step_grows [OF goes.hyps(2)]]
    by (rule conjI)
qed

end
