(* ===== verification/Billing_Spec.thy ===== *)
theory Billing_Spec
  imports Contract_History
begin

text \<open>
  What the contract promises, with no words, storage keys or refreshes: a billing ledger over
  integers. Each successful entry point is a step of the ledger (refinement), and the ledger's
  acceptance of a bill, with a valid signature and amounts that fit their widths, is the
  contract's (the decision table of \<open>submit_reading\<close>).
\<close>

section \<open>The abstract ledger\<close>

record billing =
  b_operator :: "address \<rightharpoonup> address"
  b_rate :: "address \<rightharpoonup> int"
  b_escrow :: "address \<Rightarrow> int"
  b_seq :: "address \<Rightarrow> nat"
  b_units :: "address \<Rightarrow> nat"
  b_earned :: "address \<Rightarrow> int"
  b_paid :: "address \<Rightarrow> int"

datatype action =
    Enrol address address int
  | Fund address int
  | Bill address nat nat
  | Pay address int

fun billing_step :: "action \<Rightarrow> billing \<Rightarrow> billing option" where
  "billing_step (Enrol d opr rate) B =
     (if b_operator B d = None \<and> 0 \<le> rate
      then Some (B\<lparr>b_operator := (b_operator B)(d \<mapsto> opr), b_rate := (b_rate B)(d \<mapsto> rate)\<rparr>)
      else None)"
| "billing_step (Fund d amt) B =
     (if b_operator B d \<noteq> None \<and> 0 < amt
      then Some (B\<lparr>b_escrow := (b_escrow B)(d := b_escrow B d + amt)\<rparr>)
      else None)"
| "billing_step (Bill d units seq) B =
     (case (b_operator B d, b_rate B d) of
        (Some opr, Some rate) \<Rightarrow>
          if 0 < units \<and> seq = Suc (b_seq B d) \<and> int units * rate \<le> b_escrow B d
          then Some (B\<lparr>b_escrow := (b_escrow B)(d := b_escrow B d - int units * rate),
                       b_earned := (b_earned B)(opr := b_earned B opr + int units * rate),
                       b_seq := (b_seq B)(d := seq),
                       b_units := (b_units B)(d := b_units B d + units)\<rparr>)
          else None
      | _ \<Rightarrow> None)"
| "billing_step (Pay opr amt) B =
     (if 0 < amt \<and> amt \<le> b_earned B opr - b_paid B opr
      then Some (B\<lparr>b_paid := (b_paid B)(opr := b_paid B opr + amt)\<rparr>)
      else None)"

text \<open>The ledger a contract state stands for.\<close>

definition billing_of :: "(StorageKey \<rightharpoonup> StorageValue) \<Rightarrow> billing" where
  "billing_of p = \<lparr>
     b_operator = (\<lambda>d. map_option reg_operator (p_registration p d)),
     b_rate = (\<lambda>d. map_option (sint \<circ> rate_per_unit) (p_tariff p d)),
     b_escrow = dep_int p,
     b_seq = (\<lambda>d. unat (last_seq (rdg_of p d))),
     b_units = (\<lambda>d. unat (cumulative_units (rdg_of p d))),
     b_earned = (\<lambda>opr. sint (total_earned (p_operator p opr))),
     b_paid = (\<lambda>opr. sint (total_settled (p_operator p opr)))\<rparr>"

lemma billing_of_upd [simp]:
  "billing_of (p(KDeviceRegistration d \<mapsto> VRegistration r)) =
     (billing_of p)\<lparr>b_operator := (b_operator (billing_of p))(d \<mapsto> reg_operator r)\<rparr>"
  "billing_of (p(KTariffRate d \<mapsto> VTariff t)) =
     (billing_of p)\<lparr>b_rate := (b_rate (billing_of p))(d \<mapsto> sint (rate_per_unit t))\<rparr>"
  "billing_of (p(KDepositBalance d \<mapsto> VDeposit b)) =
     (billing_of p)\<lparr>b_escrow := (b_escrow (billing_of p))(d := sint (amount b))\<rparr>"
  "billing_of (p(KReadingCounter d \<mapsto> VReading c)) =
     (billing_of p)\<lparr>b_seq := (b_seq (billing_of p))(d := unat (last_seq c)),
       b_units := (b_units (billing_of p))(d := unat (cumulative_units c))\<rparr>"
  "billing_of (p(KOperatorBalance opr \<mapsto> VOperator x)) =
     (billing_of p)\<lparr>b_earned := (b_earned (billing_of p))(opr := sint (total_earned x)),
       b_paid := (b_paid (billing_of p))(opr := sint (total_settled x))\<rparr>"
  by (auto simp: billing_of_def fun_eq_iff)

lemma billing_of_sel [simp]:
  "b_operator (billing_of p) d = map_option reg_operator (p_registration p d)"
  "b_rate (billing_of p) d = map_option (sint \<circ> rate_per_unit) (p_tariff p d)"
  "b_escrow (billing_of p) d = dep_int p d"
  "b_seq (billing_of p) d = unat (last_seq (rdg_of p d))"
  "b_units (billing_of p) d = unat (cumulative_units (rdg_of p d))"
  "b_earned (billing_of p) opr = sint (total_earned (p_operator p opr))"
  "b_paid (billing_of p) opr = sint (total_settled (p_operator p opr))"
  by (simp_all add: billing_of_def)

lemma fun_upd_same_value: "f x = v \<Longrightarrow> f(x := v) = f"
  by auto

lemma register_refines:
  assumes ok: "accounts_ok s" and eff: "register_device tx d pk opr rate s = Inr (v, s')"
  shows "billing_step (Enrol d opr (sint rate)) (billing_of (persistent s)) =
    Some (billing_of (persistent s'))"
proof -
  note e = register_device_Inr [OF eff]
  have "dep_int (persistent s) d = 0"
    using ok e by (simp add: dep_int_unregistered)
  then have "(b_escrow (billing_of (persistent s)))(d := 0) = b_escrow (billing_of (persistent s))"
    by (simp add: fun_upd_same_value)
  with e show ?thesis by simp
qed

lemma deposit_refines:
  assumes eff: "deposit_funds net tx d amt s = Inr (v, s')"
  shows "billing_step (Fund d (sint amt)) (billing_of (persistent s)) =
    Some (billing_of (persistent s'))"
  using eff
proof (cases rule: deposit_funds_cases)
  case (accepted old new tok toks)
  have "sint new = dep_int (persistent s) d + sint amt"
    using i128_checked_add_exact [OF accepted(5)] accepted(4) by (simp add: dep_int_def split: option.splits)
  with accepted(2,3,8) show ?thesis by simp
qed

lemma reading_refines:
  assumes eff: "submit_reading net tx d units seq ts sig s = Inr (cost, s')"
  shows "billing_step (Bill d (unat units) (unat seq)) (billing_of (persistent s)) =
    Some (billing_of (persistent s'))"
  using eff
proof (cases rule: submit_reading_cases)
  case (accepted reg tp bal left earned u)
  have cost: "sint cost = int (unat units) * sint (rate_per_unit tp)"
    by (simp only: i128_checked_mul_exact [OF accepted(8)] sint_i128_of_u64)
  have vals: "sint left = dep_int (persistent s) d - sint cost"
    "sint earned = sint (total_earned (p_operator (persistent s) (reg_operator reg))) + sint cost"
    "unat u = unat (cumulative_units (rdg_of (persistent s) d)) + unat units"
    "unat seq = Suc (unat (last_seq (rdg_of (persistent s) d)))"
    using i128_checked_sub_exact [OF accepted(11)] accepted(9) i128_checked_add_exact [OF accepted(12)]
      u64_checked_add_exact [OF accepted(13)] u64_checked_add_exact [OF accepted(4)]
    by (simp_all add: dep_int_def)
  have enough: "sint cost \<le> dep_int (persistent s) d"
    using accepted(9,10) by (simp add: dep_int_def)
  have "unat units > 0" using accepted(3) by (simp add: unat_gt_0)
  then show ?thesis
    using accepted(1,6,14) vals enough cost by (simp add: fun_upd_same_value)
qed

lemma settle_refines:
  assumes ok: "accounts_ok s" and eff: "settle_balance net tx opr amt s = Inr (v, s')"
  shows "billing_step (Pay opr (sint amt)) (billing_of (persistent s)) =
    Some (billing_of (persistent s'))"
  using eff
proof (cases rule: settle_balance_cases)
  case (accepted bal settled tok toks)
  have "0 \<le> sint (total_settled bal)" "sint (total_settled bal) \<le> sint (total_earned bal)"
    using ok by (simp_all add: accounts_ok_def owed_int_def accepted(3))
  then have "sint amt \<le> sint (total_earned bal) - sint (total_settled bal)"
    using accepted(4) by (simp add: withdrawable_exact)
  with accepted(2,3,8) i128_checked_add_exact [OF accepted(5)] show ?thesis
    by (simp add: fun_upd_same_value)
qed

text \<open>Which step of the ledger a call stands for; reads stand for none.\<close>

fun action_of :: "call \<Rightarrow> action option" where
  "action_of (Register_Device d pk opr rate) = Some (Enrol d opr (sint rate))"
| "action_of (Deposit_Funds d amt) = Some (Fund d (sint amt))"
| "action_of (Submit_Reading d units seq ts sig) = Some (Bill d (unat units) (unat seq))"
| "action_of (Settle_Balance opr amt) = Some (Pay opr (sint amt))"
| "action_of _ = None"

lemma exec_refines:
  assumes "accounts_ok s"
  shows "billing_of (persistent (exec net tx c s)) = billing_of (persistent s) \<or>
    (\<exists>a. action_of c = Some a \<and>
      billing_step a (billing_of (persistent s)) = Some (billing_of (persistent (exec net tx c s))))"
proof (cases c)
  case (Register_Device d pk opr rate)
  then show ?thesis
    using register_refines [OF assms, of tx d pk opr rate]
    by (cases "register_device tx d pk opr rate s") (auto simp: commit_def)
next
  case (Deposit_Funds d amt)
  then show ?thesis
    using deposit_refines [of net tx d amt s]
    by (cases "deposit_funds net tx d amt s") (auto simp: commit_def)
next
  case (Submit_Reading d units seq ts sig)
  then show ?thesis
    using reading_refines [of net tx d units seq ts sig s]
    by (cases "submit_reading net tx d units seq ts sig s") (auto simp: commit_def)
next
  case (Settle_Balance opr amt)
  then show ?thesis
    using settle_refines [OF assms, of net tx opr amt]
    by (cases "settle_balance net tx opr amt s") (auto simp: commit_def)
next
  case (Get_Registration d)
  then show ?thesis using reads_same_data(1) [of s d] by (simp add: same_data_def)
next
  case (Get_Tariff d)
  then show ?thesis using reads_same_data(2) [of s d] by (simp add: same_data_def)
next
  case (Get_Balance d)
  then show ?thesis using reads_same_data(3) [of s d] by (simp add: same_data_def)
next
  case (Get_Reading d)
  then show ?thesis using reads_same_data(4) [of s d] by (simp add: same_data_def)
next
  case (Get_Operator_Balance d)
  then show ?thesis using reads_same_data(5) [of s d] by (simp add: same_data_def)
qed

section \<open>The decision table of a reading\<close>

text \<open>
  The outcome of \<open>submit_reading\<close> for a registered device in a reachable state, in the order
  the code decides, over integers.
\<close>

definition reading_verdict ::
    "'t network \<Rightarrow> DeviceRegistration \<Rightarrow> int \<Rightarrow> int \<Rightarrow> int \<Rightarrow> ReadingCounter
      \<Rightarrow> u64 \<Rightarrow> u64 \<Rightarrow> u64 \<Rightarrow> byte list \<Rightarrow> failure + int" where
  "reading_verdict net reg rate escrow earned rdg units seq ts sig =
     (if units = 0 then Inl (ContractError ZeroReading)
      else if unat (last_seq rdg) = 2 ^ 64 - 1 then Inl (ContractError Overflow)
      else if unat seq \<noteq> Suc (unat (last_seq rdg)) then Inl (ContractError InvalidSequence)
      else if length sig \<noteq> 64 then Inl (ContractError InvalidSignature)
      else if \<not> ed25519_verify net (device_pubkey reg) (signed_payload (device_pubkey reg) seq units ts) sig
        then Inl HostTrap
      else if \<not> in_i128 (int (unat units) * rate) then Inl (ContractError Overflow)
      else if escrow < int (unat units) * rate then Inl (ContractError InsufficientBalance)
      else if \<not> in_i128 (earned + int (unat units) * rate) then Inl (ContractError Overflow)
      else if 2 ^ 64 \<le> unat (cumulative_units rdg) + unat units then Inl (ContractError Overflow)
      else Inr (int (unat units) * rate))"

lemma next_seq_word:
  "u64_checked_add a 1 = (if unat a = 2 ^ 64 - 1 then None else Some (a + 1))"
  "unat a \<noteq> 2 ^ 64 - 1 \<Longrightarrow> unat (a + 1) = Suc (unat a)"
proof -
  have "unat a < 2 ^ 64" using unsigned_less [of a, where ?'a = nat] by simp
  then show "u64_checked_add a 1 = (if unat a = 2 ^ 64 - 1 then None else Some (a + 1))"
    by (auto simp: u64_checked_add_def)
  show "unat a \<noteq> 2 ^ 64 - 1 \<Longrightarrow> unat (a + 1) = Suc (unat a)"
    using \<open>unat a < 2 ^ 64\<close> by (simp add: unat_word_ariths)
qed

lemma submit_verdict:
  assumes ok: "accounts_ok s"
    and reg: "p_registration (persistent s) d = Some reg"
    and tp: "p_tariff (persistent s) d = Some tp"
  shows "map_sum (\<lambda>e. e) (\<lambda>(cost, s'). sint cost) (submit_reading net tx d units seq ts sig s) =
    reading_verdict net reg (sint (rate_per_unit tp)) (dep_int (persistent s) d)
      (sint (total_earned (p_operator (persistent s) (reg_operator reg))))
      (rdg_of (persistent s) d) units seq ts sig"
proof -
  obtain bal where bal: "p_deposit (persistent s) d = Some bal"
    using ok reg unfolding accounts_ok_def by fastforce
  have facts: "reg_status reg = Active" "0 \<le> sint (rate_per_unit tp)" "dep_int (persistent s) d = sint (amount bal)"
    using ok reg tp bal unfolding accounts_ok_def by (auto simp: dep_int_def)
  have pos: "\<not> sint (rate_per_unit tp) < 0" using facts(2) by simp
  define c where "c = i128_of_u64 units * rate_per_unit tp"
  have mul: "i128_checked_mul (i128_of_u64 units) (rate_per_unit tp) =
      (if in_i128 (int (unat units) * sint (rate_per_unit tp)) then Some c else None)"
    by (simp only: i128_checked_mul_def sint_i128_of_u64 c_def)
  have c: "in_i128 (int (unat units) * sint (rate_per_unit tp)) \<Longrightarrow>
      sint c = int (unat units) * sint (rate_per_unit tp)"
    using i128_mul_word [of "i128_of_u64 units" "rate_per_unit tp"]
    by (simp only: sint_i128_of_u64 c_def)
  have seq: "seq = last_seq (rdg_of (persistent s) d) + 1 \<longleftrightarrow>
      unat seq = Suc (unat (last_seq (rdg_of (persistent s) d)))"
    if "unat (last_seq (rdg_of (persistent s) d)) \<noteq> 2 ^ 64 - 1"
    using next_seq_word(2) [OF that] by (metis word_unat_eq_iff)
  have sub: "i128_checked_sub (amount bal) c = Some (amount bal - c)"
    if "in_i128 (int (unat units) * sint (rate_per_unit tp))" "\<not> sint (amount bal) < sint c"
    using that facts(2) c by (intro i128_checked_sub_nonneg) auto
  note eval = submit_reading_def reading_verdict_def model_simps reg tp bal facts pos verify_signature_def
    i128_less_def Let_def rdg_of_def [symmetric] next_seq_word(1) mul
    i128_checked_add_def u64_checked_add_def [of "cumulative_units x" for x]
  show ?thesis
  proof (cases "units = 0 \<or> unat (last_seq (rdg_of (persistent s) d)) = 2 ^ 64 - 1
      \<or> unat seq \<noteq> Suc (unat (last_seq (rdg_of (persistent s) d))) \<or> length sig \<noteq> 64
      \<or> \<not> ed25519_verify net (device_pubkey reg) (signed_payload (device_pubkey reg) seq units ts) sig
      \<or> \<not> in_i128 (int (unat units) * sint (rate_per_unit tp))")
    case True
    then show ?thesis
      using seq by (auto simp: eval simp del: int_nat_eq of_nat_unat)
  next
    case False
    then have in_range: "in_i128 (int (unat units) * sint (rate_per_unit tp))" by blast
    have "seq = last_seq (rdg_of (persistent s) d) + 1" using False seq by blast
    then show ?thesis
      using False c [OF in_range] sub [OF in_range]
      by (simp add: eval)
  qed
qed

end
