(* ===== verification/Contract_Properties.thy ===== *)
theory Contract_Properties
  imports Billing_Spec
begin

text \<open>
  The properties of the billing contract, and a concrete network and history on which they
  are exercised: a token held as a balance per account, and one device that registers, pays
  in, is billed once and whose operator withdraws.
\<close>

section \<open>A concrete network\<close>

definition demo_transfer ::
    "address \<Rightarrow> address \<Rightarrow> address \<Rightarrow> i128 \<Rightarrow> (address \<Rightarrow> i128) \<Rightarrow> (address \<Rightarrow> i128) option" where
  "demo_transfer tok src dst amt t =
     (if 0 \<le> sint amt \<and> sint amt \<le> sint (t src) \<and> in_i128 (sint (t dst) + sint amt)
         \<and> in_i128 (sint (t src) - sint amt)
      then Some ((t(src := t src - amt))(dst := (t(src := t src - amt)) dst + amt)) else None)"

definition demo_net :: "(address \<Rightarrow> i128) network" where
  "demo_net = \<lparr>contract_address = ''C'', token_transfer = demo_transfer,
     token_balance = (\<lambda>tok a t. t a), ed25519_verify = (\<lambda>pk msg sig. sig = take 64 msg)\<rparr>"

lemma demo_sep41: "sep41 demo_net"
  by (auto simp: sep41_def demo_net_def demo_transfer_def i128_add_word i128_sub_word split: if_splits)

definition demo_tx :: txn where
  "demo_tx = \<lparr>authorized = (\<lambda>a. a \<noteq> ''C''), ledger_timestamp = 5\<rparr>"

definition demo_key :: "byte list" where
  "demo_key = replicate 32 1"

definition demo_start :: "(address \<Rightarrow> i128) cstate" where
  "demo_start = contract_constructor ''T'' (empty_state ((\<lambda>_. 0)(''D'' := 1000)))"

definition demo_registered :: "(address \<Rightarrow> i128) cstate" where
  "demo_registered = exec demo_net demo_tx (Register_Device ''D'' demo_key ''O'' 10) demo_start"

definition demo_funded :: "(address \<Rightarrow> i128) cstate" where
  "demo_funded = exec demo_net demo_tx (Deposit_Funds ''D'' 500) demo_registered"

definition demo_sig :: "byte list" where
  "demo_sig = take 64 (signed_payload demo_key 1 3 7)"

definition demo_billed :: "(address \<Rightarrow> i128) cstate" where
  "demo_billed = exec demo_net demo_tx (Submit_Reading ''D'' 3 1 7 demo_sig) demo_funded"

definition demo_paid :: "(address \<Rightarrow> i128) cstate" where
  "demo_paid = exec demo_net demo_tx (Settle_Balance ''O'' 20) demo_billed"

lemma demo_not_self: "\<not> authorized demo_tx (contract_address demo_net)"
  by (simp add: demo_tx_def demo_net_def)

lemma demo_start_reachable: "reachable demo_net demo_start"
  unfolding demo_start_def by (rule reachable.deployed)
    (simp add: custody_def contract_constructor_def token_def set_token_def empty_state_def demo_net_def)

lemma demo_exec_reachable: "reachable demo_net s \<Longrightarrow> reachable demo_net (exec demo_net demo_tx c s)"
  by (erule reachable.step) (rule ledger_step.invocation [OF demo_not_self])

lemma demo_reachable:
  "reachable demo_net demo_registered" "reachable demo_net demo_funded"
  "reachable demo_net demo_billed" "reachable demo_net demo_paid"
proof -
  show 1: "reachable demo_net demo_registered"
    unfolding demo_registered_def by (intro demo_exec_reachable demo_start_reachable)
  show 2: "reachable demo_net demo_funded"
    unfolding demo_funded_def by (intro demo_exec_reachable 1)
  show 3: "reachable demo_net demo_billed"
    unfolding demo_billed_def by (intro demo_exec_reachable 2)
  show "reachable demo_net demo_paid"
    unfolding demo_paid_def by (intro demo_exec_reachable 3)
qed

text \<open>What the demonstration states hold.\<close>

lemma demo_registered_eval:
  "p_registration (persistent demo_registered) ''D'' =
     Some \<lparr>reg_operator = ''O'', reg_status = Active, registered_at = 5, device_pubkey = demo_key\<rparr>"
  "p_tariff (persistent demo_registered) ''D'' = Some \<lparr>rate_per_unit = 10\<rparr>"
  "p_deposit (persistent demo_registered) ''D'' = Some \<lparr>amount = 0\<rparr>"
  "p_reading (persistent demo_registered) ''D'' = None"
  "p_operator (persistent demo_registered) ''O'' = \<lparr>total_earned = 0, total_settled = 0\<rparr>"
  "token demo_registered = Some ''T''"
  "tokens demo_registered = (\<lambda>_. 0)(''D'' := 1000)"
  by (simp_all add: demo_registered_def demo_start_def commit_def register_device_def model_simps
      demo_tx_def i128_less_def p_registration_def [of Map.empty] p_reading_def [of Map.empty]
      p_operator_def [of Map.empty] token_def)

lemma demo_deposit_eval:
  "deposit_funds demo_net demo_tx ''D'' 500 demo_registered = Inr (True, demo_funded)"
  "p_registration (persistent demo_funded) ''D'' =
     Some \<lparr>reg_operator = ''O'', reg_status = Active, registered_at = 5, device_pubkey = demo_key\<rparr>"
  "p_tariff (persistent demo_funded) ''D'' = Some \<lparr>rate_per_unit = 10\<rparr>"
  "p_deposit (persistent demo_funded) ''D'' = Some \<lparr>amount = 500\<rparr>"
  "p_reading (persistent demo_funded) ''D'' = None"
  "p_operator (persistent demo_funded) ''O'' = \<lparr>total_earned = 0, total_settled = 0\<rparr>"
  "token demo_funded = Some ''T''"
  "tokens demo_funded = (\<lambda>_. 0)(''D'' := 500, ''C'' := 500)"
  by (simp_all add: demo_funded_def commit_def deposit_funds_def model_simps demo_tx_def i128_le_def
    demo_registered_eval i128_checked_add_def in_i128_def demo_net_def demo_transfer_def fun_eq_iff)

lemma demo_submit_eval:
  "submit_reading demo_net demo_tx ''D'' 3 1 7 demo_sig demo_funded = Inr (30, demo_billed)"
  "p_registration (persistent demo_billed) ''D'' =
     Some \<lparr>reg_operator = ''O'', reg_status = Active, registered_at = 5, device_pubkey = demo_key\<rparr>"
  "p_tariff (persistent demo_billed) ''D'' = Some \<lparr>rate_per_unit = 10\<rparr>"
  "p_deposit (persistent demo_billed) ''D'' = Some \<lparr>amount = 470\<rparr>"
  "p_operator (persistent demo_billed) ''O'' = \<lparr>total_earned = 30, total_settled = 0\<rparr>"
  "token demo_billed = Some ''T''"
  "tokens demo_billed = (\<lambda>_. 0)(''D'' := 500, ''C'' := 500)"
  by (simp_all add: demo_billed_def commit_def submit_reading_def model_simps demo_tx_def i128_less_def Let_def
    demo_deposit_eval i128_checked_add_def i128_checked_sub_def i128_checked_mul_def u64_checked_add_def
    i128_of_u64_def in_i128_def demo_net_def verify_signature_def demo_sig_def length_signed_payload demo_key_def)

lemma demo_settle_eval:
  "settle_balance demo_net demo_tx ''O'' 20 demo_billed = Inr (True, demo_paid)"
  "p_operator (persistent demo_paid) ''O'' = \<lparr>total_earned = 30, total_settled = 20\<rparr>"
  by (simp_all add: demo_paid_def commit_def settle_balance_def model_simps demo_tx_def i128_le_def i128_less_def
    Let_def demo_submit_eval i128_checked_add_def in_i128_def demo_net_def demo_transfer_def
    i128_saturating_sub_def)

section \<open>Money\<close>

text \<open>C3. In every reachable state the contract's holdings of the billing token cover the sum of all
  device deposits and of all operator earnings not yet withdrawn.\<close>

theorem contract_solvency:
  assumes "sep41 net" and "reachable net s"
  shows "escrow_total (persistent s) + owed_total (persistent s) \<le> custody net s"
  using reachable_solvent [OF assms] by (simp add: solvent_def)

theorem contract_solvency_witness:
  "sep41 demo_net \<and> reachable demo_net demo_paid \<and>
   escrow_total (persistent demo_paid) + owed_total (persistent demo_paid) \<le> custody demo_net demo_paid"
  using contract_solvency [OF demo_sep41 demo_reachable(4)] demo_sep41 demo_reachable(4) by blast

text \<open>C4. The contract refines the abstract billing ledger: every invocation from a reachable state
  either leaves the ledger as it is or performs exactly the enrolment, payment, bill or
  withdrawal its arguments name, under the guards of that ledger.\<close>

theorem contract_refines_billing:
  assumes "reachable net s"
  shows "billing_of (persistent (exec net tx c s)) = billing_of (persistent s) \<or>
    (\<exists>a. action_of c = Some a \<and>
      billing_step a (billing_of (persistent s)) = Some (billing_of (persistent (exec net tx c s))))"
  using accounts.inv_reachable [OF assms] by (rule exec_refines)

theorem contract_refines_billing_witness:
  "reachable demo_net demo_funded \<and>
   (billing_of (persistent (exec demo_net demo_tx (Settle_Balance ''O'' 1) demo_funded)) = billing_of (persistent demo_funded) \<or>
    (\<exists>a. action_of (Settle_Balance ''O'' 1) = Some a \<and>
      billing_step a (billing_of (persistent demo_funded)) =
        Some (billing_of (persistent (exec demo_net demo_tx (Settle_Balance ''O'' 1) demo_funded)))))"
  using contract_refines_billing [OF demo_reachable(2)] demo_reachable(2) by blast

text \<open>C5. The outcome of \<open>submit_reading\<close> for a registered device is the decision table over integers:
  a zero reading, an exhausted counter, a wrong sequence number, a malformed or invalid
  signature, an overflowing cost, an insufficient deposit and overflowing totals are refused in
  this order, and otherwise exactly \<open>delta_units * rate\<close> is charged.\<close>

theorem submit_reading_decision:
  assumes "reachable net s"
    and "p_registration (persistent s) d = Some reg" and "p_tariff (persistent s) d = Some tp"
  shows "map_sum (\<lambda>e. e) (\<lambda>(cost, s'). sint cost) (submit_reading net tx d units seq ts sig s) =
    reading_verdict net reg (sint (rate_per_unit tp)) (dep_int (persistent s) d)
      (sint (total_earned (p_operator (persistent s) (reg_operator reg))))
      (rdg_of (persistent s) d) units seq ts sig"
  using submit_verdict [OF accounts.inv_reachable [OF assms(1)] assms(2,3)] .

theorem submit_reading_decision_witness:
  "map_sum (\<lambda>e. e) (\<lambda>(cost, s'). sint cost) (submit_reading demo_net demo_tx ''D'' 3 1 7 demo_sig demo_funded) = Inr 30"
  unfolding submit_reading_decision [OF demo_reachable(2) demo_deposit_eval(2,3)]
  by (simp add: reading_verdict_def rdg_of_def demo_deposit_eval in_i128_def demo_net_def demo_sig_def
      length_signed_payload demo_key_def dep_int_def)

text \<open>C6. A reading is billed at most once: after a reading of a device was accepted under a sequence
  number, no later invocation accepts one under the same number, whatever the relayer, units,
  timestamp and signature; it is refused as a zero reading, as out of sequence, or as overflow
  once the counter is exhausted.\<close>

theorem reading_billed_once:
  assumes "reachable net s" and "\<not> authorized tx (contract_address net)"
    and acc: "submit_reading net tx d units seq ts sig s = Inr (cost, s1)"
    and later: "ledger_steps net s1 s2"
  shows "submit_reading net tx' d units' seq ts' sig' s2 \<in>
      (if units' = 0 then {Inl (ContractError ZeroReading)}
       else {Inl (ContractError InvalidSequence), Inl (ContractError Overflow)})"
proof -
  have "ledger_step net s s1"
    using ledger_step.invocation [OF assms(2), of s "Submit_Reading d units seq ts sig"] acc
    by (simp add: commit_def)
  then have s1: "reachable net s1" using assms(1) by (rule reachable.step [rotated])
  then have s2: "reachable net s2" and ev: "evolves s1 s2"
    using ledger_steps_evolve [OF later] by simp_all
  have le: "unat seq \<le> unat (last_seq (rdg_of (persistent s2) d))"
    using ev submit_sets_seq [OF acc] by (auto simp: evolves_def)
  obtain reg where reg1: "p_registration (persistent s1) d = Some reg"
    using acc by (cases rule: submit_reading_cases) simp
  obtain tp where tp1: "p_tariff (persistent s1) d = Some tp"
    using acc by (cases rule: submit_reading_cases) simp
  have "p_registration (persistent s2) d = Some reg" "p_tariff (persistent s2) d = Some tp"
    using ev reg1 tp1 by (simp_all add: evolves_def)
  note v = submit_verdict [OF accounts.inv_reachable [OF s2] this, of net tx' units' seq ts' sig']
  show ?thesis
    using v le by (cases "submit_reading net tx' d units' seq ts' sig' s2")
      (auto simp: reading_verdict_def split: if_splits)
qed

theorem reading_billed_once_witness:
  "submit_reading demo_net demo_tx ''D'' 3 1 7 demo_sig demo_funded = Inr (30, demo_billed) \<and>
   submit_reading demo_net demo_tx ''D'' 3 1 7 demo_sig demo_paid \<in>
     {Inl (ContractError InvalidSequence), Inl (ContractError Overflow)}"
proof -
  have "ledger_step demo_net demo_billed demo_paid"
    unfolding demo_paid_def by (rule ledger_step.invocation [OF demo_not_self])
  then have later: "ledger_steps demo_net demo_billed demo_paid" by (rule r_into_rtranclp)
  show ?thesis
    using reading_billed_once [OF demo_reachable(2) demo_not_self demo_submit_eval(1) later, of demo_tx 3 7 demo_sig]
      demo_submit_eval(1) by simp
qed

text \<open>C23. What an operator can withdraw is exactly what it earned and was not paid: an authorised
  positive withdrawal is refused with \<open>InsufficientEarnings\<close> precisely when it exceeds
  \<open>total_earned - total_settled\<close>, computed without saturation.\<close>

theorem settlement_limit:
  assumes "reachable net s" and "authorized tx opr" and "0 < sint amt"
  shows "settle_balance net tx opr amt s = Inl (ContractError InsufficientEarnings) \<longleftrightarrow>
    sint (total_earned (fst (get_operator_balance opr s))) -
      sint (total_settled (fst (get_operator_balance opr s))) < sint amt"
proof -
  have b: "0 \<le> sint (total_settled (p_operator (persistent s) opr))"
    "sint (total_settled (p_operator (persistent s) opr)) \<le> sint (total_earned (p_operator (persistent s) opr))"
    using accounts.inv_reachable [OF assms(1)] by (simp_all add: accounts_ok_def owed_int_def)
  have "settle_balance net tx opr amt s = Inl (ContractError InsufficientEarnings) \<longleftrightarrow>
      i128_less (i128_saturating_sub (total_earned (p_operator (persistent s) opr))
        (total_settled (p_operator (persistent s) opr))) amt"
    using assms(2,3)
    by (auto simp: settle_balance_def model_simps i128_le_def Let_def ensure_def some_or_def getM_def
        doM_def retM_def split: option.split)
  then show ?thesis
    by (simp add: i128_less_def withdrawable_exact [OF b] get_operator_balance_def model_simps)
qed

theorem settlement_limit_witness:
  "settle_balance demo_net demo_tx ''O'' 31 demo_billed = Inl (ContractError InsufficientEarnings)"
  using settlement_limit [OF demo_reachable(3), of demo_tx "''O''" 31]
  by (simp add: demo_tx_def get_operator_balance_def model_simps demo_submit_eval)

text \<open>A withdrawal touches nothing but the operator's own ledger: every device balance, tariff,
  reading counter and every other operator's ledger reads as before.\<close>

theorem settlement_frame:
  assumes "settle_balance net tx opr amt s = Inr (v, s')"
  shows "fst (get_balance d s') = fst (get_balance d s) \<and> fst (get_tariff d s') = fst (get_tariff d s)
    \<and> fst (get_reading d s') = fst (get_reading d s) \<and> fst (get_registration d s') = fst (get_registration d s)
    \<and> (x \<noteq> opr \<longrightarrow> fst (get_operator_balance x s') = fst (get_operator_balance x s))
    \<and> total_earned (fst (get_operator_balance opr s')) = total_earned (fst (get_operator_balance opr s))
    \<and> sint (total_settled (fst (get_operator_balance opr s'))) =
        sint (total_settled (fst (get_operator_balance opr s))) + sint amt"
  using assms
proof (cases rule: settle_balance_cases)
  case (accepted bal settled tok toks)
  then show ?thesis
    using i128_checked_add_exact [OF accepted(5)]
    by (simp add: get_balance_def get_tariff_def get_reading_def get_registration_def
        get_operator_balance_def model_simps split_beta)
qed

theorem settlement_frame_witness:
  "settle_balance demo_net demo_tx ''O'' 20 demo_billed = Inr (True, demo_paid) \<and>
   fst (get_balance ''D'' demo_paid) = Some 470"
  using settlement_frame [OF demo_settle_eval(1), of "''D''" "''O''"] demo_settle_eval(1)
  by (simp add: get_balance_def model_simps split_beta demo_submit_eval)

section \<open>The log as the record\<close>

text \<open>C21. What the contract reports of a device is determined by its event log: its deposit is what it
  paid in less what it was billed, its sequence counter is the number of its \<open>meter\<close> events, which
  are numbered 1, 2, 3 without gaps, and its unit counter is the sum of the units billed.\<close>

theorem log_determines_device:
  assumes "reachable net s"
  shows "(\<forall>b. fst (get_balance d s) = Some b \<longrightarrow> sint b = deposited d (published s) - billed d (published s))
    \<and> map (\<lambda>m. unat (m_seq m)) (meters_of d (published s)) = [1..<Suc (length (meters_of d (published s)))]
    \<and> (\<forall>r. fst (get_reading d s) = Some r \<longrightarrow>
          unat (last_seq r) = length (meters_of d (published s))
        \<and> unat (cumulative_units r) = metered d (published s))"
proof -
  have h: "device_history_ok s d" using history.inv_reachable [OF assms] by (simp add: history_ok_def)
  then show ?thesis
    by (auto simp: device_history_ok_def get_balance_def get_reading_def model_simps split_beta
        dep_int_def rdg_of_def split: option.splits)
qed

theorem log_determines_device_witness:
  "reachable demo_net demo_paid \<and>
   map (\<lambda>m. unat (m_seq m)) (meters_of ''D'' (published demo_paid)) =
     [1..<Suc (length (meters_of ''D'' (published demo_paid)))]"
  using log_determines_device [OF demo_reachable(4), of "''D''"] demo_reachable(4) by blast



text \<open>Every \<open>meter\<close> event of a device was billed at the rate it registered with:
  \<open>total_cost = delta_units * rate_per_unit\<close>.\<close>

theorem bills_at_registered_rate:
  assumes "reachable net s" and "fst (get_tariff d s) = Some tp" and "m \<in> set (meters_of d (published s))"
  shows "sint (m_cost m) = int (unat (m_units m)) * sint (rate_per_unit tp)"
proof -
  have "device_history_ok s d" using history.inv_reachable [OF assms(1)] by (simp add: history_ok_def)
  moreover have "p_tariff (persistent s) d = Some tp"
    using assms(2) by (simp add: get_tariff_def model_simps)
  ultimately show ?thesis using assms(3) unfolding device_history_ok_def by blast
qed

lemma demo_billed_meters:
  "meters_of ''D'' (published demo_billed) =
     [\<lparr>m_device = ''D'', m_units = 3, m_cost = 30, m_balance = 470, m_seq = 1, m_ts = 5\<rparr>]"
proof -
  have "meters_of ''D'' (published demo_registered) = []"
    by (simp add: demo_registered_def demo_start_def commit_def register_device_def model_simps
      demo_tx_def i128_less_def p_registration_def [of Map.empty])
  moreover obtain e where "published demo_funded = published demo_registered @ [e]" "meters_of ''D'' [e] = []"
    using demo_deposit_eval(1) by (cases rule: deposit_funds_cases) auto
  ultimately have none: "meters_of ''D'' (published demo_funded) = []" by simp
  from demo_submit_eval(1) show ?thesis
  proof (cases rule: submit_reading_cases)
    case (accepted reg tp bal left earned units)
    then show ?thesis
      by (auto simp add: none demo_deposit_eval demo_tx_def i128_checked_sub_def split: if_splits)
  qed
qed

theorem bills_at_registered_rate_witness: "sint (30 :: i128) = int (unat (3 :: u64)) * sint (10 :: i128)"
proof -
  have t: "fst (get_tariff ''D'' demo_billed) = Some \<lparr>rate_per_unit = 10\<rparr>"
    by (simp add: get_tariff_def model_simps demo_submit_eval)
  show ?thesis
    using bills_at_registered_rate [OF demo_reachable(3) t,
        of "\<lparr>m_device = ''D'', m_units = 3, m_cost = 30, m_balance = 470, m_seq = 1, m_ts = 5\<rparr>"]
    unfolding demo_billed_meters by simp
qed

section \<open>Types and errors\<close>

text \<open>In every reachable state each storage key holds a value of its own type, the instance storage
  holds the billing token and nothing else, and finitely many entries exist: a typed read never
  meets a foreign value.\<close>

theorem storage_is_typed:
  assumes "reachable net s"
  shows "(\<forall>k v. persistent s k = Some v \<longrightarrow> key_typed k v)
     \<and> (\<exists>tok. instance_storage s = [KToken \<mapsto> VAddress tok]) \<and> finite (dom (persistent s))"
  using typed.inv_reachable [OF assms] unfolding storage_typed_def .

theorem storage_is_typed_witness:
  "reachable demo_net demo_paid \<and> finite (dom (persistent demo_paid))"
  using storage_is_typed [OF demo_reachable(4)] demo_reachable(4) by blast

text \<open>Three of the declared errors cannot occur once the contract is deployed: no call ever returns
  \<open>DeviceNotActive\<close> (nothing suspends or retires a device), \<open>NotInitialized\<close>, or, from
  \<open>submit_reading\<close>, \<open>InvalidRate\<close>; and a 64-byte signature is never \<open>InvalidSignature\<close>, it traps.\<close>

theorem unreachable_errors:
  assumes "reachable net s"
  shows "submit_reading net tx d units seq ts sig s \<noteq> Inl (ContractError DeviceNotActive)
    \<and> submit_reading net tx d units seq ts sig s \<noteq> Inl (ContractError InvalidRate)
    \<and> (length sig = 64 \<longrightarrow> submit_reading net tx d units seq ts sig s \<noteq> Inl (ContractError InvalidSignature))
    \<and> deposit_funds net tx d amt s \<noteq> Inl (ContractError NotInitialized)
    \<and> settle_balance net tx opr amt s \<noteq> Inl (ContractError NotInitialized)"
proof -
  obtain tok where tok: "token s = Some tok"
    using typed.inv_reachable [OF assms] by (auto simp: storage_typed_def token_def)
  have acc: "accounts_ok s" by (rule accounts.inv_reachable [OF assms])
  have sub: "submit_reading net tx d units seq ts sig s \<noteq> Inl (ContractError e)"
    if "e = DeviceNotActive \<or> e = InvalidRate \<or> (e = InvalidSignature \<and> length sig = 64)" for e
  proof (cases "p_registration (persistent s) d")
    case None
    then show ?thesis using that by (auto simp: submit_reading_def model_simps)
  next
    case (Some reg)
    then obtain tp where "p_tariff (persistent s) d = Some tp"
      using acc unfolding accounts_ok_def by fastforce
    from submit_verdict [OF acc Some this, of net tx units seq ts sig] show ?thesis
      using that by (cases "submit_reading net tx d units seq ts sig s")
        (auto simp: reading_verdict_def split: if_splits)
  qed
  have "deposit_funds net tx d amt s \<noteq> Inl (ContractError NotInitialized)"
    by (simp add: deposit_funds_def runM_def ensure_def some_or_def getM_def doM_def retM_def split_beta tok
        split: option.split)
  moreover have "settle_balance net tx opr amt s \<noteq> Inl (ContractError NotInitialized)"
    by (simp add: settle_balance_def runM_def ensure_def some_or_def getM_def doM_def retM_def split_beta tok
        Let_def split: option.split)
  ultimately show ?thesis using sub by blast
qed

theorem unreachable_errors_witness:
  "reachable demo_net demo_funded \<and>
   submit_reading demo_net demo_tx ''D'' 3 1 7 [] demo_funded \<noteq> Inl (ContractError DeviceNotActive)"
  using unreachable_errors [OF demo_reachable(2)] demo_reachable(2) by blast

section \<open>Signatures\<close>

text \<open>C24. The signed payload determines what was signed: for 32-byte keys, two payloads are equal only if
  key, sequence number, units and timestamp all are, so a signature over one reading is over no
  other.\<close>

theorem payload_unambiguous:
  assumes "length pk = 32" and "length pk' = 32"
  shows "signed_payload pk seq units ts = signed_payload pk' seq' units' ts' \<longleftrightarrow>
    pk = pk' \<and> seq = seq' \<and> units = units' \<and> ts = ts'"
  using signed_payload_inj [OF assms] by blast

theorem payload_unambiguous_witness:
  "signed_payload demo_key 1 100 7 \<noteq> signed_payload demo_key 1 10 7"
  using payload_unambiguous [of demo_key demo_key 1 100 7 1 10 7] by (simp add: demo_key_def)

end
