(* ===== verification/Gateway_Properties.thy ===== *)
theory Gateway_Properties
  imports Api Contract_Properties
begin

text \<open>
  The properties of the telemetry gateway against the contract it relays to, each with its
  witness on a device with the key of the demonstration contract.
\<close>

section \<open>A device that signs\<close>

text \<open>A node whose signature check is the one of the demonstration network.\<close>

definition demo_node :: "'x node" where
  "demo_node = \<lparr>buffer_of_object = (\<lambda>v. Inl invalid_buffer), host_text = (\<lambda>x. Inr []),
     create_public_key = (\<lambda>k. Inr ()), ed25519_check = ed25519_verify demo_net\<rparr>"

definition demo_stellar :: "(string list, string) stellar" where
  "demo_stellar = \<lparr>keypair_public = (\<lambda>k. Inr ''R''), contract_id_ok = (\<lambda>c. Inr ()), address_ok = (\<lambda>a. Inr ()),
     encode_pubkey = (\<lambda>k. Inr ''D''), get_account = (\<lambda>a. js_return 0),
     prepare_transaction = (\<lambda>tx. js_return (tx_function tx)),
     send_transaction = (\<lambda>r p n. (Inr \<lparr>res_status = ''PENDING'', res_hash = ''h'', res_errors = []\<rparr>, n @ [p]))\<rparr>"

definition demo_hex_key :: string where
  "demo_hex_key = concat (replicate 32 ''01'')"

definition demo_hex_sig :: string where
  "demo_hex_sig = ''696f742d62696c6c696e672d7631'' @ demo_hex_key @ ''00000000000000010000000000000003'' @ ''0000''"

definition demo_body :: "'x jsval \<Rightarrow> 'x jsval" where
  "demo_body key = Obj [(''device_pubkey'', key), (''seq'', Num (number_of_int 1)), (''delta_units'', Num (number_of_int 3)),
     (''timestamp_ms'', Num (number_of_int 7)), (''signature'', Str demo_hex_sig)]"

definition demo_gateway :: "string list gateway" where
  "demo_gateway = \<lparr>gw_db = \<lparr>meter_columns = Some meter_schema, meta = Map.empty, meter_events = [],
     pending_readings = [], next_pending = 1\<rparr>, gw_net = [], gw_console = []\<rparr>"

lemma hex_digits:
  "hex_digit CHR ''0'' = Some 0" "hex_digit CHR ''1'' = Some 1" "hex_digit CHR ''2'' = Some 2" "hex_digit CHR ''3'' = Some 3"
  "hex_digit CHR ''4'' = Some 4" "hex_digit CHR ''6'' = Some 6" "hex_digit CHR ''7'' = Some 7" "hex_digit CHR ''9'' = Some 9"
  "hex_digit CHR ''c'' = Some 12" "hex_digit CHR ''d'' = Some 13" "hex_digit CHR ''e'' = Some 14" "hex_digit CHR ''f'' = Some 15"
  by (simp_all add: hex_digit_def radix_digit_def)

lemma hex_key_append: "hex_decode (concat (replicate n ''01'') @ s) = replicate n 1 @ hex_decode s"
  by (induction n) (simp_all add: hex_digits)

lemma demo_hex_key_decode: "hex_decode demo_hex_key = demo_key"
  using hex_key_append [of 32 "[]"] by (simp only: demo_hex_key_def demo_key_def append_Nil2 hex_decode.simps)

lemma demo_hex_sig_decode: "hex_decode demo_hex_sig = demo_sig"
proof -
  have "hex_decode demo_hex_sig = bytes_of_string ''iot-billing-v1'' @ demo_key
      @ [0, 0, 0, 0, 0, 0, 0, 1] @ [0, 0, 0, 0, 0, 0, 0, 3] @ [0, 0]"
    by (simp add: demo_hex_sig_def demo_hex_key_def hex_key_append hex_digits bytes_of_string_def demo_key_def)
  also have "\<dots> = demo_sig"
    by (simp add: demo_sig_def signed_payload_def bytes_of_string_def u64_to_be_bytes_def upt_rec demo_key_def)
  finally show ?thesis .
qed


section \<open>What the gateway relays\<close>

text \<open>
  How the contract's host reads the arguments of the call: a number tagged \<open>u64\<close> is the word it
  denotes. \<open>guarded\<close> is a Stellar SDK that refuses to prepare a transaction unless the given
  condition holds.
\<close>

definition u64_of :: "js_number \<Rightarrow> u64 option" where
  "u64_of x = (case x of
       Fin r \<Rightarrow> if r = of_int \<lfloor>r\<rfloor> \<and> 0 \<le> r \<and> r < 2 ^ 64 then Some (of_int \<lfloor>r\<rfloor>) else None
     | _ \<Rightarrow> None)"

fun relay_call :: "relay_arg list \<Rightarrow> call option" where
  "relay_call [ArgAddress d, ArgU64 u, ArgU64 q, ArgU64 t, ArgBytes sig] =
     (case (u64_of u, u64_of q, u64_of t) of
        (Some u', Some q', Some t') \<Rightarrow> Some (Submit_Reading d u' q' t' sig)
      | _ \<Rightarrow> None)"
| "relay_call _ = None"

definition verified_tx :: "'t network \<Rightarrow> ('n, 'p) stellar \<Rightarrow> string \<Rightarrow> relay_tx \<Rightarrow> bool" where
  "verified_tx net sdk contractId tx \<longleftrightarrow> tx_contract tx = contractId \<and> tx_function tx = ''submit_reading''
     \<and> (case relay_call (tx_args tx) of
          Some (Submit_Reading d u q t sig) \<Rightarrow>
            \<exists>k. encode_pubkey sdk k = Inr d \<and> length k = 32 \<and> verify_signature net k q u t sig = Inr ()
        | _ \<Rightarrow> False)"

definition guarded :: "(relay_tx \<Rightarrow> bool) \<Rightarrow> ('n, 'p) stellar \<Rightarrow> ('n, 'p) stellar" where
  "guarded ok sdk = sdk\<lparr>prepare_transaction := (\<lambda>tx. if ok tx then prepare_transaction sdk tx
     else js_throw (Exn ''Error'' ''refused''))\<rparr>"

lemma u64_of_int: "0 \<le> n \<Longrightarrow> n < 2 ^ 53 \<Longrightarrow> u64_of (number_of_int n) = Some (of_int n)"
proof -
  assume n: "0 \<le> n" "n < 2 ^ 53"
  then have "(of_int n :: rat) < of_int (2 ^ 64)" by (subst of_int_less_iff) simp
  with n show ?thesis by (simp add: u64_of_def number_of_int_exact)
qed

lemma verified_args:
  assumes "ed25519_check node = ed25519_verify net"
    and q: "parseU64 node vq nq = Inr q" and u: "parseU64 node vu nu = Inr u" and t: "parseU64 node vt nt = Inr t"
    and v: "verifyDeviceSignature node pk q u t sg = Inr True"
  obtains k sig u' q' t' where "buffer_from node pk = Inr k" and "length k = 32" and "buffer_from node sg = Inr sig"
    and "relay_call (relay_args d u q t sig) = Some (Submit_Reading d u' q' t' sig)"
    and "verify_signature net k q' u' t' sig = Inr ()"
proof -
  obtain qn where qn: "q = number_of_int qn" "0 \<le> qn" "qn < 2 ^ 53" by (rule parseU64_Inr [OF q])
  obtain un where un: "u = number_of_int un" "0 \<le> un" "un < 2 ^ 53" by (rule parseU64_Inr [OF u])
  obtain tn where tn: "t = number_of_int tn" "0 \<le> tn" "tn < 2 ^ 53" by (rule parseU64_Inr [OF t])
  obtain k sig where k: "buffer_from node pk = Inr k" "length k = 32" "buffer_from node sg = Inr sig" "length sig = 64"
    "create_public_key node k = Inr ()"
    by (rule verify_True [OF v])
  have "ed25519_check node k (signed_payload k (of_int qn) (of_int un) (of_int tn)) sig"
    using v verify_payload [OF k qn(2,3) un(2,3) tn(2,3)] unfolding qn(1) un(1) tn(1) by simp
  then have "verify_signature net k (of_int qn) (of_int un) (of_int tn) sig = Inr ()"
    using assms(1) k(4) by (simp add: verify_signature_def)
  moreover have "relay_call (relay_args d u q t sig) = Some (Submit_Reading d (of_int un) (of_int qn) (of_int tn) sig)"
    using qn un tn by (simp add: relay_args_def u64_of_int)
  ultimately show thesis using that k by blast
qed

lemma js_bind_lift: "js_bind (js_lift (Inr x)) f = f x"
  by (rule ext) (simp add: js_bind_simps)

lemma guarded_relay:
  assumes "buffer_from node sg = Inr sig"
    and "\<And>relayer account. ok (relay_tx_of relayer account cid pass (relay_args d u q t sig))"
  shows "relayReading node (guarded ok sdk) pass cid secret d sg u q t = relayReading node sdk pass cid secret d sg u q t"
  by (simp add: relayReading_def guarded_def assms js_bind_lift)

lemma post_reading_relay_cong:
  fixes sdk sdk' :: "('n, 'p) stellar"
  assumes "\<And>q u t d. parseU64 node (get_prop body ''seq'') ''seq'' = Inr q \<Longrightarrow>
      parseU64 node (get_prop body ''delta_units'') ''delta_units'' = Inr u \<Longrightarrow>
      parseU64 node (get_prop body ''timestamp_ms'') ''timestamp_ms'' = Inr t \<Longrightarrow>
      verifyDeviceSignature node (get_prop body ''device_pubkey'') q u t (get_prop body ''signature'') = Inr True \<Longrightarrow>
      bindE (buffer_from node (get_prop body ''device_pubkey'')) (encode_pubkey sdk) = Inr d \<Longrightarrow>
      relayReading node sdk' (cfg_passphrase cfg) (cfg_contract_id cfg) (cfg_relayer_secret cfg) d (get_prop body ''signature'') u q t =
      relayReading node sdk (cfg_passphrase cfg) (cfg_contract_id cfg) (cfg_relayer_secret cfg) d (get_prop body ''signature'') u q t"
    and enc: "encode_pubkey sdk' = encode_pubkey sdk"
  shows "post_reading node sdk' drv cfg now body s = post_reading node sdk drv cfg now body s"
proof (cases rule: post_reading_cases [where 'p = 'p, of node drv cfg now body s])
  case (accepted q u t)
  show ?thesis
  proof (cases "bindE (buffer_from node (get_prop body ''device_pubkey'')) (encode_pubkey sdk)")
    case (Inr d)
    show ?thesis
      unfolding accepted(5) accept_reading_def enc Inr
      by (simp add: Let_def assms(1) [OF accepted(1-4) Inr])
  qed (simp add: accepted(5) accept_reading_def enc)
qed simp_all

text \<open>Whatever is posted, the gateway prepares only transactions that call \<open>submit_reading\<close> of the
  configured contract with a signature the contract verifies, for the device address of the key that
  signed it: a run against an SDK that refuses all other transactions is the same run.\<close>

theorem only_verified_relayed:
  assumes "ed25519_check node = ed25519_verify net"
  shows "post_reading node (guarded (verified_tx net sdk (cfg_contract_id cfg)) sdk) drv cfg now body s =
    post_reading node sdk drv cfg now body s"
proof (rule post_reading_relay_cong)
  fix q u t d secret
  assume p: "parseU64 node (get_prop body ''seq'') ''seq'' = Inr q"
    "parseU64 node (get_prop body ''delta_units'') ''delta_units'' = Inr u"
    "parseU64 node (get_prop body ''timestamp_ms'') ''timestamp_ms'' = Inr t"
    and v: "verifyDeviceSignature node (get_prop body ''device_pubkey'') q u t (get_prop body ''signature'') = Inr True"
    and d: "bindE (buffer_from node (get_prop body ''device_pubkey'')) (encode_pubkey sdk) = Inr d"
  obtain k sig u' q' t' where k: "buffer_from node (get_prop body ''device_pubkey'') = Inr k" "length k = 32"
    "buffer_from node (get_prop body ''signature'') = Inr sig"
    "relay_call (relay_args d u q t sig) = Some (Submit_Reading d u' q' t' sig)" "verify_signature net k q' u' t' sig = Inr ()"
    by (rule verified_args [OF assms p v])
  moreover have "encode_pubkey sdk k = Inr d" using d k(1) by simp
  ultimately show "relayReading node (guarded (verified_tx net sdk (cfg_contract_id cfg)) sdk) (cfg_passphrase cfg)
      (cfg_contract_id cfg) (cfg_relayer_secret cfg) d (get_prop body ''signature'') u q t =
    relayReading node sdk (cfg_passphrase cfg) (cfg_contract_id cfg) (cfg_relayer_secret cfg) d (get_prop body ''signature'') u q t"
    by (intro guarded_relay) (auto simp: verified_tx_def relay_tx_of_def)
qed (simp add: guarded_def)

theorem only_verified_relayed_witness:
  "post_reading demo_node (guarded (verified_tx demo_net demo_stellar ''C'') demo_stellar) (demo_driver Sqlite)
     \<lparr>cfg_contract_id = ''C'', cfg_relayer_secret = ''s'', cfg_passphrase = []\<rparr> [] (demo_body (Str demo_hex_key)) demo_gateway =
   post_reading demo_node demo_stellar (demo_driver Sqlite)
     \<lparr>cfg_contract_id = ''C'', cfg_relayer_secret = ''s'', cfg_passphrase = []\<rparr> [] (demo_body (Str demo_hex_key)) demo_gateway"
proof -
  have "ed25519_check demo_node = ed25519_verify demo_net" by (simp add: demo_node_def)
  from only_verified_relayed [OF this, of demo_stellar "\<lparr>cfg_contract_id = ''C'', cfg_relayer_secret = ''s'', cfg_passphrase = []\<rparr>"]
  show ?thesis by simp
qed


section \<open>Refused and crashing requests\<close>

text \<open>C31. Without an accepted signature a request has no effect: when the numbers do not parse or the
  signature check does not succeed, the cache, the network and the log are as before, and the answer
  is 400 or 401, or there is none.\<close>

theorem unverified_no_effect:
  assumes "\<And>q u t. parseU64 node (get_prop body ''seq'') ''seq'' = Inr q \<Longrightarrow>
      parseU64 node (get_prop body ''delta_units'') ''delta_units'' = Inr u \<Longrightarrow>
      parseU64 node (get_prop body ''timestamp_ms'') ''timestamp_ms'' = Inr t \<Longrightarrow>
      verifyDeviceSignature node (get_prop body ''device_pubkey'') q u t (get_prop body ''signature'') \<noteq> Inr True"
  shows "snd (post_reading node sdk drv cfg now body s) = s
    \<and> (case fst (post_reading node sdk drv cfg now body s) of Inr r \<Rightarrow> reply_status r \<in> {400, 401} | Inl e \<Rightarrow> True)"
  by (cases rule: post_reading_cases [where 'p = 'c, of node drv cfg now body s]) (use assms in auto)

text \<open>With all fields present and numbers that parse, a public key that is a number, a boolean or
  \<open>null\<close> makes \<open>Buffer.from\<close> throw outside every \<open>try\<close> block.\<close>

lemma malformed_key_rejects:
  assumes "missing_fields body = []" and "\<exists>q. parseU64 node (get_prop body ''seq'') ''seq'' = Inr q"
    and "\<exists>u. parseU64 node (get_prop body ''delta_units'') ''delta_units'' = Inr u"
    and "\<exists>t. parseU64 node (get_prop body ''timestamp_ms'') ''timestamp_ms'' = Inr t"
    and "get_prop body ''device_pubkey'' \<in> {Null, Bool b, Num x}"
  shows "post_reading node sdk drv cfg now body s = (Inl invalid_buffer, s)"
  using assms
  by (auto simp: post_reading_def Let_def verifyDeviceSignature_def buffer_from_def js_bind_simps)

section \<open>Relayed and yet refused\<close>

text \<open>A reading can be relayed and still be answered with a failure: when the transaction was sent
  but recording the reading throws, the answer is 502 \<open>relay failed\<close> although the contract has it;
  the handler does not tell the two apart.\<close>

theorem relayed_reported_failed:
  assumes "cfg_contract_id cfg \<noteq> []" and "cfg_relayer_secret cfg \<noteq> []"
    and "bindE (buffer_from node pk) (encode_pubkey sdk) = Inr d"
    and "relayReading node sdk (cfg_passphrase cfg) (cfg_contract_id cfg) (cfg_relayer_secret cfg) d sg u q t (gw_net s) = (Inr h, n)"
    and "recordPendingReading drv now (Str d) pk (Num q) (Num u) (Num t) (Str h) (gw_db s) = (Inl e, c)"
  shows "accept_reading node sdk drv cfg now pk sg q u t s =
    (Inr (error_reply 502 (''relay failed: '' @ exn_message e)),
     s\<lparr>gw_net := n, gw_db := c, gw_console := gw_console s @ [''[gateway] relay failed: '' @ exn_message e]\<rparr>)"
  using assms
  by (simp add: accept_reading_def Let_def js_try_def js_bind_def on_net_def on_db_def js_modify_def js_return_def)

lemma demo_fields:
  "missing_fields (demo_body key) = [] \<longleftrightarrow> key \<noteq> Undef"
  "parseU64 demo_node (get_prop (demo_body key) ''seq'') ''seq'' = Inr (number_of_int 1)"
  "parseU64 demo_node (get_prop (demo_body key) ''delta_units'') ''delta_units'' = Inr (number_of_int 3)"
  "parseU64 demo_node (get_prop (demo_body key) ''timestamp_ms'') ''timestamp_ms'' = Inr (number_of_int 7)"
  "get_prop (demo_body key) ''device_pubkey'' = key" "get_prop (demo_body key) ''signature'' = Str demo_hex_sig"
  by (simp_all add: demo_body_def missing_fields_def required_fields_def parseU64_def number_of_int_exact
      is_safe_integer_def)

theorem unverified_no_effect_witness:
  "snd (post_reading demo_node demo_stellar (demo_driver Sqlite)
     \<lparr>cfg_contract_id = ''C'', cfg_relayer_secret = ''s'', cfg_passphrase = []\<rparr> [] (demo_body (Str ''00'')) demo_gateway) = demo_gateway"
  by (rule unverified_no_effect [THEN conjunct1])
    (simp add: demo_fields verifyDeviceSignature_def buffer_from_def hex_digits)

text \<open>A key given as an array of bytes is such a case: the gateway reads it, the text column does not
  take it.\<close>

theorem relayed_reported_failed_witness:
  "\<exists>e. accept_reading demo_node demo_stellar (demo_driver Sqlite)
       \<lparr>cfg_contract_id = ''C'', cfg_relayer_secret = ''s'', cfg_passphrase = []\<rparr> []
       (Arr (replicate 32 (Num (Fin 1))) :: 'x jsval) (Str demo_hex_sig) (number_of_int 1) (number_of_int 3) (number_of_int 7) demo_gateway =
     (Inr (error_reply 502 (''relay failed: '' @ exn_message e)),
      demo_gateway\<lparr>gw_net := [''submit_reading''], gw_console := [''[gateway] relay failed: '' @ exn_message e]\<rparr>)"
proof -
  let ?cfg = "\<lparr>cfg_contract_id = ''C'', cfg_relayer_secret = ''s'', cfg_passphrase = []\<rparr>"
  let ?pk = "Arr (replicate 32 (Num (Fin 1))) :: 'x jsval"
  have buf: "bindE (buffer_from (demo_node :: 'x node) ?pk) (encode_pubkey demo_stellar) = Inr ''D''"
  proof -
    have "buffer_from demo_node ?pk = Inr (map (\<lambda>_. 1) (replicate 32 (Num (Fin 1) :: 'x jsval)))"
      unfolding buffer_from_def jsval.case by (rule mapE_Inr) (simp add: to_uint8_def)
    then show ?thesis by (simp add: demo_stellar_def)
  qed
  have relay: "relayReading demo_node demo_stellar [] ''C'' ''s'' ''D'' (Str demo_hex_sig :: 'x jsval) (number_of_int 3) (number_of_int 1)
      (number_of_int 7) (gw_net demo_gateway) = (Inr ''h'', [''submit_reading''])"
    by (simp add: relayReading_def demo_stellar_def js_bind_def js_lift_def js_return_def buffer_from_def
        relay_outcome_def demo_gateway_def relay_tx_of_def)
  have "recordPendingReading (demo_driver Sqlite) [] (Str ''D'') ?pk (Num (number_of_int 1)) (Num (number_of_int 3))
      (Num (number_of_int 7)) (Str ''h'') (gw_db demo_gateway) = (Inl (type_error ''cannot bind''), gw_db demo_gateway)"
    by (simp add: recordPendingReading_def demo_driver_simps demo_bind_text_def js_bind_simps js_simps)
  with relayed_reported_failed [of ?cfg demo_node ?pk demo_stellar, OF _ _ buf] relay show ?thesis
    by (intro exI [of _ "type_error ''cannot bind''"]) (simp add: demo_gateway_def)
qed

end
