(* ===== verification/Demo_Service.thy ===== *)
theory Demo_Service
  imports Service Overlap Contract_Properties
begin

text \<open>
  A concrete service: the chain is the event log of the demonstration contract, served by an RPC
  server that keeps its contract, read with an SDK whose host objects are the contract's own
  values, into a cache of either dialect. The locales of the indexer are interpreted on it.
\<close>

definition demo_config :: config where
  "demo_config = read_config [''CONTRACT_ID'' \<mapsto> ''C'']"

definition demo_meter :: meter where
  "demo_meter = \<lparr>m_device = ''D'', m_units = 3, m_cost = 30, m_balance = 470, m_seq = 1, m_ts = 5\<rparr>"

definition demo_chain :: "chain_event list" where
  "demo_chain = [
     \<lparr>ce_id = ''e1'', ce_ledger = 5, ce_event = \<lparr>topics = [ScSymbol ''device_registered'', ScAddress ''D'',
        ScAddress ''O'', ScI128 10], event_data = ScVoid\<rparr>\<rparr>,
     \<lparr>ce_id = ''e2'', ce_ledger = 6, ce_event = \<lparr>topics = [ScSymbol ''deposit'', ScAddress ''D'',
        ScI128 500, ScI128 500], event_data = ScVoid\<rparr>\<rparr>,
     \<lparr>ce_id = ''e3'', ce_ledger = 7, ce_event = meter_event demo_meter\<rparr>]"

definition demo_server :: "nat \<Rightarrow> scval rpc_params \<Rightarrow> exn + scval rpc_response" where
  "demo_server t p = Inr (serve (\<lambda>v. v) demo_chain 9 p)"

definition demo_env_with ::
    "(nat \<Rightarrow> scval rpc_params \<Rightarrow> exn + scval rpc_response) \<Rightarrow> dialect \<Rightarrow> (scval, hub) indexer_env" where
  "demo_env_with server d = service_env demo_config contract_sdk (demo_driver d) server
     (\<lambda>t. ''2026-01-02T10:00:00.000Z'') (\<lambda>e. Inr ''{}'')"

abbreviation demo_env :: "dialect \<Rightarrow> (scval, hub) indexer_env" where
  "demo_env \<equiv> demo_env_with demo_server"

definition demo_boot :: "hub indexer" where
  "demo_boot = snd (boot (demo_env Sqlite) \<lparr>meter_columns = None, meta = Map.empty, meter_events = [],
     pending_readings = [], next_pending = 1\<rparr>)"

lemma demo_plain:
  assumes "ce \<in> set demo_chain"
  shows "plain_event (ce_event ce)"
proof -
  consider "ce = demo_chain ! 0" | "ce = demo_chain ! 1" | "ce_event ce = meter_event demo_meter"
    using assms by (auto simp: demo_chain_def)
  then show ?thesis
  proof cases
    case 3
    then show ?thesis by (simp add: plain_event_def demo_meter_def cacheable_def in_i64_def)
  qed (simp_all add: demo_chain_def plain_event_def METER_TOPIC_def meter_of_def log_decode)
qed

lemma demo_env_simps [simp]:
  "env_sdk (demo_env_with sv d) = contract_sdk" "env_driver (demo_env_with sv d) = demo_driver d"
  "env_on_event (demo_env_with sv d) = service_on_event" "env_get_events (demo_env_with sv d) = sv"
  "env_stringify (demo_env_with sv d) e = Inr ''{}''" "env_now (demo_env_with sv d) t = ''2026-01-02T10:00:00.000Z''"
  by (simp_all add: demo_env_with_def service_env_def)

lemma demo_contract_id [simp]: "env_contract_id (demo_env_with sv d) = ''C''"
  by (simp add: demo_env_with_def service_env_def demo_config_def read_config_def env_or_def)

interpretation demo_host: indexer_host "demo_env_with sv d" "\<lambda>v. v" for sv d
proof (intro indexer_host.intro indexer_host_axioms.intro)
  show "contract_values (env_sdk (demo_env_with sv d)) (\<lambda>v. v)" by (simp add: contract_sdk.contract_values_axioms)
  show "cache_driver (env_driver (demo_env_with sv d))" by (simp add: demo.cache_driver_axioms)
  show "fst (env_on_event (demo_env_with sv d) row w) = Inr ()" for row w
    using bus_publish_ok [of hub_log service_bus row w] by (auto simp: service_on_event_def)
qed simp

interpretation demo_chain: indexer_chain "demo_env d" "\<lambda>v. v" "\<lambda>t. demo_chain" "\<lambda>t. 9" for d
proof unfold_locales
  show "plain_event (ce_event ce)" if "ce \<in> set demo_chain" for ce using that by (rule demo_plain)
qed (auto simp: demo_chain_def demo_server_def)

text \<open>The service as it boots, and its first poll.\<close>

lemma demo_boot_cache:
  "cache demo_boot = \<lparr>meter_columns = Some meter_schema, meta = Map.empty, meter_events = [],
     pending_readings = [], next_pending = 1\<rparr>" "rpc_calls demo_boot = 0"
  by (simp_all add: demo_boot_def boot_def start_def console_line_def open_store_def demo_driver_def
      create_tables_def migrateCompat_def meter_schema_def)

lemma demo_caught_up: "caught_up_with ''C'' (\<lambda>t. demo_chain) 0 demo_boot"
  unfolding caught_up_with_def
  by (simp add: demo_boot_cache getLastLedger_def js_bind_simps js_simps number_of_int_exact has_column_def
      meter_schema_def covers_def faithful_def demo_chain_def)

end
