(* ===== verification/Indexer_Properties.thy ===== *)
theory Indexer_Properties
  imports Demo_Service
begin

text \<open>
  The properties of the indexer and of the decoding of events, each with its witness on the
  demonstration service.
\<close>

section \<open>Completeness of polling\<close>

text \<open>C10. Polling never loses an event. Against a server that may fail at any call and whose chain
  moves on between calls, a poll keeps the invariant that every \<open>meter\<close> event up to the persisted
  watermark is in the cache and every row of the cache records an event of the chain; and the
  watermark does not go back.\<close>

theorem poll_never_loses:
  assumes "indexer_chain env enc chain_at latest_at"
    and "caught_up_with (env_contract_id env) chain_at w s" and "poll n env s = Some s'"
  shows "\<exists>w'. w \<le> w' \<and> caught_up_with (env_contract_id env) chain_at w' s'"
  using indexer_chain.poll_keeps(1) [OF assms] by blast

text \<open>C12. A poll ends: with fuel for the pages of the chain (200 events each, and one more), the loop
  of \<open>poll\<close> reaches a page that is not full, or fails.\<close>

theorem poll_terminates:
  assumes "indexer_chain env enc chain_at latest_at"
    and "caught_up_with (env_contract_id env) chain_at w s"
    and "\<forall>t. length (chain_at t) \<le> L" and "L div PAGE_LIMIT < n"
  shows "\<exists>s'. poll n env s = Some s'"
proof (rule indexer_chain.poll_ends [OF assms(1,2)])
  fix t
  have "L < n * PAGE_LIMIT" using assms(4) by (simp add: PAGE_LIMIT_def div_less_iff_less_mult)
  with assms(3) show "length (chain_at t) < n * PAGE_LIMIT" by (meson le_less_trans)
qed

text \<open>C11. Progress: a poll that logs no failure has cached every \<open>meter\<close> event the server knew at
  the poll's last call, whatever the number of pages.\<close>

theorem clean_poll_catches_up:
  assumes "indexer_chain env enc chain_at latest_at"
    and "caught_up_with (env_contract_id env) chain_at w s" and "poll n env s = Some s'"
    and "console s' = console s"
  shows "\<exists>t. rpc_calls s' = Suc t \<and> covers (chain_at t) (cache s')"
  by (rule indexer_chain.poll_keeps(2) [OF assms])

theorem poll_terminates_witness: "\<exists>s'. poll 1 (demo_env Sqlite) demo_boot = Some s'"
proof (rule poll_terminates [OF demo_chain.indexer_chain_axioms, where L = 3])
  show "caught_up_with (env_contract_id (demo_env Sqlite)) (\<lambda>t. demo_chain) 0 demo_boot"
    using demo_caught_up by simp
qed (simp_all add: demo_chain_def PAGE_LIMIT_def)

section \<open>The demonstration's first poll\<close>

definition demo_polled :: "hub indexer" where
  "demo_polled = the (poll 1 (demo_env Sqlite) demo_boot)"

lemma demo_caught_up_env: "caught_up_with (env_contract_id (demo_env d)) (\<lambda>t. demo_chain) 0 demo_boot"
  using demo_caught_up by simp

lemma demo_poll: "poll 1 (demo_env Sqlite) demo_boot = Some demo_polled"
proof -
  have "length (demo_chain) < 1 * PAGE_LIMIT" by (simp add: demo_chain_def PAGE_LIMIT_def)
  then obtain s' where "poll 1 (demo_env Sqlite) demo_boot = Some s'"
    using demo_chain.poll_ends [OF demo_caught_up_env] by blast
  then show ?thesis by (simp add: demo_polled_def)
qed

lemma demo_poll_console: "console demo_polled = console demo_boot"
  by (rule demo_chain.poll_clean [OF demo_caught_up_env demo_poll]) (simp add: demo_server_def)

theorem poll_never_loses_witness:
  "\<exists>w'. 0 \<le> w' \<and> caught_up_with ''C'' (\<lambda>t. demo_chain) w' demo_polled"
  using poll_never_loses [OF demo_chain.indexer_chain_axioms demo_caught_up_env demo_poll] by simp

theorem clean_poll_catches_up_witness: "Some ''e3'' \<in> cached_ids (cache demo_polled)"
  using clean_poll_catches_up [OF demo_chain.indexer_chain_axioms demo_caught_up_env demo_poll demo_poll_console]
  by (auto simp: covers_def demo_chain_def)

section \<open>Failures\<close>

text \<open>A poll that fails, at whatever point, logs the failure and leaves the watermark where it was,
  so the next poll starts from the same ledger.\<close>

theorem failed_poll_keeps_watermark:
  assumes "poll n env s = Some s'" and "console s' \<noteq> console s"
  shows "getLastLedger (cache s') = (fst (getLastLedger (cache s)), cache s')
    \<and> (\<exists>msg. console s' = console s @ [''[indexer] poll failed: '' @ msg])"
  using assms(1)
proof (cases rule: poll_cases)
  case (finished first highest u)
  obtain s2 top latest where "same_mark s s2" "advance_watermark env top latest s2 = (Inr u, s')"
    by (rule poll_loop_done [OF finished])
  then have "console s' = console s"
    by (cases rule: advance_cases [of env top latest s2]) (auto simp: same_mark_def)
  with assms(2) show ?thesis ..
next
  case (failed first highest e s2)
  then have "same_mark s s2" by (blast dest: poll_loop_failed)
  then show ?thesis
    by (auto simp: failed(2) same_mark_def console_line_def getLastLedger_def js_bind_simps js_simps)
qed


text \<open>A bill beyond 64 bits is such an event: the column cannot hold it.\<close>

definition demo_poison :: "scval rpc_event" where
  "demo_poison = \<lparr>ev_id = Str ''p'', ev_ledger = Num (Fin 8),
     ev_topic = Arr [Ext (ScSymbol ''meter''), Ext (ScAddress ''D'')],
     ev_value = Ext (ScVec [ScU64 1, ScI128 (2 ^ 64), ScI128 0, ScU64 2, ScU64 5])\<rparr>"

definition demo_poison_env :: "(scval, hub) indexer_env" where
  "demo_poison_env = demo_env_with (\<lambda>t p.
     Inr \<lparr>rs_events = [demo_poison], rs_cursor = Undef, rs_latest_ledger = Fin 9\<rparr>) Sqlite"

lemma demo_poison_page:
  assumes "has_column ''ledger_ts'' (cache s)"
  shows "handle_page demo_poison_env [demo_poison] (Fin 0) s =
    (Inl (range_error ''BigInt out of range''), s\<lparr>ticks := Suc (ticks s)\<rparr>)"
proof -
  have ingest: "ingest (demo_driver Sqlite) row c = (Inl (range_error ''BigInt out of range''), c)"
    if "er_event_id row = Str i" "er_contract_id row = Str k" "er_ledger row = Num (number_of_int 8)"
      "er_device_id row = Str d" "er_operator row = Null" "er_units row = BigInt 1" "er_rate_per_unit row = BigInt 0"
      "er_cost row = BigInt 18446744073709551616" "has_column ''ledger_ts'' c"
    for row :: "scval event_row" and i k d c
  proof -
    have "bind_row (demo_driver Sqlite) (ingest_ctx row) = Inl (range_error ''BigInt out of range'')"
      using that by (simp add: bind_row_def ingest_ctx_def demo_driver_simps demo_bind_text_def demo_bind_num
          demo_bind_int_def [of "BigInt _"] demo_bind_int_def [of Null] in_i64_def)
    with that(9) show ?thesis by (simp add: ingest_def need_column_def js_bind_def js_lift_def)
  qed
  have "handleEvent demo_poison_env demo_poison s =
      (Inl (range_error ''BigInt out of range''), s\<lparr>ticks := Suc (ticks s)\<rparr>)"
    unfolding handleEvent_def Let_def using assms
    by (simp add: demo_poison_env_def demo_poison_def topic_list_def elem_def
        contract_sdk.decode_symbol contract_sdk.decode_address contract_sdk.decode_u64 contract_sdk.decode_i128
        contract_sdk.decode_vec METER_TOPIC_def bigint_or_def number_or_null_def now_iso_def js_bind_def
        js_lift_def on_cache_def ingest number_of_int_exact)
  then show ?thesis by (simp add: js_bind_def)
qed

lemma demo_boot_marks: "getLastLedger (cache demo_boot) = (Inr (Fin 0), cache demo_boot)"
  by (simp add: demo_boot_cache getLastLedger_def js_bind_simps js_simps)


theorem failed_poll_keeps_watermark_witness:
  "\<exists>s'. poll (Suc 0) demo_poison_env demo_boot = Some s' \<and> fst (getLastLedger (cache s')) = Inr (Fin 0)"
proof -
  let ?s1 = "demo_boot\<lparr>rpc_calls := Suc (rpc_calls demo_boot)\<rparr>"
  have "getEvents demo_poison_env (page_params demo_poison_env Null (js_add (Fin 0) (Fin 1))) demo_boot =
      (Inr \<lparr>rs_events = [demo_poison], rs_cursor = Undef, rs_latest_ledger = Fin 9\<rparr>, ?s1)"
    by (simp add: getEvents_def demo_poison_env_def)
  moreover have "has_column ''ledger_ts'' (cache ?s1)" by (simp add: demo_boot_cache has_column_def meter_schema_def)
  ultimately have p: "poll (Suc 0) demo_poison_env demo_boot =
      Some (console_line ''[indexer] poll failed: BigInt out of range'' (?s1\<lparr>ticks := Suc (ticks ?s1)\<rparr>))"
    using demo_poison_page [of ?s1] demo_boot_marks
    by (simp add: poll_def on_cache_def js_bind_def js_return_def)
  show ?thesis
    using failed_poll_keeps_watermark [OF p] p demo_boot_marks by (simp add: console_line_def)
qed

section \<open>Pages without a cursor\<close>

text \<open>C27. A response without a cursor ends the poll however full its page is, and the watermark is put
  at the highest ledger on it: the next poll asks for later ledgers only, so what else the server
  holds in that ledger is never fetched.\<close>

theorem full_page_without_cursor_skips:
  assumes "getEvents env (page_params env Null (js_add l (Fin 1))) s = (Inr res, s1)"
    and "getLastLedger (cache s) = (Inr l, cache s)"
    and "handle_page env (rs_events res) l s1 = (Inr highest, s2)" and "js_less l highest"
    and "rs_cursor res = Undef" and "cache_driver (env_driver env)"
    and "highest = number_of_int h" and "\<bar>h\<bar> \<le> 2 ^ 53"
  shows "\<exists>s'. poll (Suc n) env s = Some s' \<and> rpc_calls s' = rpc_calls s2
    \<and> getLastLedger (cache s') = (Inr (number_of_int h), cache s')"
proof -
  have "same_mark s1 s2" by (rule keepsD [OF marks.handle_page_keeps assms(3)])
  moreover have "cache s1 = cache s" using assms(1) by (auto simp: getEvents_def)
  ultimately have l: "getLastLedger (cache s2) = (Inr l, cache s2)"
    using assms(2) by (auto simp: same_mark_def intro: getLastLedger_meta)
  let ?c = "snd (setLastLedger (env_driver env) (number_of_int h) (cache s2))"
  have "advance_watermark env highest (rs_latest_ledger res) s2 = (Inr (), s2\<lparr>cache := ?c\<rparr>)"
    using l assms(4) cache_driver.watermark_set [OF assms(6)]
    by (simp add: advance_watermark_def on_cache_def js_bind_def js_return_def Let_def assms(7))
  then have "poll (Suc n) env s = Some (s2\<lparr>cache := ?c\<rparr>)"
    using assms(1-3,5) by (simp add: poll_def on_cache_def js_bind_def js_return_def)
  then show ?thesis using cache_driver.watermark_get [OF assms(6,8), of "cache s2"] by simp
qed

text \<open>A server that returns one event and no cursor.\<close>

definition demo_short_server :: "nat \<Rightarrow> scval rpc_params \<Rightarrow> exn + scval rpc_response" where
  "demo_short_server t p = Inr \<lparr>rs_events = map (host_event (\<lambda>v. v)) [demo_chain ! 2], rs_cursor = Undef,
     rs_latest_ledger = number_of_int 9\<rparr>"

theorem full_page_without_cursor_skips_witness:
  "\<exists>s'. poll (Suc 0) (demo_env_with demo_short_server Sqlite) demo_boot = Some s'
    \<and> getLastLedger (cache s') = (Inr (number_of_int 7), cache s')"
proof -
  let ?env = "demo_env_with demo_short_server Sqlite" and ?s1 = "demo_boot\<lparr>rpc_calls := Suc (rpc_calls demo_boot)\<rparr>"
  let ?res = "\<lparr>rs_events = map (host_event (\<lambda>v. v)) [demo_chain ! 2], rs_cursor = Undef, rs_latest_ledger = number_of_int 9\<rparr>"
  have g: "getEvents ?env (page_params ?env Null (js_add (number_of_int 0) (Fin 1))) demo_boot = (Inr ?res, ?s1)"
    by (simp add: getEvents_def demo_short_server_def)
  have l: "getLastLedger (cache demo_boot) = (Inr (number_of_int 0), cache demo_boot)"
    using demo_boot_marks by (simp add: number_of_int_exact)
  have "plain_event (ce_event (demo_chain ! 2))" by (rule demo_plain) (simp add: demo_chain_def)
  moreover have led: "ce_ledger (demo_chain ! 2) = 7" by (simp add: demo_chain_def)
  ultimately obtain s2 where h: "handle_page ?env (rs_events ?res) (number_of_int 0) ?s1 = (Inr (number_of_int 7), s2)"
    using demo_host.handle_page_effect [of "[demo_chain ! 2]" ?s1 0 demo_short_server Sqlite]
    by (auto simp: demo_boot_cache has_column_def meter_schema_def)
  have less: "js_less (number_of_int 0) (number_of_int 7)" by (simp add: js_less_exact)
  have "rs_cursor ?res = Undef" "cache_driver (env_driver ?env)" "\<bar>7 :: int\<bar> \<le> 2 ^ 53"
    using demo.cache_driver_axioms by simp_all
  from full_page_without_cursor_skips [OF g l h less this(1,2) refl this(3), of 0] show ?thesis by blast
qed

section \<open>What is stored\<close>



text \<open>The cached log is append-only and holds no event twice, whatever the server, the driver and
  the callback do, and however often an event is delivered: a poll extends the list of rows, keeps
  their event ids distinct, and touches neither the pending readings nor the schema.\<close>

theorem poll_appends_once:
  assumes "poll n env s = Some s'" and "events_unique (cache s)"
  shows "prefix (meter_events (cache s)) (meter_events (cache s')) \<and> events_unique (cache s')
    \<and> pending_readings (cache s') = pending_readings (cache s)
    \<and> meter_columns (cache s') = meter_columns (cache s)"
  using poll_keeps_frame [OF log.poll_frame_axioms assms(1)] assms(2) by (simp add: log_grows_def)

theorem poll_appends_once_witness: "events_unique (cache demo_polled) \<and> pending_readings (cache demo_polled) = []"
  using poll_appends_once [OF demo_poll] by (simp add: demo_boot_cache events_unique_def)

section \<open>Decoding\<close>

text \<open>The decoder reads an event value alike in both shapes it accepts, the SDK's host object and
  the plain \<open>{type, value}\<close> object: symbols and addresses as their text, 64- and 128-bit integers as
  the integers they denote, vectors element by element.\<close>

theorem decoding_shapes_agree:
  assumes "contract_values sdk enc"
  shows "scvalToString sdk (Ext (enc (ScSymbol t))) = scvalToString sdk (plain (ScSymbol t))
    \<and> scvalToString sdk (Ext (enc (ScAddress a))) = scvalToString sdk (plain (ScAddress a))
    \<and> scvalToBigInt sdk (Ext (enc (ScU64 u))) = scvalToBigInt sdk (plain (ScU64 u))
    \<and> scvalToBigInt sdk (Ext (enc (ScI128 z))) = scvalToBigInt sdk (plain (ScI128 z))
    \<and> scvalToBigInt sdk (plain (ScI128 z)) = Inr (sint z)
    \<and> unwrapVec sdk (Ext (enc (ScVec vs))) = Some (map (\<lambda>v. Ext (enc v)) vs)
    \<and> unwrapVec sdk (plain (ScVec vs)) = Some (map plain vs)"
  using contract_values.decode_symbol [OF assms] contract_values.decode_address [OF assms]
    contract_values.decode_u64 [OF assms] contract_values.decode_i128 [OF assms]
    contract_values.decode_vec [OF assms]
  by (simp add: plain_decode del: plain.simps)

theorem decoding_shapes_agree_witness:
  "scvalToBigInt contract_sdk (Ext (ScI128 (- 5))) = scvalToBigInt contract_sdk (plain (ScI128 (- 5)))"
  using decoding_shapes_agree [OF contract_sdk.contract_values_axioms] by blast

text \<open>Decoding an integer throws in one case only: a plain object whose \<open>value\<close> is a string that is
  no integer, or a number that is none. Host objects never make it throw.\<close>

theorem bigint_decoding_errors:
  assumes "scvalToBigInt sdk val = Inl e"
  shows "(\<exists>t. get_prop val ''value'' = Str t \<and> bigint_of_string t = None)
    \<or> (\<exists>x. get_prop val ''value'' = Num x \<and> bigint_from_number x = Inl e)"
  by (rule scvalToBigInt_throws [OF assms])

theorem bigint_decoding_errors_witness:
  "scvalToBigInt contract_sdk (Obj [(''type'', Str ''u64''), (''value'', Str ''x'')])
     = Inl (syntax_error ''Cannot convert x to a BigInt'') \<and> bigint_of_string ''x'' = None"
proof -
  have none: "bigint_of_string ''x'' = None"
    by (simp add: bigint_of_string_def js_trim_def is_space_def is_digit_def Let_def)
  then have "scvalToBigInt contract_sdk (Obj [(''type'', Str ''u64''), (''value'', Str ''x'')])
      = Inl (syntax_error ''Cannot convert x to a BigInt'')"
    by (simp add: scvalToBigInt_def int_types_def bigint_from_string_def)
  with bigint_decoding_errors [OF this] show ?thesis by auto
qed

end
