(* ===== verification/Overlap_Properties.thy ===== *)
theory Overlap_Properties
  imports Indexer_Properties
begin

text \<open>
  The properties of overlapping polls, with witnesses on the demonstration service.
\<close>

text \<open>Overlapping polls are safe: whatever polls the interval starts and however their steps
  interleave, the watermark stays a ledger up to which every \<open>meter\<close> event is cached, every row
  records an event of the chain, and nothing cached is lost.\<close>

theorem overlapping_polls_safe:
  assumes "indexer_chain env enc chain_at latest_at"
    and "caught_up_with (env_contract_id env) chain_at w s" and "polls_reach env ([], s) (ps, s')"
  shows "\<exists>w'. caught_up_with (env_contract_id env) chain_at w' s' \<and> cached_ids (cache s) \<subseteq> cached_ids (cache s')"
  using indexer_chain.polls_keep [OF assms(1,3)] assms(2)
  by (auto simp: indexer_chain.later_def [OF assms(1)])

theorem overlapping_polls_safe_witness:
  "\<exists>w'. caught_up_with ''C'' (\<lambda>t. demo_chain) w'
     (snd (run_schedule (demo_env Sqlite) [None, None, Some 0, Some 1, Some 0, Some 1, Some 1, Some 0, Some 1] ([], demo_boot)))"
proof -
  let ?c = "run_schedule (demo_env Sqlite) [None, None, Some 0, Some 1, Some 0, Some 1, Some 1, Some 0, Some 1] ([], demo_boot)"
  have "polls_reach (demo_env Sqlite) ([], demo_boot) (fst ?c, snd ?c)"
    by (metis prod.collapse run_schedule_reach)
  from overlapping_polls_safe [OF demo_chain.indexer_chain_axioms demo_caught_up_env this] show ?thesis by auto
qed

text \<open>The machine of overlapping polls is \<open>poll\<close> cut at its awaits: run alone from its start to its
  end, it leaves exactly the state that \<open>poll\<close> leaves.\<close>

theorem poll_is_one_schedule:
  assumes "poll n env s = Some s'"
  shows "\<exists>m. poller_run m env Starting s = (Done, s')"
  using poll_is_poller [OF assms] by (simp add: poller_ends_def)

theorem poll_is_one_schedule_witness: "\<exists>m. poller_run m (demo_env Sqlite) Starting demo_boot = (Done, demo_polled)"
  by (rule poll_is_one_schedule [OF demo_poll])




end
