(* ===== verification/Process_Properties.thy ===== *)
theory Process_Properties
  imports Process Gateway_Properties Overlap_Properties
begin

text \<open>
  The properties of the whole process: its guards before the gateway, the requests that end it,
  and the guarantee of the cache under any interleaving of polls, requests and sockets.
\<close>

section \<open>The guards before the gateway\<close>

text \<open>The answer of the first guard that turns a posted reading away, if any does.\<close>

definition turned_away :: "('x, 'l) packages \<Rightarrow> config \<Rightarrow> 'x request \<Rightarrow> 'l \<Rightarrow> 'x reply option" where
  "turned_away pk c rq l =
     (if rq_origin rq \<notin> {None, Some []} \<and> allowed_origins (Some (corsOrigin c)) \<noteq> []
         \<and> the (rq_origin rq) \<notin> set (allowed_origins (Some (corsOrigin c)))
      then Some (error_reply 403 ''origin not allowed by CORS'')
      else if preflight pk rq then Some \<lparr>reply_status = 204, reply_body = Undef\<rparr>
      else case parse_body pk rq of
          Inl e \<Rightarrow> Some (if exn_message e = ''origin not allowed by CORS'' then error_reply 403 (exn_message e)
            else error_reply 500 ''internal error'')
        | Inr b \<Rightarrow> if fst (admit pk (rateLimitWindowMs c) (rateLimitMax c) (rq\<lparr>rq_body := b\<rparr>) l) then None else Some too_many)"

definition same_gateway :: "('n, 'l) site \<Rightarrow> ('n, 'l) site \<Rightarrow> bool" where
  "same_gateway s s' \<longleftrightarrow> gw_db (st_gateway s') = gw_db (st_gateway s) \<and> gw_net (st_gateway s') = gw_net (st_gateway s)"

lemma cors_check_cases:
  "cors_check allowed origin =
    (if origin \<notin> {None, Some []} \<and> allowed \<noteq> [] \<and> the origin \<notin> set allowed then Inl cors_error else Inr ())"
  by (cases origin) (auto simp: cors_check_def)

text \<open>The way of a posted reading through the layers.\<close>

lemma posted_reading_path:
  assumes "rq_method rq = ''POST''" and "route_params pk ''/api/readings'' (rq_path rq) = Some (Inr [])"
    and "under pk ''/api/readings'' (rq_path rq)"
  shows "handle_request pk node sdk drv (Some c) now rq s =
    (case cors_check (allowed_origins (Some (corsOrigin c))) (rq_origin rq) of
       Inl e \<Rightarrow> report_error e s
     | Inr _ \<Rightarrow> if preflight pk rq then (Inr \<lparr>reply_status = 204, reply_body = Undef\<rparr>, s)
       else case parse_body pk rq of
           Inl e \<Rightarrow> report_error e s
         | Inr b \<Rightarrow> (case admit pk (rateLimitWindowMs c) (rateLimitMax c) (rq\<lparr>rq_body := b\<rparr>) (st_limits s) of
             (ok, l) \<Rightarrow> if \<not> ok then (Inr too_many, s\<lparr>st_limits := l\<rparr>)
               else on_gateway (post_reading node sdk drv (gateway_config_of c) now b) (s\<lparr>st_limits := l\<rparr>)))"
  using assms
  by (simp add: app_defs js_bind_def js_return_def on_gateway_def
      split: sum.split prod.split flow.split)

lemma admitted_path:
  assumes "rq_method rq = ''POST''" and "route_params pk ''/api/readings'' (rq_path rq) = Some (Inr [])"
    and "under pk ''/api/readings'' (rq_path rq)" and "turned_away pk c rq (st_limits s) = None"
  obtains b l where "parse_body pk rq = Inr b" and "handle_request pk node sdk drv (Some c) now rq s =
        on_gateway (post_reading node sdk drv (gateway_config_of c) now b) (s\<lparr>st_limits := l\<rparr>)"
proof -
  obtain b where b: "parse_body pk rq = Inr b" using assms(4) by (auto simp: turned_away_def split: if_splits sum.splits)
  obtain ok l where "admit pk (rateLimitWindowMs c) (rateLimitMax c) (rq\<lparr>rq_body := b\<rparr>) (st_limits s) = (ok, l)" by fastforce
  with assms(4) b show thesis
    by (intro that [of b l] b, unfold posted_reading_path [OF assms(1-3)])
      (auto simp: turned_away_def cors_check_cases split: if_splits)
qed

text \<open>C19. Nothing reaches the gateway past the guards: a posted reading is turned away with the answer
  of the first guard that refuses it (a foreign origin 403, a preflight 204, a body that does not
  parse 500, too many readings 429), and then the cache and the network are as before; any other
  goes, with its parsed body, to the gateway and nowhere else.\<close>

theorem guards_precede_gateway:
  assumes "rq_method rq = ''POST''" and "route_params pk ''/api/readings'' (rq_path rq) = Some (Inr [])"
    and "under pk ''/api/readings'' (rq_path rq)"
  shows "case turned_away pk c rq (st_limits s) of
      Some a \<Rightarrow> fst (handle_request pk node sdk drv (Some c) now rq s) = Inr a
        \<and> same_gateway s (snd (handle_request pk node sdk drv (Some c) now rq s))
    | None \<Rightarrow> \<exists>b l. parse_body pk rq = Inr b \<and> handle_request pk node sdk drv (Some c) now rq s =
        on_gateway (post_reading node sdk drv (gateway_config_of c) now b) (s\<lparr>st_limits := l\<rparr>)"
  unfolding posted_reading_path [OF assms]
  by (auto simp: turned_away_def cors_check_cases report_error_def error_middleware_def same_gateway_def cors_error_def
      split: sum.split prod.split)

section \<open>Requests that end the process\<close>

lemma serve_rejected:
  assumes "handle_request (pf_packages pf) (pf_node pf) (pf_stellar pf) (env_driver (pf_env pf)) (Some (pf_config pf)) now rq
      (with_cache (cache (pr_indexer p)) (pr_site p)) = (Inl e, st)"
  shows "fst (serve_request pf now rq p) = None
    \<and> (\<forall>p''. process_run pf (snd (serve_request pf now rq p)) p'' \<longrightarrow> p'' = snd (serve_request pf now rq p))"
  using dead_stays assms by (fastforce simp: serve_request_def settle_request_def)

text \<open>C34. One posted reading ends the process: when the guards let it pass, its fields are present and
  its numbers parse, a public key that is a number, a boolean or \<open>null\<close> makes the handler reject
  outside its \<open>try\<close> blocks; the request gets no answer, and no request is served, no socket heard
  and no poll made afterwards.\<close>

theorem malformed_key_ends_process:
  fixes p :: "('x, 'n, 'p, 'l) process"
  assumes "rq_method rq = ''POST''" and "route_params (pf_packages pf) ''/api/readings'' (rq_path rq) = Some (Inr [])"
    and "under (pf_packages pf) ''/api/readings'' (rq_path rq)"
    and "turned_away (pf_packages pf) (pf_config pf) rq (st_limits (pr_site p)) = None"
    and "parse_body (pf_packages pf) rq = Inr b" and "missing_fields b = []"
    and "\<exists>q. parseU64 (pf_node pf) (get_prop b ''seq'') ''seq'' = Inr q"
    and "\<exists>u. parseU64 (pf_node pf) (get_prop b ''delta_units'') ''delta_units'' = Inr u"
    and "\<exists>t. parseU64 (pf_node pf) (get_prop b ''timestamp_ms'') ''timestamp_ms'' = Inr t"
    and "get_prop b ''device_pubkey'' \<in> {Null, Bool v, Num x}"
  shows "fst (serve_request pf now rq p) = None
    \<and> (\<forall>p''. process_run pf (snd (serve_request pf now rq p)) p'' \<longrightarrow> p'' = snd (serve_request pf now rq p))"
proof -
  let ?s = "with_cache (cache (pr_indexer p)) (pr_site p)"
  have "turned_away (pf_packages pf) (pf_config pf) rq (st_limits ?s) = None" using assms(4) by (simp add: with_cache_def)
  then obtain b' l where "parse_body (pf_packages pf) rq = Inr b'"
    "handle_request (pf_packages pf) (pf_node pf) (pf_stellar pf) (env_driver (pf_env pf)) (Some (pf_config pf)) now rq ?s =
     on_gateway (post_reading (pf_node pf) (pf_stellar pf) (env_driver (pf_env pf)) (gateway_config_of (pf_config pf)) now b')
       (?s\<lparr>st_limits := l\<rparr>)"
    by (rule admitted_path [OF assms(1-3)])
  moreover from this(1) assms(5) have "b' = b" by simp
  ultimately have "\<exists>st. handle_request (pf_packages pf) (pf_node pf) (pf_stellar pf) (env_driver (pf_env pf))
      (Some (pf_config pf)) now rq ?s = (Inl invalid_buffer, st)"
    by (simp add: on_gateway_def malformed_key_rejects [OF assms(6-10)])
  then show ?thesis using serve_rejected by metis
qed

text \<open>The way of a query of a device's metrics.\<close>

lemma metrics_path:
  assumes "rq_method rq = ''GET''" and "route_params pk ''/health'' (rq_path rq) = None"
    and "\<not> under pk ''/api/readings'' (rq_path rq)"
    and "route_params pk ''/api/devices/:id/metrics'' (rq_path rq) = Some (Inr [d])"
    and "cors_check (allowed_origins (Some (corsOrigin c))) (rq_origin rq) = Inr ()" and "\<not> preflight pk rq"
    and "parse_body pk rq = Inr b"
  shows "handle_request pk node sdk drv (Some c) now rq s =
    on_gateway (on_db (get_metrics drv d (rq_query rq))) s"
  using assms
  by (simp add: app_defs js_bind_def js_return_def on_gateway_def on_db_def
      split: sum.split prod.split flow.split)

text \<open>One query ends the process: when \<open>from\<close> is a value the driver does not bind (\<open>?from=a&from=b\<close>
  parses to an array), the query of a device's metrics rejects, unanswered, and nothing is served
  afterwards.\<close>

theorem unbindable_query_ends_process:
  fixes p :: "('x, 'n, 'p, 'l) process"
  assumes "rq_method rq = ''GET''" and "route_params (pf_packages pf) ''/health'' (rq_path rq) = None"
    and "\<not> under (pf_packages pf) ''/api/readings'' (rq_path rq)"
    and "route_params (pf_packages pf) ''/api/devices/:id/metrics'' (rq_path rq) = Some (Inr [d])"
    and "cors_check (allowed_origins (Some (corsOrigin (pf_config pf)))) (rq_origin rq) = Inr ()"
    and "\<not> preflight (pf_packages pf) rq" and "parse_body (pf_packages pf) rq = Inr b"
    and "bind_text (env_driver (pf_env pf)) (Str d) = Inr k"
    and "truthy (get_prop (rq_query rq) ''from'')"
    and "bind_text (env_driver (pf_env pf)) (get_prop (rq_query rq) ''from'') = Inl e"
  shows "fst (serve_request pf now rq p) = None
    \<and> (\<forall>p''. process_run pf (snd (serve_request pf now rq p)) p'' \<longrightarrow> p'' = snd (serve_request pf now rq p))"
proof (rule serve_rejected)
  let ?s = "with_cache (cache (pr_indexer p)) (pr_site p)"
  have "get_metrics (env_driver (pf_env pf)) d (rq_query rq) u = (Inl e, u)" for u
    using assms(8-10) by (simp add: get_metrics_def metricsFor_def where_clause_def js_bind_def js_lift_def)
  then show "handle_request (pf_packages pf) (pf_node pf) (pf_stellar pf) (env_driver (pf_env pf)) (Some (pf_config pf)) now rq ?s = (Inl e, ?s)"
    by (simp add: metrics_path [OF assms(1-7)] on_gateway_def on_db_def)
qed

section \<open>A process\<close>

text \<open>Packages that match literal paths, and a limiter that counts.\<close>

definition demo_packages :: "(scval, nat) packages" where
  "demo_packages = \<lparr>preflight = (\<lambda>rq. rq_method rq = ''OPTIONS''),
     parse_body = (\<lambda>rq. if rq_raw rq = ''{'' then Inl (syntax_error ''Unexpected end of JSON input'')
       else Inr (demo_body (if rq_raw rq = ''k'' then Str demo_hex_key else Null))),
     admit = (\<lambda>window m rq n. (js_less (Fin (of_nat n)) m, Suc n)),
     under = (\<lambda>mount path. take (length mount) path = mount),
     route_params = (\<lambda>pattern path. if pattern = path then Some (Inr [])
       else if pattern = ''/api/devices/:id/metrics'' \<and> path = ''/api/devices/D/metrics'' then Some (Inr [''D''])
       else if pattern = ''/api/devices/:id/balance'' \<and> path = ''/api/devices/D/balance'' then Some (Inr [''D'']) else None),
     dir_exists = (\<lambda>d. True), static_file = (\<lambda>d rq. None),
     index_page = (\<lambda>d. \<lparr>reply_status = 200, reply_body = Str ''index.html''\<rparr>),
     default_answer = (\<lambda>rq. error_reply 404 ''Not Found'')\<rparr>"

definition demo_platform :: "(scval, string list, string, nat) platform" where
  "demo_platform = \<lparr>pf_packages = demo_packages, pf_node = demo_node, pf_stellar = demo_stellar, pf_config = demo_config,
     pf_env = demo_env Sqlite, pf_sockets = \<lparr>search_device = (\<lambda>u. Inr None), valid_pubkey = (\<lambda>k. True)\<rparr>\<rparr>"

definition demo_process :: "nat \<Rightarrow> (scval, string list, string, nat) process" where
  "demo_process n = \<lparr>pr_polls = [], pr_indexer = demo_boot, pr_posts = [], pr_gets = [], pr_site = \<lparr>st_gateway = demo_gateway, st_limits = n\<rparr>, pr_alive = True\<rparr>"

definition demo_request :: "string \<Rightarrow> string \<Rightarrow> scval jsval \<Rightarrow> string \<Rightarrow> scval request" where
  "demo_request verb path query raw = \<lparr>rq_method = verb, rq_path = path, rq_origin = None, rq_query = query,
     rq_raw = raw, rq_body = Undef\<rparr>"

lemma demo_limit: "rateLimitMax demo_config = Fin 60"
  by (simp add: demo_config_def read_config_def env_number_def number_of_int_exact)

theorem guards_precede_gateway_witness:
  "fst (handle_request demo_packages demo_node demo_stellar (demo_driver Sqlite) (Some demo_config) []
     (demo_request ''POST'' ''/api/readings'' Undef ''k'') (pr_site (demo_process 60))) = Inr too_many"
  using guards_precede_gateway [where rq = "demo_request ''POST'' ''/api/readings'' Undef ''k''" and pk = demo_packages
      and c = demo_config and s = "pr_site (demo_process 60)" and node = demo_node and sdk = demo_stellar
      and drv = "demo_driver Sqlite" and now = "[]"]
  by (simp add: demo_request_def demo_packages_def demo_process_def turned_away_def demo_limit)

theorem malformed_key_ends_process_witness:
  "fst (serve_request demo_platform [] (demo_request ''POST'' ''/api/readings'' Undef ''n'') (demo_process 0)) = None"
  by (rule malformed_key_ends_process [where b = "demo_body Null" and v = True and x = NaN, THEN conjunct1])
    (simp_all add: demo_platform_def demo_request_def demo_packages_def demo_process_def turned_away_def demo_limit demo_fields)

theorem unbindable_query_ends_process_witness:
  "fst (serve_request demo_platform [] (demo_request ''GET'' ''/api/devices/D/metrics''
      (Obj [(''from'', Arr [Str ''a'', Str ''b''])]) []) (demo_process 0)) = None"
  by (rule unbindable_query_ends_process [where d = "''D''" and b = "demo_body Null" and k = "Some ''D''"
        and e = "type_error ''cannot bind''", THEN conjunct1])
    (simp_all add: demo_platform_def demo_request_def demo_packages_def cors_check_def demo_driver_simps demo_bind_text_def)

end
