(* ===== verification/Api_Overlap_Properties.thy ===== *)
theory Api_Overlap_Properties
  imports Process_Properties
begin

text \<open>
  The properties of the reading endpoints in a process that goes on between their queries.
\<close>

section \<open>The machine and the handler\<close>










section \<open>What is answered, was read\<close>

lemma process_run_trans: "process_run pf p2 p3 \<Longrightarrow> process_run pf p1 p2 \<Longrightarrow> process_run pf p1 p3"
  by (induction rule: process_run.induct) (auto intro: process_run.goes)

lemma process_run_step: "process_step pf p q \<Longrightarrow> process_run pf p q"
  by (rule process_run.goes [OF process_run.rests])

text \<open>A request in flight, in a process started as \<open>p\<close> that has come to \<open>q\<close>.\<close>

definition cache_of :: "('x, 'n, 'p, 'l) process \<Rightarrow> db" where
  "cache_of p = cache (pr_indexer p)"

definition was_read ::
    "('x, 'n, 'p, 'l) platform \<Rightarrow> ('x, 'n, 'p, 'l) process \<Rightarrow> 'x getting \<Rightarrow> ('x, 'n, 'p, 'l) process \<Rightarrow> bool" where
  "was_read pf p g q = (case g of
      Asked a \<Rightarrow> True
    | Refused e \<Rightarrow> True
    | SecondQuery a rows \<Rightarrow> \<exists>p0. process_run pf p p0 \<and> process_run pf p0 q
        \<and> fst (first_query (env_driver (pf_env pf)) a (cache_of p0)) = Inr rows
    | Replied a r \<Rightarrow> \<exists>p0 p1. process_run pf p p0 \<and> process_run pf p0 p1 \<and> process_run pf p1 q
        \<and> answer_at (env_driver (pf_env pf)) a (cache_of p0) (cache_of p1) = Inr r)"

lemma was_read_later: "was_read pf p g q \<Longrightarrow> process_run pf q q' \<Longrightarrow> was_read pf p g q'"
  unfolding was_read_def by (cases g; simp; blast intro: process_run_trans)

lemma was_read_step:
  assumes "process_run pf p q" and "was_read pf p g q"
  shows "was_read pf p (fst (get_step (env_driver (pf_env pf)) g (cache_of q))) q"
proof (cases g)
  case (Asked a)
  have now: "process_run pf q q" by (rule process_run.rests)
  show ?thesis
  proof (cases "a = AskDevices")
    case True
    then show ?thesis using assms(1) now
      by (auto simp: Asked was_read_def answer_at_def js_return_def split_beta split: sum.split)
  next
    case False
    then have "get_step drv (Asked a) c = (case first_query drv a c of (Inl e, c') \<Rightarrow> (Refused e, c') | (Inr rows, c') \<Rightarrow> (SecondQuery a rows, c'))"
      for drv :: "'a driver" and c by (cases a; hypsubst; simp)
    then show ?thesis using assms(1) now
      by (auto simp: Asked was_read_def split_beta split: sum.split)
  qed
next
  case (SecondQuery a rows)
  with assms(2) obtain p0 where "process_run pf p p0" "process_run pf p0 q"
    "fst (first_query (env_driver (pf_env pf)) a (cache_of p0)) = Inr rows" by (auto simp: was_read_def)
  then have "\<exists>p0 p1. process_run pf p p0 \<and> process_run pf p0 p1 \<and> process_run pf p1 q
      \<and> answer_at (env_driver (pf_env pf)) a (cache_of p0) (cache_of p1) = fst (second_query (env_driver (pf_env pf)) a rows (cache_of q))"
    using process_run.rests [of pf q] by (intro exI [of _ p0] exI [of _ q]) (simp add: answer_at_def)
  then show ?thesis by (auto simp: SecondQuery was_read_def split_beta split: sum.split) blast
qed (use assms(2) in simp_all)

lemma gets_after_step:
  assumes "process_step pf q q'" and "g \<in> set (pr_gets q')"
  obtains "g \<in> set (pr_gets q)" | a where "g = Asked a"
    | i where "i < length (pr_gets q)" and "g = fst (get_step (env_driver (pf_env pf)) (pr_gets q ! i) (cache_of q))"
  using assms(1)
proof cases
  case (request now rq answer)
  then have "pr_gets q' = pr_gets q" by (auto simp: serve_request_def settle_request_def split: prod.splits)
  with assms(2) that(1) show thesis by simp
next
  case (posted rq)
  then have "pr_gets q' = pr_gets q" by (auto simp: accept_post_def split: prod.splits sum.splits flow.splits if_splits)
  with assms(2) that(1) show thesis by simp
next
  case (posting i now)
  then have "pr_gets q' = pr_gets q" by (simp add: step_post_def split_beta)
  with assms(2) that(1) show thesis by simp
next
  case (asked rq)
  then obtain a where "pr_gets q' = pr_gets q @ [Asked a]"
    by (auto simp: accept_get_def split: prod.splits sum.splits flow.splits option.splits)
  with assms(2) that show thesis by auto
next
  case (reading i)
  then have "pr_gets q' = (pr_gets q)[i := fst (get_step (env_driver (pf_env pf)) (pr_gets q ! i) (cache_of q))]"
    by (simp add: step_get_def cache_of_def split_beta)
  with assms(2) reading(3) that(1,3) show thesis by (auto dest: set_update_subset_insert [THEN subsetD])
next
  case (connects now url ic)
  then have "pr_gets q' = pr_gets q" by (simp add: connect_socket_def set_hub_def Let_def split_beta)
  with assms(2) that(1) show thesis by simp
qed (use assms(2) that(1) in \<open>simp_all add: set_hub_def\<close>)

lemma reads_kept:
  assumes "process_run pf p q" and "\<forall>g\<in>set (pr_gets p). \<exists>a. g = Asked a" and "g \<in> set (pr_gets q)"
  shows "was_read pf p g q"
  using assms
proof (induction arbitrary: g rule: process_run.induct)
  case (rests p)
  then show ?case by (fastforce simp: was_read_def)
next
  case (goes p q q')
  have later: "was_read pf p g q'" if "was_read pf p g q" for g
    using was_read_later [OF that process_run_step [OF goes.hyps(2)]] .
  from goes.hyps(2) goes.prems(2) show ?case
  proof (cases rule: gets_after_step)
    case (3 i)
    then show ?thesis using later was_read_step [OF goes.hyps(1)] goes.IH goes.prems(1) by simp
  qed (use later goes.IH goes.prems(1) in \<open>auto simp: was_read_def\<close>)
qed

text \<open>Every answer of a reading endpoint reads the cache at one or two states the process went
  through, in their order: the rows of a metrics or a balance answer at the first, the series or
  the sequence number at the second, whatever polls, posts, requests and sockets did in between.\<close>

theorem answers_span_two_states:
  assumes "process_run pf p q" and "\<forall>g\<in>set (pr_gets p). \<exists>a. g = Asked a" and "Replied a r \<in> set (pr_gets q)"
  shows "\<exists>p0 p1. process_run pf p p0 \<and> process_run pf p0 p1 \<and> process_run pf p1 q
    \<and> answer_at (env_driver (pf_env pf)) a (cache_of p0) (cache_of p1) = Inr r"
  using reads_kept [OF assms] by (simp add: was_read_def)

section \<open>The balance endpoint among polls\<close>

context cache_driver
begin

lemma balance_answer_at:
  "answer_at drv (AskBalance d) c0 c1 = Inr (ok_reply (balance_json (balance_of d (map sample_of (ordered_rows drv d c0))
     (case sql_max (map mr_seq (rows_of d c1)) of None \<Rightarrow> Fin 0 | Some n \<Rightarrow> number_of_int n))))"
  by (simp add: answer_at_def metricsFor_str latestSequence_str ordered_rows_def rows_of_def js_bind_def js_return_def)

lemma ordered_rows_of: "set (ordered_rows drv d c) = set (rows_of d c)"
  using ordered_rows_mset [of d c] by (metis rows_of_def set_mset_mset)

end

lemma balance_of_last:
  assumes "rows \<noteq> []"
  shows "bv_last_reading (balance_of d (map f rows) n) = Some (f (last rows))"
    and "bv_on_chain_balance (balance_of d (map f rows) n) =
      Some (case sm_balance_after (f (last rows)) of None \<Rightarrow> Fin 0 | Some b \<Rightarrow> b)"
    and "bv_latest_seq (balance_of d (map f rows) n) = n"
  using assms by (simp_all add: balance_of_def Let_def last_conv_nth)

lemma rows_of_grow: "cache_grows c0 c1 \<Longrightarrow> set (rows_of d c0) \<subseteq> set (rows_of d c1)"
  by (auto simp: cache_grows_def rows_of_def prefix_def)

text \<open>The bill a cached row of the device records.\<close>

lemma row_bill:
  assumes "faithful k ces c" and "r \<in> set (rows_of d c)"
  obtains m where "m \<in> set (meters_of d (map ce_event ces))" and "mr_balance_after r = Some (sint (m_balance m))"
    and "mr_seq r = Some (uint (m_seq m))"
proof -
  from assms obtain ce m where ce: "ce \<in> set ces" "meter_of (ce_event ce) = Some m" "records k ce m r"
    by (auto simp: faithful_def rows_of_def)
  then have "m \<in> set (meters (map ce_event ces))" by (force simp: meters_def map_filter_def)
  then show thesis using ce(3) assms(2) by (intro that [of m]) (auto simp: meters_of_def rows_of_def records_def)
qed

text \<open>An answer from two states of a truthful cache.\<close>

lemma balance_between:
  fixes d :: string
  assumes drv: "cache_driver drv" and grows: "cache_grows c0 c1" "cache_grows c1 c" and faithful: "faithful k ces c"
  defines "bills \<equiv> set (meters_of d (map ce_event ces))"
    and "bv \<equiv> balance_of d (map sample_of (ordered_rows drv d c0))
      (case sql_max (map mr_seq (rows_of d c1)) of None \<Rightarrow> Fin 0 | Some n \<Rightarrow> number_of_int n)"
  shows "case bv_last_reading bv of
         None \<Rightarrow> bv_on_chain_balance bv = None \<and> bv_total_units bv = Fin 0 \<and> bv_total_billed bv = Fin 0
       | Some sm \<Rightarrow> \<exists>m\<in>bills. \<exists>m'\<in>bills. sm_seq sm = Some (number_of_int (uint (m_seq m)))
           \<and> bv_on_chain_balance bv = Some (number_of_int (sint (m_balance m)))
           \<and> bv_latest_seq bv = number_of_int (uint (m_seq m')) \<and> m_seq m \<le> m_seq m'"
proof (cases "ordered_rows drv d c0 = []")
  case True
  then show ?thesis by (simp add: bv_def balance_of_def Let_def total_of_def)
next
  case False
  note bill = row_bill [OF faithful, of _ d, folded bills_def]
  let ?last = "last (ordered_rows drv d c0)" and ?seqs = "map mr_seq (rows_of d c1)"
  have "?last \<in> set (rows_of d c0)"
    using last_in_set [OF False] by (simp add: cache_driver.ordered_rows_of [OF drv])
  then have l1: "?last \<in> set (rows_of d c1)" using rows_of_grow [OF grows(1)] by blast
  with rows_of_grow [OF grows(2)] obtain m where m: "m \<in> bills"
    "mr_balance_after ?last = Some (sint (m_balance m))" "mr_seq ?last = Some (uint (m_seq m))"
    using bill by blast
  have "Some (uint (m_seq m)) \<in> set ?seqs" unfolding m(3) [symmetric] using l1 by simp
  moreover then obtain n where n: "sql_max ?seqs = Some n"
    by (cases "sql_max ?seqs") (auto simp only: sql_max_None option.distinct)
  ultimately have le: "uint (m_seq m) \<le> n" and "Some n \<in> set ?seqs" using sql_max_Some [OF n] by auto
  then obtain r' where "r' \<in> set (rows_of d c1)" "mr_seq r' = Some n" by auto
  with rows_of_grow [OF grows(2)] obtain m' where m': "m' \<in> bills" "uint (m_seq m') = n"
    using bill by (metis option.inject subsetD)
  have "m_seq m \<le> m_seq m'" using le m'(2) by (simp add: word_le_def)
  then show ?thesis using False m m' n
    by (simp add: bv_def balance_of_last sample_of_def) blast
qed

text \<open>C8. No balance the service answers is made up, however polls, posts and other requests run between
  its two queries: the balance and the last reading of an answer are those of one bill of the
  contract, and the sequence number is that of a bill of the same device, the same or a later one.\<close>

theorem answered_balance_is_contracts:
  fixes p q :: "('x, 'n, 'p, 'l) process"
  assumes "indexer_chain (pf_env pf) enc chain_at latest_at"
    and "caught_up_with (env_contract_id (pf_env pf)) chain_at w (pr_indexer p)" and "pr_polls p = []"
    and "process_run pf p q" and "\<forall>g\<in>set (pr_gets p). \<exists>a. g = Asked a" and "Replied (AskBalance d) r \<in> set (pr_gets q)"
  defines "bills \<equiv> set (meters_of d (map ce_event (chain_at (rpc_calls (pr_indexer q)))))"
  shows "\<exists>bv. r = ok_reply (balance_json bv) \<and> bv_device_id bv = d
    \<and> (case bv_last_reading bv of
         None \<Rightarrow> bv_on_chain_balance bv = None \<and> bv_total_units bv = Fin 0 \<and> bv_total_billed bv = Fin 0
       | Some sm \<Rightarrow> \<exists>m\<in>bills. \<exists>m'\<in>bills. sm_seq sm = Some (number_of_int (uint (m_seq m)))
           \<and> bv_on_chain_balance bv = Some (number_of_int (sint (m_balance m)))
           \<and> bv_latest_seq bv = number_of_int (uint (m_seq m')) \<and> m_seq m \<le> m_seq m')"
proof -
  let ?drv = "env_driver (pf_env pf)"
  have drv: "cache_driver ?drv" using assms(1) by (simp add: indexer_chain_def indexer_host_def)
  obtain p0 p1 where run: "process_run pf p p0" "process_run pf p0 p1" "process_run pf p1 q"
    and ans: "answer_at ?drv (AskBalance d) (cache_of p0) (cache_of p1) = Inr r"
    using answers_span_two_states [OF assms(4-6)] by blast
  have ok: "process_ok enc chain_at latest_at (pf_env pf) p" using assms(2,3) by (auto simp: process_ok_def)
  note step = process_run_ok [OF assms(1)]
  have grows: "cache_grows (cache_of p0) (cache_of p1)" "cache_grows (cache_of p1) (cache_of q)"
    using step [OF run(2)] step [OF run(3)] step [OF run(1) ok] unfolding cache_of_def by blast+
  obtain w' where "caught_up_with (env_contract_id (pf_env pf)) chain_at w' (pr_indexer q)"
    using step [OF assms(4) ok] by (auto simp: process_ok_def)
  then have faithful: "faithful (env_contract_id (pf_env pf)) (chain_at (rpc_calls (pr_indexer q))) (cache_of q)"
    by (simp add: caught_up_with_def cache_of_def)
  let ?bv = "balance_of d (map sample_of (ordered_rows ?drv d (cache_of p0)))
    (case sql_max (map mr_seq (rows_of d (cache_of p1))) of None \<Rightarrow> Fin 0 | Some n \<Rightarrow> number_of_int n)"
  have "r = ok_reply (balance_json ?bv)" using ans by (simp add: cache_driver.balance_answer_at [OF drv])
  moreover have "bv_device_id ?bv = d" by (simp add: balance_of_def Let_def)
  ultimately show ?thesis using balance_between [OF drv grows faithful, of d] unfolding bills_def by blast
qed

text \<open>Polls run while requests are in flight.\<close>

lemma polls_run:
  assumes "polls_reach (pf_env pf) (pr_polls p, pr_indexer p) (ps, s)" and "pr_alive p"
  shows "process_run pf p (p\<lparr>pr_polls := ps, pr_indexer := s\<rparr>)"
proof -
  have "process_run pf p (p\<lparr>pr_polls := fst c, pr_indexer := snd c\<rparr>)"
    if "polls_reach (pf_env pf) c0 c" "c0 = (pr_polls p, pr_indexer p)" for c0 c
    using that
  proof (induction rule: polls_reach.induct)
    case (then_step c1 c2 c3)
    then have "process_run pf p (p\<lparr>pr_polls := fst c2, pr_indexer := snd c2\<rparr>)" by simp
    moreover have "process_step pf (p\<lparr>pr_polls := fst c2, pr_indexer := snd c2\<rparr>)
        (p\<lparr>pr_polls := fst c2, pr_indexer := snd c2\<rparr>\<lparr>pr_polls := fst c3, pr_indexer := snd c3\<rparr>)"
      using then_step.hyps assms(2) by (intro process_step.polls) simp_all
    ultimately show ?case by (auto intro: process_run.goes)
  qed (simp add: process_run.rests)
  from this [OF assms(1) refl] show ?thesis by simp
qed

lemma poller_alone:
  assumes "poller_run n env p s = (p', s')"
  shows "polls_reach env ([p], s) ([p'], s')"
  using assms
proof (induction n arbitrary: p s)
  case (Suc n)
  obtain p1 s1 where one: "poller_step env p s = (p1, s1)" by fastforce
  then have "polls_step env ([p], s) ([p][0 := p1], s1)" by (intro polls_step.advances) simp_all
  moreover have "polls_reach env ([p1], s1) ([p'], s')" using Suc.prems one by (intro Suc.IH) simp
  ultimately show ?case by (auto intro: polls_reach_first)
qed (simp add: polls_reach.now)

lemma poll_steps:
  assumes "poll n (pf_env pf) (pr_indexer p) = Some s'" and "pr_polls p = []" and "pr_alive p"
  shows "process_run pf p (p\<lparr>pr_polls := [Done], pr_indexer := s'\<rparr>)"
proof -
  obtain m where "poller_run m (pf_env pf) Starting (pr_indexer p) = (Done, s')"
    using poll_is_poller [OF assms(1)] by (auto simp: poller_ends_def)
  then have "polls_reach (pf_env pf) ([Starting], pr_indexer p) ([Done], s')" by (rule poller_alone)
  moreover have "polls_step (pf_env pf) ([], pr_indexer p) ([] @ [Starting], pr_indexer p)" by (rule polls_step.fires)
  ultimately have "polls_reach (pf_env pf) ([], pr_indexer p) ([Done], s')" by (auto intro: polls_reach_first)
  then show ?thesis using assms(2,3) by (intro polls_run) simp_all
qed

text \<open>A poll between the two queries of a balance.\<close>

lemma torn_run:
  fixes p :: "('x, 'n, 'p, 'l) process"
  assumes drv: "cache_driver (env_driver (pf_env pf))" and "pr_alive p" and "pr_polls p = []"
    and "pr_gets p = [Asked (AskBalance d)]" and "poll n (pf_env pf) (pr_indexer p) = Some s'"
  shows "\<exists>q. process_run pf p q \<and> pr_indexer q = s' \<and> pr_gets q = [Replied (AskBalance d) (ok_reply (balance_json
    (balance_of d (map sample_of (ordered_rows (env_driver (pf_env pf)) d (cache_of p)))
      (case sql_max (map mr_seq (rows_of d (cache s'))) of None \<Rightarrow> Fin 0 | Some n \<Rightarrow> number_of_int n))))]"
proof -
  let ?rows = "map sample_of (ordered_rows (env_driver (pf_env pf)) d (cache_of p))"
  let ?q1 = "p\<lparr>pr_gets := [SecondQuery (AskBalance d) ?rows]\<rparr>"
  let ?q2 = "?q1\<lparr>pr_polls := [Done], pr_indexer := s'\<rparr>"
  have "process_step pf p (step_get pf 0 p)" using assms(2,4) by (intro process_step.reading) simp_all
  moreover have "step_get pf 0 p = ?q1"
    using assms(2,4) by (simp add: step_get_def cache_driver.metricsFor_str [OF drv] ordered_rows_def cache_of_def)
  ultimately have 1: "process_run pf p ?q1" using process_run_step by metis
  have 2: "process_run pf ?q1 ?q2" using assms(2,3,5) by (intro poll_steps) simp_all
  have "process_step pf ?q2 (step_get pf 0 ?q2)" using assms(2) by (intro process_step.reading) simp_all
  then have "process_run pf p (step_get pf 0 ?q2)"
    using process_run_trans [OF 2 1] by (rule process_run.goes [rotated])
  then show ?thesis
    by (intro exI [of _ "step_get pf 0 ?q2"])
      (simp add: step_get_def cache_driver.latestSequence_str [OF drv] rows_of_def js_bind_def js_return_def)
qed

text \<open>C18. The parts of a balance need not agree: on Postgres, where each query is a round trip to the
  server, a poll that caches a device's first bills between the two queries of a request leaves an
  answer without balance, reading or units, but with the sequence number of a bill.\<close>

theorem balance_may_tear:
  fixes p :: "('x, 'n, 'p, 'l) process"
  assumes "cache_driver (env_driver (pf_env pf))" and "dialect (env_driver (pf_env pf)) = Postgres"
    and "pr_alive p" and "pr_polls p = []" and "pr_gets p = [Asked (AskBalance d)]"
    and "poll n (pf_env pf) (pr_indexer p) = Some s'"
    and "rows_of d (cache_of p) = []" and "row \<in> set (rows_of d (cache s'))" and "mr_seq row = Some k"
  shows "\<exists>q bv k'. process_run pf p q \<and> pr_gets q = [Replied (AskBalance d) (ok_reply (balance_json bv))]
    \<and> bv_last_reading bv = None \<and> bv_on_chain_balance bv = None \<and> bv_total_units bv = Fin 0
    \<and> bv_latest_seq bv = number_of_int k' \<and> k \<le> k'"
proof -
  have none: "ordered_rows (env_driver (pf_env pf)) d (cache_of p) = []"
    using cache_driver.ordered_rows_of [OF assms(1), of d "cache_of p"] assms(7) by simp
  have "Some k \<in> set (map mr_seq (rows_of d (cache s')))" unfolding assms(9) [symmetric] using assms(8) by simp
  moreover then obtain k' where k': "sql_max (map mr_seq (rows_of d (cache s'))) = Some k'"
    by (cases "sql_max (map mr_seq (rows_of d (cache s')))") (auto simp only: sql_max_None option.distinct)
  ultimately have "k \<le> k'" using sql_max_Some [OF k'] by blast
  then show ?thesis using torn_run [OF assms(1,3-6)] unfolding none k'
    by (elim exE) (rule exI, rule exI, rule exI [of _ k'], auto simp: balance_of_def total_of_def)
qed

section \<open>On the demonstration service\<close>

definition demo_pg :: "(scval, string list, string, nat) platform" where
  "demo_pg = demo_platform\<lparr>pf_env := demo_env Postgres\<rparr>"

definition demo_asking :: "(scval, string list, string, nat) process" where
  "demo_asking = demo_process 0\<lparr>pr_gets := [Asked (AskBalance ''D'')]\<rparr>"

lemma demo_asking_simps [simp]:
  "pf_env demo_pg = demo_env Postgres" "pr_alive demo_asking" "pr_polls demo_asking = []" "pr_indexer demo_asking = demo_boot"
  "pr_gets demo_asking = [Asked (AskBalance ''D'')]"
  by (simp_all add: demo_pg_def demo_asking_def demo_process_def)

lemma demo_first_poll:
  obtains s' row where "poll 1 (demo_env Postgres) demo_boot = Some s'" and "row \<in> set (rows_of ''D'' (cache s'))"
    and "mr_seq row = Some 1"
proof -
  have "length demo_chain < 1 * PAGE_LIMIT" by (simp add: demo_chain_def PAGE_LIMIT_def)
  then obtain s' where s': "poll 1 (demo_env Postgres) demo_boot = Some s'"
    using demo_chain.poll_ends [OF demo_caught_up_env] by blast
  have "console s' = console demo_boot"
    by (rule demo_chain.poll_clean [OF demo_caught_up_env s']) (simp add: demo_server_def)
  from demo_chain.poll_keeps(2) [OF demo_caught_up_env s' this]
  have "Some ''e3'' \<in> cached_ids (cache s')" by (auto simp: covers_def demo_chain_def)
  then obtain row where row: "row \<in> set (meter_events (cache s'))" "mr_event_id row = Some ''e3''" by (auto simp: cached_ids_def)
  have "faithful ''C'' demo_chain (cache s')"
    using demo_chain.poll_keeps(1) [OF demo_caught_up_env s'] by (auto simp: caught_up_with_def)
  then have "mr_device_id row = ''D'' \<and> mr_seq row = Some 1"
    using row by (fastforce simp: faithful_def records_def demo_chain_def demo_meter_def meter_event_def meter_of_def log_decode)
  then show thesis using s' row by (intro that) (auto simp: rows_of_def)
qed

lemma demo_pg_driver: "cache_driver (env_driver (pf_env demo_pg))"
  by (simp add: demo.cache_driver_axioms)

lemma demo_torn:
  obtains q bv where "process_run demo_pg demo_asking q" and "Replied (AskBalance ''D'') (ok_reply (balance_json bv)) \<in> set (pr_gets q)"
proof -
  obtain s' where "poll 1 (pf_env demo_pg) (pr_indexer demo_asking) = Some s'" using demo_first_poll by auto
  from torn_run [OF demo_pg_driver _ _ _ this, of "''D''"] show thesis by (auto intro: that)
qed


theorem answers_span_two_states_witness:
  "\<exists>q a r p0 p1. Replied a r \<in> set (pr_gets q) \<and> process_run demo_pg demo_asking p0 \<and> process_run demo_pg p0 p1
    \<and> process_run demo_pg p1 q \<and> answer_at (demo_driver Postgres) a (cache_of p0) (cache_of p1) = Inr r"
proof -
  obtain q bv where q: "process_run demo_pg demo_asking q" "Replied (AskBalance ''D'') (ok_reply (balance_json bv)) \<in> set (pr_gets q)"
    by (rule demo_torn)
  have "\<forall>g\<in>set (pr_gets demo_asking). \<exists>a. g = Asked a" by simp
  from answers_span_two_states [OF q(1) this q(2)] q(2) show ?thesis unfolding demo_asking_simps demo_env_simps by blast
qed

theorem answered_balance_is_contracts_witness:
  "\<exists>q bv. process_run demo_pg demo_asking q \<and> Replied (AskBalance ''D'') (ok_reply (balance_json bv)) \<in> set (pr_gets q)
    \<and> bv_device_id bv = ''D''"
proof -
  obtain q bv where q: "process_run demo_pg demo_asking q" "Replied (AskBalance ''D'') (ok_reply (balance_json bv)) \<in> set (pr_gets q)"
    by (rule demo_torn)
  have "\<forall>g\<in>set (pr_gets demo_asking). \<exists>a. g = Asked a" by simp
  from answered_balance_is_contracts [of demo_pg "\<lambda>v. v" "\<lambda>t. demo_chain" "\<lambda>t. 9" 0 demo_asking q, OF _ _ _ q(1) this q(2)]
  obtain bv' where "ok_reply (balance_json bv) = (ok_reply (balance_json bv') :: scval reply)" "bv_device_id bv' = ''D''"
    using demo_chain.indexer_chain_axioms demo_caught_up by auto
  then show ?thesis using q by metis
qed

theorem balance_may_tear_witness:
  "\<exists>q bv k'. process_run demo_pg demo_asking q \<and> pr_gets q = [Replied (AskBalance ''D'') (ok_reply (balance_json bv))]
    \<and> bv_last_reading bv = None \<and> bv_on_chain_balance bv = None \<and> bv_latest_seq bv = number_of_int k' \<and> 1 \<le> k'"
proof -
  obtain s' row where s': "poll 1 (demo_env Postgres) demo_boot = Some s'" "row \<in> set (rows_of ''D'' (cache s'))" "mr_seq row = Some 1"
    by (rule demo_first_poll)
  have "poll 1 (pf_env demo_pg) (pr_indexer demo_asking) = Some s'" using s'(1) by simp
  moreover have "rows_of ''D'' (cache_of demo_asking) = []" by (simp add: cache_of_def rows_of_def demo_boot_cache)
  moreover have "dialect (env_driver (pf_env demo_pg)) = Postgres" by (simp add: demo_driver_simps)
  ultimately show ?thesis
    using balance_may_tear [OF demo_pg_driver _ demo_asking_simps(2,3,5) _ _ s'(2,3)] by blast
qed

end
