(* ===== verification/Frontend.thy ===== *)
theory Frontend
  imports Api
begin

text \<open>
  The dashboard (\<open>frontend/src\<close>): the API client (\<open>services/api.ts\<close>), the device list
  (\<open>components/DeviceList.tsx\<close>), the live stream (\<open>hooks/useTelemetry.ts\<close>,
  \<open>components/LiveStream.tsx\<close>) and the wallet button (\<open>hooks/useWallet.ts\<close>,
  \<open>components/WalletConnect.tsx\<close>). A component is its state, with one operation per event that
  changes it (a promise settles, a frame arrives, a render is committed, the component is
  unmounted) and what it renders as a function of the state. \<open>fetch\<close>, \<open>JSON.parse\<close> and the wallet
  extension are parameters. TypeScript's types are not checked at run time, so bodies are values.
\<close>

section \<open>Reading values\<close>

text \<open>\<open>v.k\<close> throws on \<open>null\<close> and \<open>undefined\<close>, \<open>v?.k\<close> is \<open>undefined\<close> there.\<close>

fun read_prop :: "'x jsval \<Rightarrow> string \<Rightarrow> exn + 'x jsval" where
  "read_prop Undef k = Inl (type_error (''Cannot read properties of undefined (reading '' @ k @ '')''))"
| "read_prop Null k = Inl (type_error (''Cannot read properties of null (reading '' @ k @ '')''))"
| "read_prop v k = Inr (get_prop v k)"

fun opt_prop :: "'x jsval \<Rightarrow> string \<Rightarrow> 'x jsval" where
  "opt_prop Undef k = Undef"
| "opt_prop Null k = Undef"
| "opt_prop v k = get_prop v k"

text \<open>\<open>v.length\<close> and \<open>v.map\<close>.\<close>

definition js_length :: "'x jsval \<Rightarrow> 'x jsval" where
  "js_length v = (case v of Arr vs \<Rightarrow> Num (number_of_int (int (length vs)))
     | Str t \<Rightarrow> Num (number_of_int (int (length t))) | _ \<Rightarrow> get_prop v ''length'')"

definition array_of :: "string \<Rightarrow> 'x jsval \<Rightarrow> exn + 'x jsval list" where
  "array_of what v = (case v of Arr vs \<Rightarrow> Inr vs | _ \<Rightarrow> Inl (type_error (what @ ''.map is not a function'')))"

definition dash :: "'x jsval" where
  "dash = Str [CHR 0xE2, CHR 0x80, CHR 0x94]"

section \<open>The API client\<close>

record 'x http_response =
  rsp_ok :: bool
  rsp_status :: nat
  rsp_json :: "exn + 'x jsval"

definition api_url :: "string option \<Rightarrow> string" where
  "api_url vite_api_url = (case vite_api_url of None \<Rightarrow> ''/api'' | Some u \<Rightarrow> u)"

definition http_error :: "string \<Rightarrow> 'x http_response \<Rightarrow> exn" where
  "http_error what res = Exn ''Error'' (what @ '' failed: '' @ dec_int (int (rsp_status res)))"

definition fetchDevices :: "(string \<Rightarrow> ('n, 'x http_response) js) \<Rightarrow> string \<Rightarrow> ('n, 'x jsval) js" where
  "fetchDevices http base =
     js_bind (http (base @ ''/devices'')) (\<lambda>res.
     if \<not> rsp_ok res then js_throw (http_error ''fetchDevices'' res)
     else js_bind (js_lift (rsp_json res)) (\<lambda>body.
       js_lift (bindE (read_prop body ''devices'') (\<lambda>v. Inr (nullish v (Arr []))))))"

definition fetchMetrics :: "(string \<Rightarrow> ('n, 'x http_response) js) \<Rightarrow> string \<Rightarrow> string \<Rightarrow> ('n, 'x jsval) js" where
  "fetchMetrics http base deviceId =
     js_bind (http (base @ ''/devices/'' @ deviceId @ ''/metrics'')) (\<lambda>res.
     if \<not> rsp_ok res then js_throw (http_error ''fetchMetrics'' res)
     else js_bind (js_lift (rsp_json res)) (\<lambda>body.
       js_lift (bindE (read_prop body ''series'') (\<lambda>v. Inr (nullish v (Arr []))))))"

definition fetchBalance :: "(string \<Rightarrow> ('n, 'x http_response) js) \<Rightarrow> string \<Rightarrow> string \<Rightarrow> ('n, 'x jsval) js" where
  "fetchBalance http base deviceId =
     js_bind (http (base @ ''/devices/'' @ deviceId @ ''/balance'')) (\<lambda>res.
     if \<not> rsp_ok res then js_throw (http_error ''fetchBalance'' res)
     else js_lift (rsp_json res))"

section \<open>The device list\<close>

record 'x device_list =
  dl_devices :: "'x jsval"
  dl_balances :: "string \<rightharpoonup> 'x jsval"
  dl_series :: "string \<rightharpoonup> 'x jsval"
  dl_error :: "string option"
  dl_loading :: bool

definition initial_list :: "'x device_list" where
  "initial_list = \<lparr>dl_devices = Arr [], dl_balances = Map.empty, dl_series = Map.empty, dl_error = None, dl_loading = True\<rparr>"

text \<open>
  The effect of the component: it waits for the list of devices, then for the details of each,
  and is then settled. \<open>cancelled\<close> is the flag its cleanup sets.
\<close>

datatype 'x load_stage = Loading_Devices | Loading_Details "'x jsval list" | Settled

record 'x list_effect =
  le_stage :: "'x load_stage"
  le_cancelled :: bool
  le_view :: "'x device_list"

definition mounted :: "'x list_effect" where
  "mounted = \<lparr>le_stage = Loading_Devices, le_cancelled = False, le_view = initial_list\<rparr>"

text \<open>\<open>catch\<close> and \<open>finally\<close>.\<close>

definition failed_load :: "exn \<Rightarrow> 'x list_effect \<Rightarrow> 'x list_effect" where
  "failed_load e c = c\<lparr>le_stage := Settled,
     le_view := (le_view c)\<lparr>dl_error := Some (exn_message e), dl_loading := False\<rparr>\<rparr>"

definition devices_settled :: "exn + 'x jsval \<Rightarrow> 'x list_effect \<Rightarrow> 'x list_effect" where
  "devices_settled r c =
     (if le_cancelled c then c\<lparr>le_stage := Settled\<rparr>
      else case r of
          Inl e \<Rightarrow> failed_load e c
        | Inr list \<Rightarrow>
          let c1 = c\<lparr>le_view := (le_view c)\<lparr>dl_devices := list\<rparr>\<rparr> in
          (case bindE (array_of ''list'' list) (\<lambda>ds. bindE (mapE (\<lambda>d. read_prop d ''device_id'') ds) (\<lambda>_. Inr ds)) of
             Inl e \<Rightarrow> failed_load e c1
           | Inr ds \<Rightarrow> c1\<lparr>le_stage := Loading_Details ds\<rparr>))"

definition from_entries :: "(string \<times> 'x jsval) list \<Rightarrow> (string \<rightharpoonup> 'x jsval)" where
  "from_entries kvs = map_of (rev kvs)"

definition device_key :: "('x \<Rightarrow> exn + string) \<Rightarrow> 'x jsval \<Rightarrow> exn + string" where
  "device_key host d = bindE (read_prop d ''device_id'') (js_to_string host)"

text \<open>The requests of one device fail alone: \<open>.catch(() => null)\<close> and \<open>.catch(() => [])\<close>.\<close>

definition or_else :: "'x jsval \<Rightarrow> exn + 'x jsval \<Rightarrow> 'x jsval" where
  "or_else v r = (case r of Inl _ \<Rightarrow> v | Inr w \<Rightarrow> w)"

definition details_settled ::
    "('x \<Rightarrow> exn + string) \<Rightarrow> (exn + 'x jsval) list \<Rightarrow> (exn + 'x jsval) list \<Rightarrow> 'x list_effect \<Rightarrow> 'x list_effect" where
  "details_settled host bals sers c =
     (case le_stage c of
        Loading_Details ds \<Rightarrow>
          if le_cancelled c then c\<lparr>le_stage := Settled\<rparr>
          else (case mapE (device_key host) ds of
              Inl e \<Rightarrow> failed_load e c
            | Inr ks \<Rightarrow> c\<lparr>le_stage := Settled,
                le_view := (le_view c)\<lparr>dl_balances := from_entries (zip ks (map (or_else Null) bals)),
                  dl_series := from_entries (zip ks (map (or_else (Arr [])) sers)), dl_loading := False\<rparr>\<rparr>)
      | _ \<Rightarrow> c)"

definition unmount :: "'x list_effect \<Rightarrow> 'x list_effect" where
  "unmount c = c\<lparr>le_cancelled := True\<rparr>"


text \<open>The whole effect of a mounted component, its requests answered one after another.\<close>

definition attempt :: "('s, 'a) js \<Rightarrow> ('s, exn + 'a) js" where
  "attempt m s = (case m s of (r, s') \<Rightarrow> (Inr r, s'))"

fun attempt_each :: "('a \<Rightarrow> ('s, 'b) js) \<Rightarrow> 'a list \<Rightarrow> ('s, (exn + 'b) list) js" where
  "attempt_each f [] = js_return []"
| "attempt_each f (x # xs) = js_bind (attempt (f x)) (\<lambda>r. js_bind (attempt_each f xs) (\<lambda>rs. js_return (r # rs)))"

definition request_id :: "('x \<Rightarrow> exn + string) \<Rightarrow> (string \<Rightarrow> ('n, 'x jsval) js) \<Rightarrow> 'x jsval \<Rightarrow> ('n, 'x jsval) js" where
  "request_id host req d = js_bind (js_lift (js_to_string host (get_prop d ''device_id''))) req"

definition load_list ::
    "('x \<Rightarrow> exn + string) \<Rightarrow> (string \<Rightarrow> ('n, 'x http_response) js) \<Rightarrow> string \<Rightarrow> ('n, 'x list_effect) js" where
  "load_list host http base =
     js_bind (attempt (fetchDevices http base)) (\<lambda>r.
     let c = devices_settled r mounted in
     case le_stage c of
       Loading_Details ds \<Rightarrow>
         js_bind (attempt_each (request_id host (fetchBalance http base)) ds) (\<lambda>bals.
         js_bind (attempt_each (request_id host (fetchMetrics http base)) ds) (\<lambda>sers.
         js_return (details_settled host bals sers c)))
     | _ \<Rightarrow> js_return c)"

section \<open>Rendering the device list\<close>

record 'x device_line =
  dc_device :: "'x jsval"
  dc_balance :: "'x jsval"
  dc_units :: js_number
  dc_billed :: js_number
  dc_latest_seq :: "'x jsval"
  dc_records :: "'x jsval"

datatype 'x list_page =
    Error_Page string
  | Loading_Page
  | Empty_Page
  | Table_Page "'x device_line list" "('x jsval \<times> 'x jsval \<times> 'x jsval) list"

definition device_cells :: "('x \<Rightarrow> exn + string) \<Rightarrow> 'x device_list \<Rightarrow> 'x jsval \<Rightarrow> exn + 'x device_line" where
  "device_cells host v d =
     bindE (device_key host d) (\<lambda>k.
     let bal = (case dl_balances v k of None \<Rightarrow> Undef | Some b \<Rightarrow> b) in
     bindE (js_to_number host (nullish (opt_prop bal ''total_units'') (get_prop d ''total_units''))) (\<lambda>units.
     bindE (js_to_number host (nullish (opt_prop bal ''total_billed'') (get_prop d ''total_cost''))) (\<lambda>billed.
       Inr \<lparr>dc_device = get_prop d ''device_id'', dc_balance = nullish (opt_prop bal ''on_chain_balance'') dash,
         dc_units = units, dc_billed = billed, dc_latest_seq = nullish (opt_prop bal ''latest_seq'') dash,
         dc_records = get_prop d ''event_count''\<rparr>)))"

definition series_cells :: "('x \<Rightarrow> exn + string) \<Rightarrow> 'x device_list \<Rightarrow> 'x jsval \<Rightarrow> exn + ('x jsval \<times> 'x jsval \<times> 'x jsval) list" where
  "series_cells host v d0 =
     bindE (device_key host d0) (\<lambda>k.
     let ser = nullish (case dl_series v k of None \<Rightarrow> Undef | Some s \<Rightarrow> s) (Arr []) in
     bindE (js_to_number host (js_length ser)) (\<lambda>n.
     if \<not> js_less (Fin 0) n then Inr []
     else bindE (array_of ''series[devices[0].device_id]'' ser) (\<lambda>ss.
       mapE (\<lambda>s. bindE (read_prop s ''bucket'') (\<lambda>b. Inr (b, get_prop s ''total_units'', get_prop s ''total_cost''))) ss)))"

definition render_list :: "('x \<Rightarrow> exn + string) \<Rightarrow> 'x device_list \<Rightarrow> exn + 'x list_page" where
  "render_list host v =
     (case dl_error v of
        Some (m # ms) \<Rightarrow> Inr (Error_Page (m # ms))
      | _ \<Rightarrow>
        if dl_loading v then Inr Loading_Page
        else if js_length (dl_devices v) = zero then Inr Empty_Page
        else bindE (array_of ''devices'' (dl_devices v)) (\<lambda>ds.
          bindE (mapE (device_cells host v) ds) (\<lambda>rows.
          bindE (series_cells host v (hd ds)) (\<lambda>series.
            Inr (Table_Page rows series)))))"

section \<open>The live stream\<close>

text \<open>
  The hook keeps the last parsed frame; the chart takes a sample of it in an effect, when a
  render with a new frame is committed. Frames that arrive between two commits replace each
  other: \<open>sv_fresh\<close> says that the frame has not been committed yet.
\<close>

record 'x stream_view =
  sv_event :: "'x jsval"
  sv_fresh :: bool
  sv_samples :: "(string \<times> js_number) list"

definition stream_start :: "'x stream_view" where
  "stream_start = \<lparr>sv_event = Null, sv_fresh = False, sv_samples = []\<rparr>"

definition CHART_LENGTH :: nat where "CHART_LENGTH = 60"

definition on_frame :: "(string \<Rightarrow> exn + 'x jsval) \<Rightarrow> string \<Rightarrow> 'x stream_view \<Rightarrow> 'x stream_view" where
  "on_frame parse frame v = (case parse frame of Inl _ \<Rightarrow> v | Inr ev \<Rightarrow> v\<lparr>sv_event := ev, sv_fresh := True\<rparr>)"

definition is_billed :: "'x jsval \<Rightarrow> bool" where
  "is_billed ev \<longleftrightarrow> truthy ev \<and> get_prop ev ''type'' = Str ''meter_billed''"

definition last_samples :: "'a list \<Rightarrow> 'a list" where
  "last_samples xs = drop (length xs - CHART_LENGTH) xs"

definition on_commit :: "('x \<Rightarrow> exn + string) \<Rightarrow> string \<Rightarrow> 'x stream_view \<Rightarrow> exn + 'x stream_view" where
  "on_commit host time v =
     (if sv_fresh v \<and> is_billed (sv_event v)
      then bindE (js_to_number host (get_prop (sv_event v) ''cost'')) (\<lambda>cost.
        Inr (v\<lparr>sv_fresh := False, sv_samples := last_samples (sv_samples v @ [(time, cost)])\<rparr>))
      else Inr (v\<lparr>sv_fresh := False\<rparr>))"

definition last_billed :: "'x stream_view \<Rightarrow> 'x jsval option" where
  "last_billed v = (if is_billed (sv_event v) then Some (sv_event v) else None)"

text \<open>The address of the socket; setting the search parameter is the platform's \<open>URL\<close>.\<close>

definition stream_base :: "string option \<Rightarrow> string option \<Rightarrow> string" where
  "stream_base busUrl vite_ws_url = (case busUrl of Some u \<Rightarrow> u | None \<Rightarrow>
     (case vite_ws_url of Some u \<Rightarrow> u | None \<Rightarrow> ''ws://localhost:8080/stream/telemetry''))"

definition stream_url ::
    "(string \<Rightarrow> string option \<Rightarrow> exn + string) \<Rightarrow> string option \<Rightarrow> string option \<Rightarrow> string option \<Rightarrow> exn + string" where
  "stream_url set_device busUrl vite_ws_url device =
     set_device (stream_base busUrl vite_ws_url) (case device of Some (c # cs) \<Rightarrow> Some (c # cs) | _ \<Rightarrow> None)"

section \<open>The wallet button\<close>

record ('n, 'x) freighter =
  fr_import :: "('n, unit) js"
  fr_is_connected :: "('n, 'x jsval) js"
  fr_get_address :: "('n, 'x jsval) js"
  fr_get_network :: "('n, 'x jsval) js"

record 'x wallet_info =
  wi_address :: "'x jsval"
  wi_network :: "'x jsval"

definition not_connected :: exn where
  "not_connected = Exn ''Error'' ''Freighter wallet not connected''"

definition connectWallet :: "('n, 'x) freighter \<Rightarrow> ('n, 'x wallet_info) js" where
  "connectWallet fr =
     js_bind (fr_import fr) (\<lambda>_.
     js_bind (fr_is_connected fr) (\<lambda>connected.
     if \<not> truthy connected then js_throw not_connected
     else js_bind (fr_get_address fr) (\<lambda>address.
       js_bind (fr_get_network fr) (\<lambda>network.
       js_lift (bindE (read_prop address ''address'') (\<lambda>a.
         bindE (read_prop network ''networkPassphrase'') (\<lambda>n. Inr \<lparr>wi_address = a, wi_network = n\<rparr>)))))))"

record 'x wallet_view =
  wv_wallet :: "'x wallet_info option"
  wv_status :: string

definition handleConnect :: "('n, 'x) freighter \<Rightarrow> 'x wallet_view \<Rightarrow> ('n, 'x wallet_view) js" where
  "handleConnect fr v n =
     (let v1 = v\<lparr>wv_status := []\<rparr> in
      case connectWallet fr n of
        (Inr info, n') \<Rightarrow> (Inr (v1\<lparr>wv_wallet := Some info\<rparr>), n')
      | (Inl e, n') \<Rightarrow> (Inr (v1\<lparr>wv_status := exn_message e\<rparr>), n'))"

text \<open>\<open>slice(0, 6)\<close>, an ellipsis and \<open>slice(-4)\<close>.\<close>

definition short_address :: "string \<Rightarrow> string" where
  "short_address a = take 6 a @ [CHR 0xE2, CHR 0x80, CHR 0xA6] @ drop (length a - 4) a"

end
