(* ===== verification/Store_Properties.thy ===== *)
theory Store_Properties
  imports Store_Driver
begin

text \<open>
  The properties of the event cache, each with its witness on the demonstration drivers.
\<close>

section \<open>A small cache\<close>

definition demo_row :: "string \<Rightarrow> int \<Rightarrow> int \<Rightarrow> int \<Rightarrow> string \<Rightarrow> meter_row" where
  "demo_row i n u c e = \<lparr>mr_event_id = Some i, mr_contract_id = Some ''C'', mr_ledger = Some 7, mr_device_id = ''D'',
     mr_operator = None, mr_units = u, mr_rate_per_unit = 0, mr_cost = c, mr_balance_after = Some 100,
     mr_seq = Some n, mr_ledger_ts = Some 5, mr_emitted_at = Some e, mr_raw = Some ''{}''\<rparr>"

definition demo_cache :: db where
  "demo_cache = \<lparr>meter_columns = Some meter_schema, meta = Map.empty,
     meter_events = [demo_row ''e2'' 2 4 40 ''2026-01-03T10:00:00.000Z'', demo_row ''e1'' 1 3 30 ''2026-01-02T10:00:00.000Z''],
     pending_readings = [], next_pending = 1\<rparr>"

definition demo_event :: "'x jsval \<Rightarrow> 'x event_row" where
  "demo_event d = \<lparr>er_event_id = Str ''e9'', er_contract_id = Str ''C'', er_ledger = Num (number_of_int 8),
     er_device_id = d, er_operator = Null, er_units = BigInt 1, er_rate_per_unit = BigInt 0, er_cost = BigInt 5,
     er_balance_after = Null, er_seq = Null, er_ledger_ts = Null, er_emitted_at = Undef, er_raw = Undef\<rparr>"

abbreviation sqlite :: "unit driver" where "sqlite \<equiv> demo_driver Sqlite"
abbreviation postgres :: "unit driver" where "postgres \<equiv> demo_driver Postgres"



lemma demo_cache_column: "has_column ''ledger_ts'' demo_cache"
  by (simp add: demo_cache_def has_column_def meter_schema_def)

section \<open>The watermark\<close>

text \<open>The ledger watermark is stored as text and read back as the same number, in either dialect
  and whatever was stored before.\<close>

theorem watermark_roundtrip:
  assumes "cache_driver drv" and "\<bar>n\<bar> \<le> 2 ^ 53"
  shows "\<exists>s'. setLastLedger drv (number_of_int n) s = (Inr (), s') \<and> getLastLedger s' = (Inr (number_of_int n), s')
    \<and> meter_events s' = meter_events s"
  using cache_driver.watermark_set [OF assms(1)] cache_driver.watermark_get [OF assms, of s] by simp

theorem watermark_roundtrip_witness:
  "\<exists>s'. setLastLedger postgres (number_of_int 1234567) demo_cache = (Inr (), s')
    \<and> getLastLedger s' = (Inr (number_of_int 1234567), s') \<and> meter_events s' = meter_events demo_cache"
  by (rule watermark_roundtrip [OF demo.cache_driver_axioms]) simp

section \<open>Opening an old cache\<close>

text \<open>Opening a SQLite file written by any version gives a table with the column \<open>ledger_ts\<close>, keeps
  every row in its place with all its other columns, the metadata and the pending readings, and
  opening again changes nothing.\<close>

theorem open_migrates:
  assumes "dialect drv = Sqlite"
  shows "has_column ''ledger_ts'' (open_store drv s)
    \<and> map (\<lambda>r. r\<lparr>mr_ledger_ts := None\<rparr>) (meter_events (open_store drv s)) =
        map (\<lambda>r. r\<lparr>mr_ledger_ts := None\<rparr>) (meter_events s)
    \<and> (has_column ''ledger_ts'' s \<longrightarrow> open_store drv s = s)
    \<and> meta (open_store drv s) = meta s \<and> pending_readings (open_store drv s) = pending_readings s
    \<and> open_store drv (open_store drv s) = open_store drv s"
  using assms
  by (auto simp: open_store_def create_tables_def migrateCompat_def has_column_def meter_schema_def comp_def
      split: option.splits)

theorem open_migrates_witness:
  "has_column ''ledger_ts'' (open_store sqlite (demo_cache\<lparr>meter_columns := Some [''id'', ''event_id'']\<rparr>))"
  using open_migrates [OF demo_driver_simps(3)] by blast

section \<open>Ingestion\<close>

lemma ingest_run:
  "has_column ''ledger_ts'' s \<Longrightarrow> ingest drv row s =
    (case bind_row drv (ingest_ctx row) of Inl e \<Rightarrow> (Inl e, s)
     | Inr vals \<Rightarrow> (case complete_row vals of
         Inl c \<Rightarrow> (case dialect drv of Sqlite \<Rightarrow> (Inr (), s) | Postgres \<Rightarrow> (Inl (not_null_violation drv c), s))
       | Inr r \<Rightarrow> (Inr (), insert_event r s)))"
  by (simp add: ingest_def need_column_def js_bind_def js_lift_def js_simps split: sum.split dialect.split)

text \<open>The dialects differ on a bill without a device: the column is \<open>NOT NULL\<close>, which SQLite's
  \<open>INSERT OR IGNORE\<close> passes over in silence and Postgres' \<open>ON CONFLICT (event_id)\<close> raises.\<close>

theorem missing_device_by_dialect:
  assumes "bind_row drv (ingest_ctx row) = Inr (None, units, rate, cost, mk)" and "has_column ''ledger_ts'' s"
  shows "ingest drv row s = (case dialect drv of Sqlite \<Rightarrow> (Inr (), s)
    | Postgres \<Rightarrow> (Inl (not_null_violation drv ''device_id''), s))"
  using assms by (simp add: ingest_run complete_row_def split: dialect.split)

lemma demo_bind_event:
  assumes "bind_text (demo_driver d) dev = Inr t"
  shows "bind_row (demo_driver d) (ingest_ctx (demo_event dev)) =
    Inr (t, Some 1, Some 0, Some 5, \<lambda>d u r c.
      \<lparr>mr_event_id = Some ''e9'', mr_contract_id = Some ''C'', mr_ledger = Some 8, mr_device_id = d, mr_operator = None,
       mr_units = u, mr_rate_per_unit = r, mr_cost = c, mr_balance_after = None, mr_seq = None, mr_ledger_ts = None,
       mr_emitted_at = None, mr_raw = None\<rparr>)"
  using assms
  by (simp add: bind_row_def ingest_ctx_def demo_event_def demo.bind_text_str demo.bind_text_null demo.bind_int_null
      demo.bind_int_big demo.bind_int_num in_i64_def)

theorem missing_device_by_dialect_witness:
  "ingest sqlite (demo_event Null) demo_cache = (Inr (), demo_cache)
   \<and> ingest postgres (demo_event Null) demo_cache =
       (Inl (Exn ''error'' ''null value in column device_id''), demo_cache)"
  using missing_device_by_dialect [OF demo_bind_event [OF demo.bind_text_null] demo_cache_column, of Sqlite]
    missing_device_by_dialect [OF demo_bind_event [OF demo.bind_text_null] demo_cache_column, of Postgres]
  by (simp add: demo_driver_simps)

text \<open>The row a call of \<open>ingest\<close> would store.\<close>

definition storable :: "'x driver \<Rightarrow> 'x event_row \<Rightarrow> meter_row \<Rightarrow> bool" where
  "storable drv row r \<longleftrightarrow> (case bind_row drv (ingest_ctx row) of Inl e \<Rightarrow> False | Inr vals \<Rightarrow> complete_row vals = Inr r)"

lemma ingest_storable:
  "storable drv row r \<Longrightarrow> has_column ''ledger_ts'' s \<Longrightarrow> ingest drv row s = (Inr (), insert_event r s)"
  by (cases "bind_row drv (ingest_ctx row)") (simp_all add: ingest_run storable_def)

text \<open>An event is stored once: a first delivery appends its row, and a later delivery under the same
  event id succeeds and changes nothing, whatever else its row says.\<close>

theorem ingest_idempotent:
  assumes "storable drv row r" and "storable drv row' r'" and "mr_event_id r' = mr_event_id r"
    and "mr_event_id r \<noteq> None" and "mr_event_id r \<notin> set (map mr_event_id (meter_events s))"
    and "has_column ''ledger_ts'' s"
  shows "\<exists>s'. ingest drv row s = (Inr (), s') \<and> meter_events s' = meter_events s @ [r]
    \<and> ingest drv row' s' = (Inr (), s')"
proof -
  have "has_column ''ledger_ts'' (insert_event r s)" using assms(6) by (simp add: has_column_def)
  moreover have "insert_event r' (insert_event r s) = insert_event r s"
    using assms(3,4) by (auto simp: insert_event_def known_event_def)
  moreover have "meter_events (insert_event r s) = meter_events s @ [r]"
    using assms(4,5) by (simp add: insert_event_def known_event_def)
  ultimately show ?thesis
    using ingest_storable [OF assms(1,6)] ingest_storable [OF assms(2)] by simp
qed

theorem ingest_idempotent_witness:
  "\<exists>s'. ingest postgres (demo_event (Str ''D'')) demo_cache = (Inr (), s')
    \<and> ingest postgres (demo_event (Str ''E'')) s' = (Inr (), s')"
proof -
  have "\<exists>r. storable postgres (demo_event (Str t)) r \<and> mr_event_id r = Some ''e9''" for t
    by (simp add: storable_def demo_bind_event [OF demo.bind_text_str] complete_row_def)
  then obtain r r' where r: "storable postgres (demo_event (Str ''D'')) r" "mr_event_id r = Some ''e9''"
    "storable postgres (demo_event (Str ''E'')) r'" "mr_event_id r' = Some ''e9''" by metis
  have "mr_event_id r \<notin> set (map mr_event_id (meter_events demo_cache))"
    by (simp add: r demo_cache_def demo_row_def)
  with ingest_idempotent [OF r(1,3), of demo_cache] show ?thesis by (auto simp: r demo_cache_column)
qed

section \<open>Queries\<close>

text \<open>The samples of a device are its rows in the window, each exactly once, in ascending order of
  the sequence number.\<close>

theorem metrics_sorted_rows:
  assumes "cache_driver drv" and "where_clause drv (Str d) frm to = Inr P"
  shows "\<exists>rows. metricsFor drv (Str d) frm to s = (Inr (map sample_of rows), s)
    \<and> mset rows = mset (filter P (meter_events s)) \<and> sorted_wrt (seq_le drv) rows"
proof -
  have "mset (filter P (scan drv (meter_events s))) = mset (filter P (meter_events s))"
    by (rule cache_driver.scan_filter [OF assms(1)])
  then show ?thesis
    using assms(2) cache_driver.metrics_sorted [OF assms(1)]
    by (intro exI [of _ "sort_by (seq_le drv) (filter P (scan drv (meter_events s)))"])
      (simp add: metricsFor_def js_bind_simps js_simps)
qed

theorem metrics_sorted_rows_witness:
  "\<exists>rows. metricsFor sqlite (Str ''D'') Undef Undef demo_cache = (Inr (map sample_of rows), demo_cache)
    \<and> mset rows = mset (filter (\<lambda>r. ''D'' = mr_device_id r) (meter_events demo_cache))
    \<and> sorted_wrt (seq_le sqlite) rows"
  by (rule metrics_sorted_rows [OF demo.cache_driver_axioms demo.where_device])

text \<open>C36. The buckets of \<open>aggregate\<close> partition the rows of the window: they are distinct and sorted, and
  their units, costs and counts add up to those of the rows, so no reading is lost or counted twice.\<close>

theorem aggregate_conserves:
  assumes "cache_driver drv" and "where_clause drv (Str d) frm to = Inr P"
    and "aggregate drv (Str d) frm to g s = (Inr bs, s')"
  shows "distinct (map bk_bucket bs)
    \<and> sorted_wrt (null_le (dialect drv) (text_le drv)) (map bk_bucket bs)
    \<and> (\<exists>us. map bk_total_units bs = map number_of_int us \<and> sum_list us = (\<Sum>r\<leftarrow>filter P (meter_events s). mr_units r))
    \<and> (\<exists>cs. map bk_total_cost bs = map number_of_int cs \<and> sum_list cs = (\<Sum>r\<leftarrow>filter P (meter_events s). mr_cost r))
    \<and> (\<exists>ns. map bk_event_count bs = map number_of_int ns \<and> sum_list ns = int (length (filter P (meter_events s))))"
  using cache_driver.aggregate_totals [OF assms] by blast



lemma postgres_bucket: "\<exists>k. bucket_row_of postgres b rs = Inr k"
  by (simp add: bucket_row_of_def sql_sum_def demo_driver_simps)

theorem aggregate_conserves_witness:
  "\<exists>bs. aggregate postgres (Str ''D'') Undef Undef (Str ''hour'') demo_cache = (Inr bs, demo_cache)
     \<and> (\<exists>cs. map bk_total_cost bs = map number_of_int cs \<and> sum_list cs = 70)"
proof -
  obtain G where "bucket_row_of postgres b rs = Inr (G b rs)" for b rs using postgres_bucket by metis
  then have "mapE (\<lambda>b. bucket_row_of postgres b (f b)) ks = Inr (map (\<lambda>b. G b (f b)) ks)" for f ks
    by (rule mapE_Inr)
  then obtain bs where bs: "aggregate postgres (Str ''D'') Undef Undef (Str ''hour'') demo_cache = (Inr bs, demo_cache)"
    using demo.aggregate_run [OF demo.where_device, of Postgres "''D''" "Str ''hour'' :: unit jsval" demo_cache] by (auto simp: Let_def)
  have "(\<Sum>r\<leftarrow>filter (\<lambda>r. ''D'' = mr_device_id r) (meter_events demo_cache). mr_cost r) = 70"
    by (simp add: demo_cache_def demo_row_def)
  with bs aggregate_conserves [OF demo.cache_driver_axioms demo.where_device bs] show ?thesis by metis
qed


section \<open>Pending readings\<close>

text \<open>The ids of the table ascend and lie below the next one.\<close>

definition pending_ids :: "db \<Rightarrow> bool" where
  "pending_ids s \<longleftrightarrow> sorted_wrt (\<lambda>r1 r2. pr_id r1 < pr_id r2) (pending_readings s)
     \<and> (\<forall>r\<in>set (pending_readings s). pr_id r < next_pending s)"

lemma sort_by_sorted:
  assumes "sorted_wrt le xs" shows "sort_by le xs = xs"
  using assms
proof (induction xs)
  case (Cons x xs)
  then have "sort_by le xs = xs" "\<forall>y\<in>set xs. le x y" by simp_all
  then show ?case by (cases xs) (simp_all add: sort_by_def)
qed (simp add: sort_by_def)

lemma pending_in_order:
  assumes "pending_ids s"
  shows "sort_by (\<lambda>r1 r2. pr_id r1 \<le> pr_id r2) (filter P (pending_readings s)) = filter P (pending_readings s)"
proof (rule sort_by_sorted)
  have "sorted_wrt (\<lambda>r1 r2. pr_id r1 \<le> pr_id r2) (pending_readings s)"
    by (rule sorted_wrt_mono_rel [of _ "\<lambda>r1 r2. pr_id r1 < pr_id r2"])
      (use assms in \<open>simp_all add: pending_ids_def\<close>)
  then show "sorted_wrt (\<lambda>r1 r2. pr_id r1 \<le> pr_id r2) (filter P (pending_readings s))"
    by (rule sorted_wrt_filter)
qed

text \<open>C37. A reading the gateway records is read back: the readings of its device are the earlier ones in
  their order followed by the new one, with the fields it was recorded with and a fresh id, and the
  table's ids stay ascending.\<close>

theorem pending_roundtrip:
  assumes "cache_driver drv" and "pending_ids s"
    and "\<bar>q\<bar> \<le> 2 ^ 53" and "\<bar>u\<bar> \<le> 2 ^ 53" and "\<bar>t\<bar> \<le> 2 ^ 53" and "d \<noteq> []"
  shows "\<exists>s' old. recordPendingReading drv now (Str d) (Str k) (Num (number_of_int q)) (Num (number_of_int u))
        (Num (number_of_int t)) (Str h) s = (Inr (), s')
    \<and> pendingReadings drv (Str d) s = (Inr old, s)
    \<and> pendingReadings drv (Str d) s' = (Inr (old @ [\<lparr>pr_id = next_pending s, pr_device_id = d, pr_device_pubkey = k,
        pr_seq = q, pr_delta_units = u, pr_timestamp_ms = t, pr_tx_hash = Some h, pr_accepted_at = now\<rparr>]), s')
    \<and> pending_ids s' \<and> meter_events s' = meter_events s \<and> meta s' = meta s"
proof -
  note binds = cache_driver.bind_text_str [OF assms(1)] cache_driver.bind_int_num [OF assms(1)]
  let ?r = "\<lparr>pr_id = next_pending s, pr_device_id = d, pr_device_pubkey = k,
        pr_seq = q, pr_delta_units = u, pr_timestamp_ms = t, pr_tx_hash = Some h, pr_accepted_at = now\<rparr>"
  let ?s = "s\<lparr>next_pending := Suc (next_pending s), pending_readings := pending_readings s @ [?r]\<rparr>"
  have run: "recordPendingReading drv now (Str d) (Str k) (Num (number_of_int q)) (Num (number_of_int u))
      (Num (number_of_int t)) (Str h) s = (Inr (), ?s)"
    using assms(3-5)
    by (simp add: recordPendingReading_def binds js_bind_simps js_simps)
  have ids: "pending_ids ?s"
    using assms(2) by (auto simp: pending_ids_def sorted_wrt_append less_Suc_eq)
  have read: "pendingReadings drv (Str d) s0 = (Inr (filter (\<lambda>r. d = pr_device_id r) (pending_readings s0)), s0)"
    if "pending_ids s0" for s0
    using assms(6) pending_in_order [OF that]
    by (simp add: pendingReadings_def binds js_bind_simps js_simps)
  show ?thesis using run ids read [OF assms(2)] read [OF ids] by simp
qed

theorem pending_roundtrip_witness:
  "\<exists>s'. fst (pendingReadings sqlite (Str ''D'') s') =
     Inr [\<lparr>pr_id = 1, pr_device_id = ''D'', pr_device_pubkey = ''k'', pr_seq = 3, pr_delta_units = 4,
       pr_timestamp_ms = 5, pr_tx_hash = Some ''h'', pr_accepted_at = ''2026-01-02T10:00:00.000Z''\<rparr>]"
proof -
  have "pending_ids demo_cache" by (simp add: pending_ids_def demo_cache_def)
  then obtain s' old where "pendingReadings sqlite (Str ''D'') demo_cache = (Inr old, demo_cache)"
    and "pendingReadings sqlite (Str ''D'') s' = (Inr (old @ [\<lparr>pr_id = next_pending demo_cache, pr_device_id = ''D'',
       pr_device_pubkey = ''k'', pr_seq = 3, pr_delta_units = 4, pr_timestamp_ms = 5, pr_tx_hash = Some ''h'',
       pr_accepted_at = ''2026-01-02T10:00:00.000Z''\<rparr>]), s')"
    using pending_roundtrip [OF demo.cache_driver_axioms, where d = "''D''" and k = "''k''" and q = 3 and u = 4
        and t = 5 and h = "''h''" and now = "''2026-01-02T10:00:00.000Z''"] by fastforce
  then show ?thesis
    by (intro exI [of _ s']) (auto simp: pendingReadings_def demo.bind_text_str js_bind_simps js_simps sort_by_def demo_cache_def)
qed

end
