(* ===== verification/Frontend_Properties.thy ===== *)
theory Frontend_Properties
  imports Frontend Store_Properties
begin

text \<open>
  The properties of the dashboard: the loading of the device list, its table against the
  backend's cache, the chart of the live stream and the wallet button.
\<close>

section \<open>Loading\<close>

lemma attempt_run: "\<exists>r s'. attempt m s = (Inr r, s')"
  by (simp add: attempt_def split: prod.split)

lemma attempt_each_run: "\<exists>rs s'. attempt_each f xs s = (Inr rs, s') \<and> length rs = length xs"
proof (induction xs arbitrary: s)
  case (Cons x xs)
  obtain r s1 where "attempt (f x) s = (Inr r, s1)" using attempt_run by metis
  with Cons.IH [of s1] show ?case by (auto simp: js_bind_def js_return_def)
qed (simp add: js_return_def)

lemma devices_settled_stage:
  assumes "\<not> le_cancelled c"
  obtains (details) ds where "le_stage (devices_settled r c) = Loading_Details ds" "\<not> le_cancelled (devices_settled r c)"
    | (failed) "le_stage (devices_settled r c) = Settled" "\<not> dl_loading (le_view (devices_settled r c))"
        "dl_error (le_view (devices_settled r c)) \<noteq> None"
proof (cases r)
  case (Inl e)
  with assms show thesis by (intro failed) (simp_all add: devices_settled_def failed_load_def)
next
  case (Inr list)
  show thesis
  proof (cases "bindE (array_of ''list'' list) (\<lambda>ds. bindE (mapE (\<lambda>d. read_prop d ''device_id'') ds) (\<lambda>_. Inr ds))")
    case (Inl e)
    with assms Inr show thesis by (intro failed) (simp_all add: devices_settled_def failed_load_def Let_def)
  next
    case ds: (Inr ds)
    with assms Inr show thesis by (intro details [of ds]) (simp_all add: devices_settled_def Let_def)
  qed
qed

text \<open>Loading always comes to an end the user sees: whatever the server answers to any of the
  requests, the effect settles without throwing, the list leaves its loading state, and when the
  request for the devices fails, the page shows that error.\<close>

theorem load_list_settles:
  fixes http :: "string \<Rightarrow> ('n, 'x http_response) js"
  shows "\<exists>c n'. load_list host http base n = (Inr c, n') \<and> le_stage c = Settled \<and> \<not> dl_loading (le_view c)
    \<and> (\<forall>e n1. fetchDevices http base n = (Inl e, n1) \<longrightarrow> dl_error (le_view c) = Some (exn_message e))"
proof -
  obtain r n1 where r: "fetchDevices http base n = (r, n1)" by fastforce
  let ?c = "devices_settled r mounted"
  have start: "load_list host http base n = (case le_stage ?c of
       Loading_Details ds \<Rightarrow>
         js_bind (attempt_each (request_id host (fetchBalance http base)) ds) (\<lambda>bals.
         js_bind (attempt_each (request_id host (fetchMetrics http base)) ds) (\<lambda>sers.
         js_return (details_settled host bals sers ?c)))
     | _ \<Rightarrow> js_return ?c) n1"
    using r by (simp add: load_list_def attempt_def js_bind_def Let_def)
  have err: "dl_error (le_view ?c) = Some (exn_message e)" "le_stage ?c = Settled" if "r = Inl e" for e
    using that by (simp_all add: devices_settled_def mounted_def failed_load_def)
  have "\<not> le_cancelled (mounted :: 'x list_effect)" by (simp add: mounted_def)
  then show ?thesis
  proof (cases rule: devices_settled_stage [where r = r])
    case (details ds)
    obtain bals n2 where b: "attempt_each (request_id host (fetchBalance http base)) ds n1 = (Inr bals, n2)"
      using attempt_each_run by metis
    obtain sers n3 where s: "attempt_each (request_id host (fetchMetrics http base)) ds n2 = (Inr sers, n3)"
      using attempt_each_run by metis
    have run: "load_list host http base n = (Inr (details_settled host bals sers ?c), n3)"
      unfolding start details(1) using b s by (simp add: js_bind_def js_return_def)
    have "le_stage (details_settled host bals sers ?c) = Settled \<and> \<not> dl_loading (le_view (details_settled host bals sers ?c))"
      using details by (simp add: details_settled_def failed_load_def split: sum.split)
    moreover have "r \<noteq> Inl e" for e using details err by auto
    ultimately show ?thesis using run r by auto
  next
    case failed
    have "load_list host http base n = (Inr ?c, n1)" unfolding start failed(1) by (simp add: js_return_def)
    with failed err r show ?thesis by auto
  qed
qed

text \<open>A server that cannot be reached.\<close>

definition no_http :: "string \<Rightarrow> (unit, unit http_response) js" where
  "no_http url = js_throw (type_error ''Failed to fetch'')"

theorem load_list_settles_witness:
  "\<exists>c n'. load_list (\<lambda>x. Inr []) no_http ''/api'' () = (Inr c, n') \<and> dl_error (le_view c) = Some ''Failed to fetch''"
proof -
  have "fetchDevices no_http ''/api'' () = (Inl (type_error ''Failed to fetch''), ())"
    by (simp add: fetchDevices_def no_http_def js_bind_def js_throw_def)
  moreover obtain c n' where c: "load_list (\<lambda>x. Inr []) no_http ''/api'' () = (Inr c, n')"
    and err: "\<forall>e n1. fetchDevices no_http ''/api'' () = (Inl e, n1) \<longrightarrow> dl_error (le_view c) = Some (exn_message e)"
    using load_list_settles [of "\<lambda>x. Inr []" no_http "''/api''" "()"] by blast
  ultimately have "dl_error (le_view c) = Some ''Failed to fetch''" by (metis exn.sel(2))
  with c show ?thesis by blast
qed

text \<open>An unmounted component is not touched again: after its cleanup, neither the devices nor the
  details arriving, nor a failure, changes what it would show.\<close>

theorem unmounted_never_updates:
  "le_view (devices_settled r (unmount c)) = le_view c \<and> le_cancelled (devices_settled r (unmount c))
   \<and> le_view (details_settled host bals sers (unmount c)) = le_view c
   \<and> le_view (details_settled host bals sers (devices_settled r (unmount c))) = le_view c"
  by (simp add: unmount_def devices_settled_def details_settled_def split: load_stage.split)

section \<open>The table\<close>

lemma map_of_keyed: "k \<in> set ks \<Longrightarrow> map_of (map (\<lambda>k. (k, f k)) ks) k = Some (f k)"
  by (induction ks) auto

lemma from_entries_map:
  assumes "k \<in> set ks" shows "from_entries (zip ks (map f ks)) k = Some (f k)"
proof -
  have "zip ks (map f ks) = map (\<lambda>k. (k, f k)) ks" by (simp add: zip_map2 zip_same_conv_map)
  then show ?thesis using assms map_of_keyed [of k "rev ks" f] by (simp add: from_entries_def rev_map)
qed

definition response_of :: "'x reply \<Rightarrow> 'x http_response" where
  "response_of r = \<lparr>rsp_ok = (200 \<le> reply_status r \<and> reply_status r < 300), rsp_status = reply_status r,
     rsp_json = Inr (reply_body r)\<rparr>"

text \<open>A server that answers the requests for the devices and the balances from a cache.\<close>

definition answers_from :: "'x driver \<Rightarrow> db \<Rightarrow> string \<Rightarrow> (string \<Rightarrow> ('n, 'x http_response) js) \<Rightarrow> bool" where
  "answers_from drv s base http \<longleftrightarrow>
     (\<forall>n r. fst (get_devices drv s) = Inr r \<longrightarrow> http (base @ ''/devices'') n = (Inr (response_of r), n))
   \<and> (\<forall>n d r. fst (get_device_balance drv d s) = Inr r \<longrightarrow>
        http (base @ ''/devices/'' @ d @ ''/balance'') n = (Inr (response_of r), n))"

lemma device_json_id [simp]: "get_prop (device_json d) ''device_id'' = Str (dv_device_id d)"
  "get_prop (device_json d) ''event_count'' = Num (dv_event_count d)"
  "read_prop (device_json d) ''device_id'' = Inr (Str (dv_device_id d))"
  "device_key host (device_json d) = Inr (dv_device_id d)"
  by (simp_all add: device_json_def device_key_def)

lemma fetch_devices_run:
  assumes "answers_from drv s base http" and "fst (listDevices drv s) = Inr ds"
  shows "fetchDevices http base n = (Inr (Arr (map device_json ds)), n)"
proof -
  obtain s' where "listDevices drv s = (Inr ds, s')" using assms(2) by (metis prod.collapse)
  then have "fst (get_devices drv s) = Inr (ok_reply (Obj [(''devices'', Arr (map device_json ds))]))"
    by (simp add: get_devices_def js_bind_def js_return_def)
  then have "http (base @ ''/devices'') n = (Inr (response_of (ok_reply (Obj [(''devices'', Arr (map device_json ds))]))), n)"
    using assms(1) unfolding answers_from_def by blast
  then show ?thesis by (simp add: fetchDevices_def response_of_def ok_reply_def js_bind_def js_lift_def)
qed

lemma fetch_balance_run:
  assumes "answers_from drv s base http" and "balance_view drv d s = (Inr bv, s)"
  shows "fetchBalance http base d n = (Inr (balance_json bv), n)"
proof -
  have "fst (get_device_balance drv d s) = Inr (ok_reply (balance_json bv))"
    using assms(2) by (simp add: get_device_balance_def js_bind_def js_return_def)
  then have "http (base @ ''/devices/'' @ d @ ''/balance'') n = (Inr (response_of (ok_reply (balance_json bv))), n)"
    using assms(1) unfolding answers_from_def by blast
  then show ?thesis by (simp add: fetchBalance_def response_of_def ok_reply_def js_bind_def js_lift_def)
qed

lemma fetch_balances_run:
  assumes "answers_from drv s base http" and "\<And>d. balance_view drv d s = (Inr (B d), s)"
  shows "attempt_each (request_id host (fetchBalance http base)) (map device_json ds) n =
    (Inr (map (\<lambda>d. Inr (balance_json (B (dv_device_id d)))) ds), n)"
  by (induction ds)
    (simp_all add: js_return_def js_bind_def attempt_def request_id_def js_lift_def fetch_balance_run [OF assms])

lemma balance_json_props:
  "opt_prop (balance_json bv) ''total_units'' = Num (bv_total_units bv)"
  "opt_prop (balance_json bv) ''total_billed'' = Num (bv_total_billed bv)"
  "opt_prop (balance_json bv) ''latest_seq'' = Num (bv_latest_seq bv)"
  "opt_prop (balance_json bv) ''on_chain_balance'' = num_or_null (bv_on_chain_balance bv)"
  by (simp_all add: balance_json_def)

text \<open>The table shows the cache: when the server answers from the cache, every device the cache
  lists is a row with the device's address, the balance, totals and sequence number of its balance
  endpoint, and its number of records; what the requests for the metrics come to does not matter.\<close>

lemma table_shows_cache:
  fixes drv :: "'x driver" and http :: "string \<Rightarrow> ('n, 'x http_response) js"
  assumes drv: "cache_driver drv" and http: "answers_from drv s base http" and ds: "fst (listDevices drv s) = Inr ds"
  shows "\<exists>c n'. load_list host http base n = (Inr c, n') \<and> dl_devices (le_view c) = Arr (map device_json ds)
    \<and> dl_error (le_view c) = None
    \<and> (\<forall>d\<in>set ds. \<exists>bv. balance_view drv (dv_device_id d) s = (Inr bv, s)
        \<and> device_cells host (le_view c) (device_json d) = Inr \<lparr>dc_device = Str (dv_device_id d),
            dc_balance = (case bv_on_chain_balance bv of None \<Rightarrow> dash | Some b \<Rightarrow> Num b),
            dc_units = bv_total_units bv, dc_billed = bv_total_billed bv,
            dc_latest_seq = Num (bv_latest_seq bv), dc_records = Num (dv_event_count d)\<rparr>)"
proof -
  have "\<exists>bv. balance_view drv d s = (Inr bv, s)" for d
    by (simp add: cache_driver.balance_view_run [OF drv] Let_def)
  then obtain B where B: "\<And>d. balance_view drv d s = (Inr (B d), s)" by metis
  let ?ds = "map device_json ds :: 'x jsval list" and ?ids = "map dv_device_id ds"
  have "mapE (\<lambda>d. read_prop d ''device_id'') ?ds = Inr (map (\<lambda>d. get_prop d ''device_id'') ?ds)"
    by (rule mapE_Inr) auto
  then have stage: "devices_settled (Inr (Arr ?ds)) mounted = mounted\<lparr>le_stage := Loading_Details ?ds,
      le_view := initial_list\<lparr>dl_devices := Arr ?ds\<rparr>\<rparr>"
    by (simp add: devices_settled_def mounted_def array_of_def Let_def)
  obtain sers n' where sers: "attempt_each (request_id host (fetchMetrics http base)) ?ds n = (Inr sers, n')"
    using attempt_each_run by metis
  have "mapE (device_key host) ?ds = Inr (map (\<lambda>j. case get_prop j ''device_id'' of Str t \<Rightarrow> t | _ \<Rightarrow> []) ?ds)"
    by (rule mapE_Inr) auto
  then have keys: "mapE (device_key host) ?ds = Inr ?ids" by (simp add: comp_def)
  define v where "v = \<lparr>dl_devices = Arr ?ds, dl_balances = from_entries (zip ?ids (map (\<lambda>i. balance_json (B i)) ?ids)),
      dl_series = from_entries (zip ?ids (map (or_else (Arr [])) sers)), dl_error = None, dl_loading = False\<rparr>"
  have run: "load_list host http base n = (Inr \<lparr>le_stage = Settled, le_cancelled = False, le_view = v\<rparr>, n')"
    unfolding load_list_def
    by (simp add: js_bind_def attempt_def fetch_devices_run [OF http ds] stage Let_def fetch_balances_run [OF http B] sers
        js_return_def details_settled_def keys)
      (simp add: mounted_def initial_list_def v_def or_else_def comp_def)
  have "device_cells host v (device_json d) = Inr \<lparr>dc_device = Str (dv_device_id d),
            dc_balance = (case bv_on_chain_balance (B (dv_device_id d)) of None \<Rightarrow> dash | Some b \<Rightarrow> Num b),
            dc_units = bv_total_units (B (dv_device_id d)), dc_billed = bv_total_billed (B (dv_device_id d)),
            dc_latest_seq = Num (bv_latest_seq (B (dv_device_id d))), dc_records = Num (dv_event_count d)\<rparr>"
    if "d \<in> set ds" for d
  proof -
    have "dl_balances v (dv_device_id d) = Some (balance_json (B (dv_device_id d)))"
      using that from_entries_map [of "dv_device_id d" ?ids "\<lambda>i. balance_json (B i)"] by (simp add: v_def)
    then show ?thesis
      by (simp add: device_cells_def Let_def balance_json_props num_or_null_def split: option.split)
  qed
  then show ?thesis using run B by (intro exI conjI) (assumption, auto simp: v_def)
qed


text \<open>A server over a cache; it fails the requests for the metrics.\<close>

definition demo_http :: "'x driver \<Rightarrow> db \<Rightarrow> string \<Rightarrow> (unit, 'x http_response) js" where
  "demo_http drv c url n =
     (case fst (if url = ''/api/devices'' then get_devices drv c
         else get_device_balance drv (take (length url - 21) (drop 13 url)) c) of
        Inl e \<Rightarrow> (Inl e, n) | Inr r \<Rightarrow> (Inr (response_of r), n))"

lemma demo_answers: "answers_from drv c ''/api'' (demo_http drv c)"
proof -
  have "take (length (''/api/devices/'' @ d @ ''/balance'') - 21) (drop 13 (''/api/devices/'' @ d @ ''/balance'')) = d" for d
    by simp
  then show ?thesis by (auto simp: answers_from_def demo_http_def split: sum.split)
qed

section \<open>The chart\<close>

text \<open>A frame that is rendered before the next one arrives.\<close>

definition show_frame ::
    "('x \<Rightarrow> exn + string) \<Rightarrow> (string \<Rightarrow> exn + 'x jsval) \<Rightarrow> string \<times> string \<Rightarrow> 'x stream_view \<Rightarrow> exn + 'x stream_view" where
  "show_frame host parse f v = (case f of (frame, time) \<Rightarrow> on_commit host time (on_frame parse frame v))"

fun show_frames ::
    "('x \<Rightarrow> exn + string) \<Rightarrow> (string \<Rightarrow> exn + 'x jsval) \<Rightarrow> (string \<times> string) list \<Rightarrow> 'x stream_view \<Rightarrow> exn + 'x stream_view" where
  "show_frames host parse [] v = Inr v"
| "show_frames host parse (f # fs) v = bindE (show_frame host parse f v) (show_frames host parse fs)"

text \<open>What a frame adds to the chart: a billed event its time and cost, anything else nothing.\<close>

definition sample_of_frame ::
    "('x \<Rightarrow> exn + string) \<Rightarrow> (string \<Rightarrow> exn + 'x jsval) \<Rightarrow> string \<times> string \<Rightarrow> (string \<times> js_number) list" where
  "sample_of_frame host parse f = (case f of (frame, time) \<Rightarrow> (case parse frame of
       Inr ev \<Rightarrow> if is_billed ev then (case js_to_number host (get_prop ev ''cost'') of Inr c \<Rightarrow> [(time, c)] | Inl _ \<Rightarrow> []) else []
     | Inl _ \<Rightarrow> []))"

lemma last_samples_append: "last_samples (last_samples xs @ ys) = last_samples (xs @ ys)"
proof (cases "length xs \<le> CHART_LENGTH")
  case False
  then have "length (drop (length xs - CHART_LENGTH) xs @ ys) - CHART_LENGTH = length ys" by simp
  moreover have "length (xs @ ys) - CHART_LENGTH = length ys + (length xs - CHART_LENGTH)" using False by simp
  ultimately show ?thesis using False by (simp add: last_samples_def)
qed (simp add: last_samples_def)

lemma last_samples_short: "length xs \<le> CHART_LENGTH \<Longrightarrow> last_samples xs = xs"
  by (simp add: last_samples_def)

lemma last_samples_length: "length (last_samples xs) \<le> CHART_LENGTH"
  by (simp add: last_samples_def)

lemma show_frame_samples:
  assumes "show_frame host parse f v = Inr v'" and "\<not> sv_fresh v" and "length (sv_samples v) \<le> CHART_LENGTH"
  shows "sv_samples v' = last_samples (sv_samples v @ sample_of_frame host parse f) \<and> \<not> sv_fresh v'"
  using assms
  by (auto simp: show_frame_def on_commit_def on_frame_def sample_of_frame_def bindE_Inr_iff last_samples_short
      split: prod.splits sum.splits if_splits)

text \<open>When every frame is rendered before the next one arrives, the chart shows the costs of the
  last 60 bills and nothing else: frames of another type and malformed ones leave no sample, and no
  more than 60 samples are kept.\<close>

theorem chart_shows_last_bills:
  assumes "show_frames host parse fs v = Inr v'" and "\<not> sv_fresh v" and "length (sv_samples v) \<le> CHART_LENGTH"
  shows "sv_samples v' = last_samples (sv_samples v @ concat (map (sample_of_frame host parse) fs))
    \<and> length (sv_samples v') \<le> CHART_LENGTH"
  using assms
proof (induction fs arbitrary: v)
  case (Cons f fs)
  then obtain v1 where v1: "show_frame host parse f v = Inr v1" "show_frames host parse fs v1 = Inr v'"
    by (auto simp: bindE_Inr_iff)
  have s1: "sv_samples v1 = last_samples (sv_samples v @ sample_of_frame host parse f)" "\<not> sv_fresh v1"
    using show_frame_samples [OF v1(1) Cons.prems(2,3)] by simp_all
  with Cons.IH [OF v1(2) s1(2)] show ?case by (simp add: last_samples_append last_samples_length)
qed (simp add: last_samples_short)

text \<open>Frames that arrive between two renders replace each other: of two bills, only the second one
  reaches the chart.\<close>

theorem coalesced_frames_lost:
  assumes "parse f2 = Inr ev" and "is_billed ev" and "js_to_number host (get_prop ev ''cost'') = Inr c"
  shows "\<exists>v'. on_commit host time (on_frame parse f2 (on_frame parse f1 v)) = Inr v'
    \<and> sv_samples v' = last_samples (sv_samples v @ [(time, c)])"
  using assms by (simp add: on_commit_def on_frame_def split: sum.split)

definition demo_parse :: "string \<Rightarrow> exn + unit jsval" where
  "demo_parse t = Inr (Obj [(''type'', Str ''meter_billed''), (''cost'', Str t)])"

theorem coalesced_frames_lost_witness:
  "\<exists>v'. on_commit (\<lambda>x. Inr []) ''t'' (on_frame demo_parse ''2'' (on_frame demo_parse ''1'' stream_start)) = Inr v'
    \<and> sv_samples v' = [(''t'', number_of_string ''2'')]"
  using coalesced_frames_lost [of demo_parse "''2''" "Obj [(''type'', Str ''meter_billed''), (''cost'', Str ''2'')]" "\<lambda>x. Inr []"
      "number_of_string ''2''" "''t''" "''1''" stream_start]
  by (simp add: demo_parse_def is_billed_def stream_start_def last_samples_def CHART_LENGTH_def)

theorem chart_shows_last_bills_witness:
  "\<exists>v'. show_frames (\<lambda>x. Inr []) demo_parse [(''1'', ''t''), (''2'', ''u'')] stream_start = Inr v'
    \<and> sv_samples v' = [(''t'', number_of_string ''1''), (''u'', number_of_string ''2'')]"
proof -
  obtain v' where v': "show_frames (\<lambda>x. Inr []) demo_parse [(''1'', ''t''), (''2'', ''u'')] stream_start = Inr v'"
    by (simp add: show_frame_def on_commit_def on_frame_def demo_parse_def is_billed_def)
  from chart_shows_last_bills [OF v'] v' show ?thesis
    by (simp add: stream_start_def sample_of_frame_def demo_parse_def is_billed_def last_samples_def CHART_LENGTH_def)
qed

section \<open>The wallet\<close>

text \<open>The check for the wallet extension cannot fail against the extension's current interface: when
  \<open>isConnected\<close> resolves to an object, as \<open>{isConnected: false}\<close>, the guard passes, and whatever
  address the extension then gives is shown as connected.\<close>

theorem wallet_guard_passes:
  assumes "fr_import fr n = (Inr (), n1)" and "fr_is_connected fr n1 = (Inr (Obj fs), n2)"
    and "fr_get_address fr n2 = (Inr (Obj as), n3)" and "fr_get_network fr n3 = (Inr (Obj ns), n4)"
  shows "handleConnect fr v n = (Inr (v\<lparr>wv_status := [],
    wv_wallet := Some \<lparr>wi_address = get_prop (Obj as) ''address'', wi_network = get_prop (Obj ns) ''networkPassphrase''\<rparr>\<rparr>), n4)"
  using assms by (simp add: handleConnect_def connectWallet_def js_bind_def js_lift_def Let_def del: get_prop.simps)

definition demo_freighter :: "(unit, unit) freighter" where
  "demo_freighter = \<lparr>fr_import = js_return (), fr_is_connected = js_return (Obj [(''isConnected'', Bool False)]),
     fr_get_address = js_return (Obj [(''address'', Str [])]),
     fr_get_network = js_return (Obj [(''network'', Str []), (''networkPassphrase'', Str [])])\<rparr>"

theorem wallet_guard_passes_witness:
  "\<exists>v'. handleConnect demo_freighter \<lparr>wv_wallet = None, wv_status = []\<rparr> () = (Inr v', ())
    \<and> wv_wallet v' = Some \<lparr>wi_address = Str [], wi_network = Str []\<rparr>"
  using wallet_guard_passes [of demo_freighter "()" "()" "[(''isConnected'', Bool False)]" "()" "[(''address'', Str [])]" "()"
      "[(''network'', Str []), (''networkPassphrase'', Str [])]" "()" "\<lparr>wv_wallet = None, wv_status = []\<rparr>"]
  by (simp add: demo_freighter_def js_return_def)

end
