(* ===== verification/Interfaces.thy ===== *)
theory Interfaces
  imports Frontend_Properties Mirror
begin

text \<open>
  The TypeScript interfaces with which the dashboard reads the API (\<open>frontend/src/services/api.ts\<close>)
  and the live stream (\<open>frontend/src/hooks/useTelemetry.ts\<close>). TypeScript does not check them at run
  time; here they are checked against what the API answers.
\<close>

section \<open>Types of values\<close>

text \<open>A number is any of JavaScript's, NaN included; an object may have more properties than its type.\<close>

datatype ts_type = TsString | TsNumber | TsNullable ts_type | TsArray ts_type | TsObject "(string \<times> ts_type) list"

fun has_type :: "ts_type \<Rightarrow> 'x jsval \<Rightarrow> bool" where
  "has_type TsString v = (case v of Str _ \<Rightarrow> True | _ \<Rightarrow> False)"
| "has_type TsNumber v = (case v of Num _ \<Rightarrow> True | _ \<Rightarrow> False)"
| "has_type (TsNullable t) v = (v = Null \<or> has_type t v)"
| "has_type (TsArray t) v = (case v of Arr vs \<Rightarrow> list_all (has_type t) vs | _ \<Rightarrow> False)"
| "has_type (TsObject fs) v = (case v of Obj _ \<Rightarrow> list_all (\<lambda>(k, t). has_type t (get_prop v k)) fs | _ \<Rightarrow> False)"

definition MetricSeries :: ts_type where
  "MetricSeries = TsObject [(''bucket'', TsString), (''total_units'', TsNumber), (''total_cost'', TsNumber),
     (''event_count'', TsNumber)]"

definition Balance :: ts_type where
  "Balance = TsObject [(''device_id'', TsString), (''on_chain_balance'', TsNullable TsNumber), (''latest_seq'', TsNumber),
     (''pending_uncommitted_units'', TsNumber), (''total_units'', TsNumber), (''total_billed'', TsNumber)]"

definition DeviceInfo :: ts_type where
  "DeviceInfo = TsObject [(''device_id'', TsString), (''event_count'', TsNumber), (''total_units'', TsNumber),
     (''total_cost'', TsNumber), (''last_ledger'', TsNumber), (''last_activity'', TsNullable TsNumber)]"

definition TelemetryEvent :: ts_type where
  "TelemetryEvent = TsObject [(''type'', TsString), (''device_id'', TsString), (''units'', TsNumber),
     (''cost'', TsNumber), (''balance_after'', TsNumber), (''seq'', TsNumber)]"

section \<open>Rows\<close>

lemma num_or_null_type [simp]: "has_type TsNumber (num_or_null x) \<longleftrightarrow> x \<noteq> None" "has_type (TsNullable TsNumber) (num_or_null x)"
  by (simp_all add: num_or_null_def split: option.split)

lemma text_or_null_type [simp]: "has_type TsString (text_or_null x) \<longleftrightarrow> x \<noteq> None"
  by (simp add: text_or_null_def split: option.split)

lemma device_json_type: "has_type DeviceInfo (device_json d) \<longleftrightarrow> dv_last_ledger d \<noteq> None"
  by (simp add: DeviceInfo_def device_json_def del: has_type.simps(2,3)) simp

lemma bucket_json_type: "has_type MetricSeries (bucket_json b) \<longleftrightarrow> bk_bucket b \<noteq> None"
  by (simp add: MetricSeries_def bucket_json_def del: has_type.simps(1,2)) simp

lemma balance_json_type: "has_type Balance (balance_json bv)"
  by (simp add: Balance_def balance_json_def del: has_type.simps(2,3)) simp

lemma mapE_all2: "mapE f xs = Inr ys \<Longrightarrow> list_all2 (\<lambda>x y. f x = Inr y) xs ys"
  by (induction xs arbitrary: ys) (auto simp: bindE_Inr_iff)

lemma device_row_ledger: "device_row_of drv d rs = Inr row \<Longrightarrow> dv_last_ledger row = None \<longleftrightarrow> (\<forall>r\<in>set rs. mr_ledger r = None)"
  by (auto simp: device_row_of_def bindE_Inr_iff sql_max_None)

lemma bucket_row_bucket: "bucket_row_of drv b rs = Inr row \<Longrightarrow> bk_bucket row = b"
  by (auto simp: bucket_row_of_def bindE_Inr_iff)

section \<open>What the client fetches\<close>

lemma listed_ledgers:
  assumes "cache_driver drv" and "fst (listDevices drv c) = Inr ds"
  shows "(\<forall>d\<in>set ds. dv_last_ledger d \<noteq> None) \<longleftrightarrow>
    (\<forall>d\<in>mr_device_id ` set (meter_events c). \<exists>r\<in>set (meter_events c). mr_device_id r = d \<and> mr_ledger r \<noteq> None)"
proof -
  let ?scan = "scan drv (meter_events c)"
  let ?g = "\<lambda>d. filter (\<lambda>r. mr_device_id r = d) ?scan"
  have scan: "set ?scan = set (meter_events c)" by (rule cache_driver.set_scan [OF assms(1)])
  obtain ids where ids: "set ids = mr_device_id ` set ?scan" "mapE (\<lambda>d. device_row_of drv d (?g d)) ids = Inr ds"
    using assms(2) that [of "sort_by (\<lambda>d1 d2. null_le (dialect drv) (\<le>) (sql_max (map mr_ledger (?g d2))) (sql_max (map mr_ledger (?g d1))))
      (remdups (map mr_device_id ?scan))"]
    by (auto simp: listDevices_def need_column_def js_bind_def js_read_def js_lift_def Let_def split: if_splits sum.splits prod.splits)
  have "list_all2 (\<lambda>d row. dv_last_ledger row = None \<longleftrightarrow> (\<forall>r\<in>set (?g d). mr_ledger r = None)) ids ds"
    using mapE_all2 [OF ids(2)] by (rule list_all2_mono) (rule device_row_ledger)
  then have "(\<forall>d\<in>set ds. dv_last_ledger d \<noteq> None) \<longleftrightarrow> (\<forall>d\<in>set ids. \<exists>r\<in>set (?g d). mr_ledger r \<noteq> None)"
    by (induction rule: list_all2_induct) auto
  then show ?thesis unfolding ids(1) scan by (simp add: scan) blast
qed

text \<open>C40. The dashboard gets what its interfaces declare, with one exception: every balance the client
  fetches is a \<open>Balance\<close>, and the list of devices is a \<open>DeviceInfo[]\<close> exactly when each device has a row
  with a ledger; otherwise \<open>last_ledger\<close>, declared a number, is \<open>null\<close>.\<close>

theorem fetched_as_declared:
  fixes http :: "string \<Rightarrow> ('n, 'x http_response) js"
  assumes "cache_driver drv" and "answers_from drv c base http" and "fst (listDevices drv c) = Inr ds"
  shows "(\<exists>v. fetchDevices http base n = (Inr v, n) \<and>
      (has_type (TsArray DeviceInfo) v \<longleftrightarrow>
        (\<forall>d\<in>mr_device_id ` set (meter_events c). \<exists>r\<in>set (meter_events c). mr_device_id r = d \<and> mr_ledger r \<noteq> None)))
    \<and> (\<exists>v. fetchBalance http base dev_id n = (Inr v, n) \<and> has_type Balance v)"
proof
  have "has_type (TsArray DeviceInfo) (Arr (map device_json ds)) \<longleftrightarrow> (\<forall>d\<in>set ds. dv_last_ledger d \<noteq> None)"
    by (simp add: list_all_iff device_json_type)
  then show "\<exists>v. fetchDevices http base n = (Inr v, n) \<and>
      (has_type (TsArray DeviceInfo) v \<longleftrightarrow>
        (\<forall>d\<in>mr_device_id ` set (meter_events c). \<exists>r\<in>set (meter_events c). mr_device_id r = d \<and> mr_ledger r \<noteq> None))"
    using fetch_devices_run [OF assms(2,3)] listed_ledgers [OF assms(1,3)] by metis
  obtain bv where "balance_view drv dev_id c = (Inr bv, c)"
    by (simp add: cache_driver.balance_view_run [OF assms(1)] Let_def)
  then show "\<exists>v. fetchBalance http base dev_id n = (Inr v, n) \<and> has_type Balance v"
    using fetch_balance_run [OF assms(2)] balance_json_type by metis
qed

text \<open>The series of a device is a \<open>MetricSeries[]\<close> exactly when each of its rows has a bucket, that is a
  time that the database reads as a date; \<open>bucket\<close> is \<open>null\<close> otherwise.\<close>

theorem fetched_series_as_declared:
  fixes http :: "string \<Rightarrow> ('n, 'x http_response) js"
  assumes "cache_driver drv" and "fst (aggregate drv (Str d) Undef Undef Undef c) = Inr bs"
    and "\<And>r. fst (get_metrics drv d (Obj []) c) = Inr r \<Longrightarrow>
      http (base @ ''/devices/'' @ d @ ''/metrics'') n = (Inr (response_of r), n)"
  shows "\<exists>v. fetchMetrics http base d n = (Inr v, n) \<and>
    (has_type (TsArray MetricSeries) v \<longleftrightarrow> (\<forall>row\<in>set (rows_of d c). bucket_of drv (Str ''day'') row \<noteq> None))"
proof -
  let ?rows = "filter (\<lambda>r. d = mr_device_id r) (scan drv (meter_events c))" and ?key = "bucket_of drv (Str ''day'')"
  have w: "where_clause drv (Str d) Undef Undef = Inr (\<lambda>r. d = mr_device_id r)"
    by (rule cache_driver.where_device [OF assms(1)])
  have rows: "set ?rows = set (rows_of d c)"
    by (simp add: cache_driver.set_scan [OF assms(1)] rows_of_def)
  obtain ks where ks: "set ks = ?key ` set ?rows" "mapE (\<lambda>b. bucket_row_of drv b (filter (\<lambda>r. ?key r = b) ?rows)) ks = Inr bs"
    using assms(2) that [of "sort_by (null_le (dialect drv) (text_le drv)) (remdups (map ?key ?rows))"]
    by (simp add: aggregate_def w Let_def js_bind_def js_lift_def js_read_def)
  have "list_all2 (\<lambda>b row. bk_bucket row = b) ks bs"
    using mapE_all2 [OF ks(2)] by (rule list_all2_mono) (rule bucket_row_bucket)
  then have "map bk_bucket bs = ks" by (induction rule: list_all2_induct) auto
  then have "bk_bucket ` set bs = ?key ` set (rows_of d c)" using ks(1) rows by (metis set_map)
  then have t: "has_type (TsArray MetricSeries) (Arr (map bucket_json bs)) \<longleftrightarrow> (\<forall>row\<in>set (rows_of d c). ?key row \<noteq> None)"
  proof -
    have "(\<forall>b\<in>set bs. bk_bucket b \<noteq> None) \<longleftrightarrow> None \<notin> bk_bucket ` set bs" by (simp only: image_iff) metis
    also have "\<dots> \<longleftrightarrow> (\<forall>row\<in>set (rows_of d c). ?key row \<noteq> None)"
      unfolding \<open>bk_bucket ` set bs = ?key ` set (rows_of d c)\<close> by (simp only: image_iff) metis
    finally show ?thesis by (simp add: list_all_iff bucket_json_type)
  qed
  have "fst (get_metrics drv d (Obj []) c) = Inr (ok_reply (Obj [(''device_id'', Str d), (''series'', Arr (map bucket_json bs)),
      (''samples'', Arr (map sample_json (map sample_of (sort_by (seq_le drv) ?rows))))]))"
    using assms(2) by (simp add: get_metrics_def js_bind_def cache_driver.metricsFor_str [OF assms(1)] js_return_def split_beta split: sum.split)
  from assms(3) [OF this] have "fetchMetrics http base d n = (Inr (Arr (map bucket_json bs)), n)"
    by (simp add: fetchMetrics_def response_of_def ok_reply_def js_bind_def js_lift_def)
  with t show ?thesis by blast
qed

section \<open>A cache without ledgers\<close>

definition demo_row :: meter_row where
  "demo_row = \<lparr>mr_event_id = Some ''e3'', mr_contract_id = Some ''C'', mr_ledger = None, mr_device_id = ''D'', mr_operator = None,
     mr_units = 3, mr_rate_per_unit = 0, mr_cost = 30, mr_balance_after = Some 470, mr_seq = Some 1, mr_ledger_ts = None,
     mr_emitted_at = None, mr_raw = None\<rparr>"

definition demo_ledgerless :: db where
  "demo_ledgerless = \<lparr>meter_columns = Some meter_schema, meta = Map.empty, meter_events = [demo_row],
     pending_readings = [], next_pending = 1\<rparr>"

theorem fetched_as_declared_witness:
  "\<exists>v. fetchDevices (demo_http (demo_driver Sqlite :: unit driver) demo_ledgerless) ''/api'' () = (Inr v, ())
    \<and> \<not> has_type (TsArray DeviceInfo) v"
proof -
  have "\<exists>ds. fst (listDevices (demo_driver Sqlite :: unit driver) demo_ledgerless) = Inr ds"
    by (simp add: listDevices_def need_column_def has_column_def demo_ledgerless_def meter_schema_def demo_row_def demo_driver_def
        js_bind_def js_read_def js_lift_def Let_def sort_by_def device_row_of_def sql_sum_def in_i64_def)
  then obtain ds where "fst (listDevices (demo_driver Sqlite :: unit driver) demo_ledgerless) = Inr ds" by blast
  from fetched_as_declared [OF demo.cache_driver_axioms demo_answers this] show ?thesis
    by (auto simp: demo_ledgerless_def demo_row_def)
qed

theorem fetched_series_as_declared_witness:
  "\<exists>v. fetchMetrics (\<lambda>url n. (Inr (response_of (projr (fst (get_metrics (demo_driver Sqlite :: unit driver) ''D'' (Obj []) demo_ledgerless)))), n))
      ''/api'' ''D'' () = (Inr v, ()) \<and> \<not> has_type (TsArray MetricSeries) v"
proof -
  have "\<exists>bs. fst (aggregate (demo_driver Sqlite :: unit driver) (Str ''D'') Undef Undef Undef demo_ledgerless) = Inr bs"
    by (simp add: aggregate_def where_clause_def demo_bind_text_def demo_ledgerless_def demo_row_def demo_driver_def
        js_bind_def js_read_def js_lift_def Let_def sort_by_def bucket_row_of_def sql_sum_def in_i64_def bucket_of_def)
  then obtain bs where "fst (aggregate (demo_driver Sqlite :: unit driver) (Str ''D'') Undef Undef Undef demo_ledgerless) = Inr bs" by blast
  from fetched_series_as_declared [OF demo.cache_driver_axioms this, of "\<lambda>url n. (Inr (response_of (projr (fst (get_metrics (demo_driver Sqlite :: unit driver) ''D'' (Obj []) demo_ledgerless)))), n)" "''/api''" "()"]
  show ?thesis by (auto simp: demo_ledgerless_def demo_row_def rows_of_def bucket_of_def)
qed

end
