(* ===== verification/Dashboard.thy ===== *)
theory Dashboard
  imports Frontend
begin

text \<open>
  The shell of the dashboard (\<open>frontend/src/App.tsx\<close>), what its live parts render
  (\<open>LiveStream.tsx\<close>, \<open>WalletConnect.tsx\<close>), the life of the telemetry socket
  (\<open>hooks/useTelemetry.ts\<close>), and the proxy of the development server (\<open>vite.config.ts\<close>).
\<close>

section \<open>Pages\<close>

datatype page = Devices_Page | Live_Page

text \<open>The links of the navigation and the routes, as \<open>App\<close> lists them.\<close>

definition nav_links :: "(string \<times> string) list" where
  "nav_links = [(''/'', ''Devices''), (''/live'', ''Live Telemetry'')]"

definition app_routes :: "(string \<times> page) list" where
  "app_routes = [(''/'', Devices_Page), (''/live'', Live_Page)]"

definition page_at :: "string \<Rightarrow> page option" where
  "page_at path = map_of app_routes path"

text \<open>The prefixes the development server forwards, with their targets.\<close>

definition vite_proxy :: "(string \<times> string) list" where
  "vite_proxy = [(''/api'', ''http://localhost:8080''), (''/stream'', ''ws://localhost:8080'')]"

definition proxied :: "string \<Rightarrow> string option" where
  "proxied path = map_option snd (find (\<lambda>(p, target). take (length p) path = p) vite_proxy)"

section \<open>Rendering\<close>

text \<open>The line of the last bill (\<open>device_id\<close>, \<open>units\<close>, \<open>String(cost)\<close>, \<open>String(seq)\<close>) and the chart.\<close>

record 'x live_page =
  lp_last :: "('x jsval \<times> 'x jsval \<times> string \<times> string) option"
  lp_chart :: "(string \<times> js_number) list"

definition render_live :: "('x \<Rightarrow> exn + string) \<Rightarrow> 'x stream_view \<Rightarrow> exn + 'x live_page" where
  "render_live host v =
     (case last_billed v of
        None \<Rightarrow> Inr \<lparr>lp_last = None, lp_chart = sv_samples v\<rparr>
      | Some ev \<Rightarrow>
        bindE (js_to_string host (get_prop ev ''cost'')) (\<lambda>cost.
        bindE (js_to_string host (get_prop ev ''seq'')) (\<lambda>seq.
          Inr \<lparr>lp_last = Some (get_prop ev ''device_id'', get_prop ev ''units'', cost, seq), lp_chart = sv_samples v\<rparr>)))"

text \<open>The wallet: the short address with the network as its title, or the button; and the status, if any.\<close>

datatype wallet_markup = Connected string string | Connect_Button

definition render_wallet :: "('x \<Rightarrow> exn + string) \<Rightarrow> 'x wallet_view \<Rightarrow> exn + wallet_markup \<times> string option" where
  "render_wallet host v =
     bindE (case wv_wallet v of
         None \<Rightarrow> Inr Connect_Button
       | Some w \<Rightarrow> bindE (js_to_string host (wi_network w)) (\<lambda>title.
           case wi_address w of
             Str a \<Rightarrow> Inr (Connected title (short_address a))
           | _ \<Rightarrow> Inl (type_error ''wallet.address.slice is not a function'')))
       (\<lambda>m. Inr (m, if wv_status v = [] then None else Some (wv_status v)))"

section \<open>The telemetry socket\<close>

text \<open>
  The hook: its sockets in the order they were opened, each with its address and whether it was
  closed, and the one its reference holds. The platform delivers no message of a closed socket.
\<close>

record 'x telemetry_hook =
  th_sockets :: "(string \<times> bool) list"
  th_current :: "nat option"
  th_view :: "'x stream_view"

definition fresh_hook :: "'x telemetry_hook" where
  "fresh_hook = \<lparr>th_sockets = [], th_current = None, th_view = stream_start\<rparr>"

definition open_socket ::
    "(string \<Rightarrow> string option \<Rightarrow> exn + string) \<Rightarrow> string option \<Rightarrow> string option \<Rightarrow> string option \<Rightarrow>
     ('x telemetry_hook, unit) js" where
  "open_socket set_device busUrl vite_ws_url device =
     js_bind (js_lift (stream_url set_device busUrl vite_ws_url device)) (\<lambda>url.
     js_modify (\<lambda>h. h\<lparr>th_sockets := th_sockets h @ [(url, False)], th_current := Some (length (th_sockets h))\<rparr>))"

definition close_socket :: "'x telemetry_hook \<Rightarrow> 'x telemetry_hook" where
  "close_socket h = (case th_current h of
       None \<Rightarrow> h
     | Some i \<Rightarrow> h\<lparr>th_sockets := (th_sockets h)[i := (fst (th_sockets h ! i), True)]\<rparr>)"

definition socket_message :: "(string \<Rightarrow> exn + 'x jsval) \<Rightarrow> nat \<Rightarrow> string \<Rightarrow> 'x telemetry_hook \<Rightarrow> 'x telemetry_hook" where
  "socket_message parse i frame h =
     (if i < length (th_sockets h) \<and> \<not> snd (th_sockets h ! i) then h\<lparr>th_view := on_frame parse frame (th_view h)\<rparr> else h)"

text \<open>
  React runs the effect when the component mounts, the cleanup and the effect again when the
  device changes, and the cleanup when it unmounts.
\<close>

datatype hook_event = Mount "string option" | Change "string option" | Unmount | Message nat string

fun hook_step ::
    "(string \<Rightarrow> string option \<Rightarrow> exn + string) \<Rightarrow> (string \<Rightarrow> exn + 'x jsval) \<Rightarrow> string option \<Rightarrow> string option \<Rightarrow>
     hook_event \<Rightarrow> 'x telemetry_hook \<Rightarrow> 'x telemetry_hook" where
  "hook_step set_device parse bus vite (Mount d) h = snd (open_socket set_device bus vite d h)"
| "hook_step set_device parse bus vite (Change d) h = snd (open_socket set_device bus vite d (close_socket h))"
| "hook_step set_device parse bus vite Unmount h = close_socket h"
| "hook_step set_device parse bus vite (Message i frame) h = socket_message parse i frame h"

text \<open>A component mounts and unmounts in turn, and changes while it is mounted.\<close>

fun lifecycle :: "bool \<Rightarrow> hook_event list \<Rightarrow> bool" where
  "lifecycle m [] = True"
| "lifecycle m (Mount d # es) = (\<not> m \<and> lifecycle True es)"
| "lifecycle m (Change d # es) = (m \<and> lifecycle True es)"
| "lifecycle m (Unmount # es) = (m \<and> lifecycle False es)"
| "lifecycle m (Message i frame # es) = lifecycle m es"

definition open_sockets :: "'x telemetry_hook \<Rightarrow> nat set" where
  "open_sockets h = {i. i < length (th_sockets h) \<and> \<not> snd (th_sockets h ! i)}"

fun mounted_after :: "bool \<Rightarrow> hook_event list \<Rightarrow> bool" where
  "mounted_after m [] = m"
| "mounted_after m (Mount d # es) = mounted_after True es"
| "mounted_after m (Change d # es) = mounted_after True es"
| "mounted_after m (Unmount # es) = mounted_after False es"
| "mounted_after m (Message i frame # es) = mounted_after m es"

text \<open>At most the current socket is open, and none after the cleanup.\<close>

definition hook_ok :: "bool \<Rightarrow> 'x telemetry_hook \<Rightarrow> bool" where
  "hook_ok m h \<longleftrightarrow> open_sockets h \<subseteq> (if m then set_option (th_current h) else {})
     \<and> (\<forall>i\<in>set_option (th_current h). i < length (th_sockets h))"

lemma close_socket_open: "\<forall>i\<in>set_option (th_current h). i < length (th_sockets h) \<Longrightarrow>
    open_sockets (close_socket h) = open_sockets h - set_option (th_current h)"
  by (cases "th_current h") (auto simp: close_socket_def open_sockets_def nth_list_update)

lemma close_socket_fields: "th_current (close_socket h) = th_current h" "length (th_sockets (close_socket h)) = length (th_sockets h)"
  by (simp_all add: close_socket_def split: option.split)

lemma close_ok: "hook_ok m h \<Longrightarrow> hook_ok False (close_socket h)"
  by (auto simp: hook_ok_def close_socket_open close_socket_fields split: if_splits)

lemma open_ok:
  assumes "hook_ok False h"
  shows "hook_ok True (snd (open_socket set_device bus vite d h))"
proof (cases "stream_url set_device bus vite d")
  case (Inl e)
  then show ?thesis using assms by (simp add: open_socket_def js_bind_def js_lift_def hook_ok_def)
next
  case (Inr url)
  then show ?thesis using assms
    by (auto simp: open_socket_def js_bind_def js_lift_def js_modify_def hook_ok_def open_sockets_def nth_append less_Suc_eq)
qed

lemma message_ok: "hook_ok m h \<Longrightarrow> hook_ok m (socket_message parse i frame h)"
  by (auto simp: socket_message_def hook_ok_def open_sockets_def split: if_splits)

lemma hook_run_ok:
  assumes "lifecycle m es" and "hook_ok m h"
  shows "hook_ok (mounted_after m es) (fold (hook_step set_device parse bus vite) es h)"
  using assms
proof (induction m es arbitrary: h rule: lifecycle.induct)
  case (2 m d es)
  then show ?case using open_ok [of h set_device bus vite d] by simp
next
  case (3 m d es)
  then show ?case using open_ok [OF close_ok [of m h], of set_device bus vite d] by simp
next
  case (4 m es)
  then show ?case using close_ok [of m h] by simp
qed (simp_all add: message_ok)

end
