(* ===== verification/App_Shell.thy ===== *)
theory App_Shell
  imports Dashboard
begin

text \<open>
  The dashboard as one program: \<open>frontend/src/App.tsx\<close> under the router and the strict mode of
  \<open>frontend/src/main.tsx\<close>. Following a link takes one page's component off the screen, with the
  cleanup of its effects, and puts the other's on; the wallet stays in the navigation bar.
\<close>

section \<open>The state\<close>

text \<open>
  The effects of \<open>DeviceList\<close> in the order they ran, whose requests may still be outstanding when
  their component is gone; the sockets of \<open>LiveStream\<close>, over all its lives; the wallet button.
\<close>

record 'x app =
  ap_path :: string
  ap_lists :: "'x list_effect list"
  ap_hook :: "'x telemetry_hook"
  ap_wallet :: "'x wallet_view"

text \<open>
  What the browser, the extension and the server bring about: a link is followed, a frame arrives
  on a socket, the list of devices or the details of an effect settle, connecting the wallet
  settles.
\<close>

datatype 'x app_event =
    Visit string
  | Frame_Arrives nat string
  | Devices_Settle nat "exn + 'x jsval"
  | Details_Settle nat "(exn + 'x jsval) list" "(exn + 'x jsval) list"
  | Wallet_Settle "exn + 'x wallet_info"

section \<open>Pages come and go\<close>

text \<open>The built-in parts a run depends on: \<open>URL\<close>, \<open>JSON.parse\<close>, conversion of host objects, the build.\<close>

record 'x browser =
  br_set_device :: "string \<Rightarrow> string option \<Rightarrow> exn + string"
  br_parse :: "string \<Rightarrow> exn + 'x jsval"
  br_host :: "'x \<Rightarrow> exn + string"
  br_ws_url :: "string option"
  br_development :: bool

text \<open>\<open>LiveStream\<close> without a device: its hook opens a socket, and its state starts afresh.\<close>

definition hook_does :: "'x browser \<Rightarrow> hook_event \<Rightarrow> 'x telemetry_hook \<Rightarrow> 'x telemetry_hook" where
  "hook_does br = hook_step (br_set_device br) (br_parse br) None (br_ws_url br)"

text \<open>In a development build the strict mode runs each effect, its cleanup, and the effect again.\<close>

definition enter_page :: "'x browser \<Rightarrow> 'x app \<Rightarrow> 'x app" where
  "enter_page br a = (case page_at (ap_path a) of
       None \<Rightarrow> a
     | Some Devices_Page \<Rightarrow> a\<lparr>ap_lists := ap_lists a @ (if br_development br then [unmount mounted, mounted] else [mounted])\<rparr>
     | Some Live_Page \<Rightarrow> a\<lparr>ap_hook := fold (hook_does br)
         (if br_development br then [Mount None, Unmount, Mount None] else [Mount None]) ((ap_hook a)\<lparr>th_view := stream_start\<rparr>)\<rparr>)"

definition unmount_last :: "'x list_effect list \<Rightarrow> 'x list_effect list" where
  "unmount_last cs = (if cs = [] then [] else cs[length cs - 1 := unmount (last cs)])"

definition leave_page :: "'x browser \<Rightarrow> 'x app \<Rightarrow> 'x app" where
  "leave_page br a = (case page_at (ap_path a) of
       None \<Rightarrow> a
     | Some Devices_Page \<Rightarrow> a\<lparr>ap_lists := unmount_last (ap_lists a)\<rparr>
     | Some Live_Page \<Rightarrow> a\<lparr>ap_hook := hook_does br Unmount (ap_hook a)\<rparr>)"

text \<open>A link to the page that is shown leaves its component in place.\<close>

definition visit :: "'x browser \<Rightarrow> string \<Rightarrow> 'x app \<Rightarrow> 'x app" where
  "visit br path a =
     (if page_at path = page_at (ap_path a) then a\<lparr>ap_path := path\<rparr>
      else enter_page br ((leave_page br a)\<lparr>ap_path := path\<rparr>))"

definition wallet_settled :: "exn + 'x wallet_info \<Rightarrow> 'x wallet_view \<Rightarrow> 'x wallet_view" where
  "wallet_settled r v = (case r of Inr info \<Rightarrow> v\<lparr>wv_status := [], wv_wallet := Some info\<rparr>
     | Inl e \<Rightarrow> v\<lparr>wv_status := exn_message e\<rparr>)"

fun app_step :: "'x browser \<Rightarrow> 'x app_event \<Rightarrow> 'x app \<Rightarrow> 'x app" where
  "app_step br (Visit path) a = visit br path a"
| "app_step br (Frame_Arrives i frame) a = a\<lparr>ap_hook := hook_does br (Message i frame) (ap_hook a)\<rparr>"
| "app_step br (Devices_Settle i r) a =
     (if i < length (ap_lists a) \<and> le_stage (ap_lists a ! i) = Loading_Devices
      then a\<lparr>ap_lists := (ap_lists a)[i := devices_settled r (ap_lists a ! i)]\<rparr> else a)"
| "app_step br (Details_Settle i bals sers) a =
     (if i < length (ap_lists a)
      then a\<lparr>ap_lists := (ap_lists a)[i := details_settled (br_host br) bals sers (ap_lists a ! i)]\<rparr> else a)"
| "app_step br (Wallet_Settle r) a = a\<lparr>ap_wallet := wallet_settled r (ap_wallet a)\<rparr>"

text \<open>The application as it is first rendered, at the path the browser asked for.\<close>

definition app_start :: "'x browser \<Rightarrow> string \<Rightarrow> 'x app" where
  "app_start br path = enter_page br \<lparr>ap_path = path, ap_lists = [], ap_hook = fresh_hook,
     ap_wallet = \<lparr>wv_wallet = None, wv_status = []\<rparr>\<rparr>"

section \<open>The wallet\<close>

text \<open>Connecting the wallet is what the button's handler does.\<close>

lemma wallet_settled_handler:
  "handleConnect fr v n = (case connectWallet fr n of (r, n') \<Rightarrow> (Inr (wallet_settled r (v\<lparr>wv_status := []\<rparr>)), n'))"
  by (simp add: handleConnect_def wallet_settled_def Let_def split: prod.split sum.split)

section \<open>Only the page on the screen is alive\<close>

text \<open>The effects whose component is on the screen: the last one, on the page of the devices.\<close>

definition lists_ok :: "bool \<Rightarrow> 'x list_effect list \<Rightarrow> bool" where
  "lists_ok shown cs \<longleftrightarrow> (\<forall>i<length cs. le_cancelled (cs ! i) \<or> (shown \<and> i = length cs - 1))"

definition app_ok :: "'x app \<Rightarrow> bool" where
  "app_ok a \<longleftrightarrow> hook_ok (page_at (ap_path a) = Some Live_Page) (ap_hook a)
     \<and> lists_ok (page_at (ap_path a) = Some Devices_Page) (ap_lists a)"

lemma hook_ok_fresh_view [simp]: "hook_ok m (h\<lparr>th_view := v\<rparr>) = hook_ok m h"
  by (simp add: hook_ok_def open_sockets_def)

lemma enters_ok:
  assumes "hook_ok False (ap_hook a)" and "lists_ok False (ap_lists a)"
  shows "app_ok (enter_page br a)"
proof (cases "page_at (ap_path a)")
  case None
  then show ?thesis using assms by (simp add: app_ok_def enter_page_def)
next
  case (Some pg)
  show ?thesis
  proof (cases pg)
    case Devices_Page
    then show ?thesis using Some assms
      by (auto simp: app_ok_def enter_page_def lists_ok_def nth_append unmount_def less_Suc_eq nth_Cons')
  next
    case Live_Page
    let ?h = "(ap_hook a)\<lparr>th_view := stream_start\<rparr>"
    have "hook_ok True (hook_does br (Mount None) ?h)"
      unfolding hook_does_def hook_step.simps by (rule open_ok) (simp add: assms(1))
    moreover have "hook_ok True (hook_does br (Mount None) (hook_does br Unmount (hook_does br (Mount None) ?h)))"
      using calculation unfolding hook_does_def hook_step.simps by (intro open_ok close_ok)
    ultimately show ?thesis using Some Live_Page assms(2)
      by (simp add: app_ok_def enter_page_def)
  qed
qed

lemma leaves_ok:
  assumes "app_ok a"
  shows "hook_ok False (ap_hook (leave_page br a)) \<and> lists_ok False (ap_lists (leave_page br a))"
proof (cases "page_at (ap_path a)")
  case None
  then show ?thesis using assms by (simp add: app_ok_def leave_page_def)
next
  case (Some pg)
  then show ?thesis
  proof (cases pg)
    case Devices_Page
    then show ?thesis using Some assms
      by (auto simp: app_ok_def leave_page_def unmount_last_def lists_ok_def nth_list_update unmount_def)
  next
    case Live_Page
    then show ?thesis using Some assms close_ok [of True "ap_hook a"]
      by (simp add: app_ok_def leave_page_def hook_does_def)
  qed
qed

lemma visit_ok: "app_ok a \<Longrightarrow> app_ok (visit br path a)"
  using leaves_ok [of a br] enters_ok [of "(leave_page br a)\<lparr>ap_path := path\<rparr>" br]
  by (auto simp: visit_def app_ok_def)

lemma settled_cancelled:
  "le_cancelled (devices_settled r c) = le_cancelled c" "le_cancelled (details_settled host bals sers c) = le_cancelled c"
  by (simp_all add: devices_settled_def details_settled_def failed_load_def Let_def split: sum.split load_stage.split)

lemma lists_ok_update: "lists_ok m cs \<Longrightarrow> le_cancelled c = le_cancelled (cs ! i) \<Longrightarrow> lists_ok m (cs[i := c])"
  by (cases "i < length cs") (auto simp: lists_ok_def nth_list_update)

lemma app_step_ok: "app_ok a \<Longrightarrow> app_ok (app_step br e a)"
proof (cases e)
  case (Visit path)
  then show "app_ok a \<Longrightarrow> ?thesis" by (simp add: visit_ok)
next
  case (Frame_Arrives i frame)
  then show "app_ok a \<Longrightarrow> ?thesis" using message_ok by (auto simp: app_ok_def hook_does_def)
next
  case (Details_Settle i bals sers)
  then show "app_ok a \<Longrightarrow> ?thesis" by (auto simp: app_ok_def intro!: lists_ok_update simp: settled_cancelled)
qed (auto simp: app_ok_def settled_cancelled intro!: lists_ok_update)

lemma app_run_ok: "app_ok a \<Longrightarrow> app_ok (fold (app_step br) es a)"
  by (induction es arbitrary: a) (simp_all add: app_step_ok)

lemma app_start_ok: "app_ok (app_start br path)"
  unfolding app_start_def
  by (rule enters_ok) (simp_all add: hook_ok_def fresh_hook_def open_sockets_def lists_ok_def)

text \<open>What settles for a component that is gone changes nothing of what it showed.\<close>

lemma cancelled_view:
  "le_cancelled c \<Longrightarrow> le_view (devices_settled r c) = le_view c"
  "le_cancelled c \<Longrightarrow> le_view (details_settled host bals sers c) = le_view c"
  by (simp_all add: devices_settled_def details_settled_def split: load_stage.split)

lemma cancelled_kept:
  assumes "i < length (ap_lists a)" and "le_cancelled (ap_lists a ! i)"
  shows "i < length (ap_lists (app_step br e a)) \<and> le_view (ap_lists (app_step br e a) ! i) = le_view (ap_lists a ! i)"
proof (cases e)
  case (Visit path)
  have "i < length (ap_lists (leave_page br a)) \<and> le_view (ap_lists (leave_page br a) ! i) = le_view (ap_lists a ! i)"
    using assms(1)
    by (auto simp: leave_page_def unmount_last_def unmount_def nth_list_update last_conv_nth split: option.split page.split)
  then show ?thesis using assms(1)
    by (auto simp: Visit visit_def enter_page_def nth_append split: option.split page.split)
qed (use assms in \<open>auto simp: nth_list_update cancelled_view\<close>)

section \<open>Properties\<close>

text \<open>C39. Leaving a page ends its work, whatever is clicked and whatever arrives, in a production build and
  under the strict mode of a development build: at most one telemetry socket is open, and only while
  the live page is shown; every list of devices is cancelled but the one on the screen; and what
  settles for a list that is gone changes nothing of what it showed.\<close>

theorem only_shown_page_lives:
  "let a = fold (app_step br) es (app_start br path) in
     card (open_sockets (ap_hook a)) \<le> 1
   \<and> (page_at (ap_path a) = Some Live_Page \<or> open_sockets (ap_hook a) = {})
   \<and> (\<forall>i<length (ap_lists a). le_cancelled (ap_lists a ! i)
        \<or> page_at (ap_path a) = Some Devices_Page \<and> i = length (ap_lists a) - 1)
   \<and> (\<forall>i<length (ap_lists a). le_cancelled (ap_lists a ! i) \<longrightarrow>
        le_view (ap_lists (app_step br e a) ! i) = le_view (ap_lists a ! i))"
proof -
  let ?a = "fold (app_step br) es (app_start br path)"
  have ok: "app_ok ?a" by (rule app_run_ok [OF app_start_ok])
  then have "open_sockets (ap_hook ?a) \<subseteq> (if page_at (ap_path ?a) = Some Live_Page then set_option (th_current (ap_hook ?a)) else {})"
    by (simp add: app_ok_def hook_ok_def)
  moreover have "card (set_option (th_current (ap_hook ?a))) \<le> 1" by (cases "th_current (ap_hook ?a)") simp_all
  ultimately have "card (open_sockets (ap_hook ?a)) \<le> 1" "page_at (ap_path ?a) = Some Live_Page \<or> open_sockets (ap_hook ?a) = {}"
    using card_mono [of "set_option (th_current (ap_hook ?a))" "open_sockets (ap_hook ?a)"] by (auto split: if_splits)
  then show ?thesis using ok cancelled_kept [of _ ?a br e] by (simp add: Let_def app_ok_def lists_ok_def)
qed

theorem only_shown_page_lives_witness:
  "open_sockets (ap_hook (fold (app_step \<lparr>br_set_device = (\<lambda>b d. Inr b), br_parse = (\<lambda>t. Inr Null), br_host = (\<lambda>x :: unit. Inr []),
      br_ws_url = None, br_development = True\<rparr>) [Visit ''/live'', Visit ''/'']
    (app_start \<lparr>br_set_device = (\<lambda>b d. Inr b), br_parse = (\<lambda>t. Inr Null), br_host = (\<lambda>x :: unit. Inr []),
      br_ws_url = None, br_development = True\<rparr> ''/''))) = {}"
proof -
  let ?br = "\<lparr>br_set_device = (\<lambda>b d. Inr b), br_parse = (\<lambda>t. Inr Null), br_host = (\<lambda>x :: unit. Inr []),
      br_ws_url = None, br_development = True\<rparr>"
  have path: "ap_path (fold (app_step ?br) [Visit ''/live'', Visit ''/''] (app_start ?br ''/'')) = ''/''"
    by (simp add: app_start_def visit_def enter_page_def leave_page_def page_at_def app_routes_def)
  have "page_at ''/'' \<noteq> Some Live_Page" by (simp add: page_at_def app_routes_def)
  then show ?thesis
    using only_shown_page_lives [of ?br "[Visit ''/live'', Visit ''/'']" "''/''" "Visit ''/''"] unfolding Let_def path by blast
qed

end
