(* ===== verification/Stream_Properties.thy ===== *)
theory Stream_Properties
  imports Indexer_Properties Store_Properties
begin

text \<open>
  The properties of the live stream: the bus, the hub's broadcast and heartbeat, and what the
  indexer's rows come to on their way to the sockets.
\<close>

section \<open>The bus\<close>

text \<open>Subscribers are isolated from each other and from the publisher: one that throws is logged and
  the subscribers after it are called all the same; publishing itself never throws.\<close>

theorem bus_isolates:
  assumes "subscribers b = xs @ (k, fn) # ys"
    and "bus_publish lg (b\<lparr>subscribers := xs\<rparr>) row h = (Inr (), h1)" and "fn row h1 = (Inl e, h2)"
  shows "bus_publish lg b row h =
      bus_publish lg (b\<lparr>subscribers := ys\<rparr>) row (lg (''[telemetry] subscriber error: '' @ exn_message e) h2)
    \<and> (\<exists>h'. bus_publish lg b row h = (Inr (), h'))"
proof
  have "bus_publish lg (b\<lparr>subscribers := [(k, fn)]\<rparr>) row h1 =
      (Inr (), lg (''[telemetry] subscriber error: '' @ exn_message e) h2)"
    using assms(3) by (simp add: bus_publish_def js_try_def js_bind_def js_simps)
  moreover have "bus_publish lg b row = bus_publish lg (b\<lparr>subscribers := xs @ [(k, fn)] @ ys\<rparr>) row"
    using assms(1) by (simp add: bus_publish_def)
  then have "bus_publish lg b row = js_bind (bus_publish lg (b\<lparr>subscribers := xs\<rparr>) row) (\<lambda>_.
      js_bind (bus_publish lg (b\<lparr>subscribers := [(k, fn)]\<rparr>) row) (\<lambda>_. bus_publish lg (b\<lparr>subscribers := ys\<rparr>) row))"
    by (simp only: bus_publish_append)
  ultimately show "bus_publish lg b row h =
      bus_publish lg (b\<lparr>subscribers := ys\<rparr>) row (lg (''[telemetry] subscriber error: '' @ exn_message e) h2)"
    using assms(2) by (simp add: js_bind_def)
qed (rule bus_publish_ok)

definition demo_bus :: "(unit, string list) bus" where
  "demo_bus = subscribe 2 (\<lambda>row h. (Inr (), h @ [''row'']))
     (subscribe 1 (\<lambda>row h. (Inl (Exn ''Error'' ''down''), h)) \<lparr>subscribers = []\<rparr>)"

theorem bus_isolates_witness:
  "bus_publish (\<lambda>t h. h @ [t]) demo_bus row [] = (Inr (), [''[telemetry] subscriber error: down'', ''row''])"
proof -
  have b: "subscribers demo_bus = [] @ (1, \<lambda>row h. (Inl (Exn ''Error'' ''down''), h)) # [(2, \<lambda>row h. (Inr (), h @ [''row'']))]"
    by (simp add: demo_bus_def subscribe_def)
  show ?thesis
    using bus_isolates [OF b, of "\<lambda>t h. h @ [t]" row "[]" "[]" "Exn ''Error'' ''down''" "[]"]
    by (simp add: bus_publish_def js_try_def js_bind_def js_simps)
qed

section \<open>Broadcasting\<close>

definition demo_client :: "string option \<Rightarrow> bool \<Rightarrow> client" where
  "demo_client flt alive = \<lparr>ready_state = OPEN, is_alive = alive, device_filter = flt, sent = [], pings = 0\<rparr>"

definition demo_hub :: hub where
  "demo_hub = \<lparr>clients = [(1, demo_client None True), (2, demo_client (Some ''E'') False)], heartbeat_on = True,
     hub_console = []\<rparr>"


text \<open>C29. The rows of the indexer never reach a client: their amounts are BigInts, which
  \<open>JSON.stringify\<close> refuses, and the bus logs the error. Whatever the chain holds, a poll leaves every
  client of the live stream as it was, with no frame sent.\<close>

theorem indexed_rows_never_streamed:
  assumes "poll n (service_env c sdk drv server now stringify) s = Some s'"
  shows "clients (world s') = clients (world s)"
  using poll_keeps_frame [OF stream.poll_frame_axioms assms] by (simp add: same_clients_def)

theorem indexed_rows_never_streamed_witness:
  "clients (world demo_polled) = clients (world demo_boot) \<and> Some ''e3'' \<in> cached_ids (cache demo_polled)"
proof
  show "clients (world demo_polled) = clients (world demo_boot)"
    using demo_poll unfolding demo_env_with_def by (rule indexed_rows_never_streamed)
  show "Some ''e3'' \<in> cached_ids (cache demo_polled)"
    using demo_chain.poll_keeps(2) [OF demo_caught_up_env demo_poll demo_poll_console] by (auto simp: covers_def demo_chain_def)
qed

section \<open>The heartbeat\<close>

text \<open>A client stays connected as long as it answers each ping before the next round, and one that
  does not answer is gone after the second round.\<close>

theorem heartbeat_liveness:
  assumes "i \<in> fst ` set (clients h)"
  shows "i \<notin> fst ` set (clients (heartbeat (heartbeat h)))
    \<and> (i \<in> fst ` set (clients (heartbeat h)) \<longrightarrow> i \<in> fst ` set (clients (heartbeat (on_pong i (heartbeat h)))))"
  using heartbeat_twice_drops [OF assms] heartbeat_keeps_answering by blast

theorem heartbeat_liveness_witness:
  "1 \<notin> fst ` set (clients (heartbeat (heartbeat demo_hub))) \<and> 1 \<in> fst ` set (clients (heartbeat (on_pong 1 (heartbeat demo_hub))))"
proof -
  have "1 \<in> fst ` set (clients demo_hub)" "1 \<in> fst ` set (clients (heartbeat demo_hub))"
    by (simp_all add: demo_hub_def heartbeat_def demo_client_def)
  with heartbeat_liveness show ?thesis by blast
qed


end
