(* ===== verification/Service_Properties.thy ===== *)
theory Service_Properties
  imports Stream_Properties Gateway_Properties
begin

text \<open>
  What the service reports against what the contract holds: the chain of events from an accepted
  reading over the contract's log and the indexer to the balance endpoint.
\<close>

section \<open>The cache in the order of the log\<close>

definition seq_of :: "string \<times> int \<times> int \<times> int option \<times> int option \<Rightarrow> int" where
  "seq_of v = (case v of (_, _, _, _, q) \<Rightarrow> (case q of None \<Rightarrow> 0 | Some n \<Rightarrow> n))"

lemma meter_seqs:
  assumes "reachable net st"
  shows "sorted_wrt (\<lambda>v w. seq_of v < seq_of w) (map meter_view (meters_of d (published st)))"
proof -
  let ?ms = "meters_of d (published st)"
  have "map (\<lambda>m. unat (m_seq m)) ?ms = [1..<Suc (length ?ms)]"
    using history.inv_reachable [OF assms] by (simp add: history_ok_def device_history_ok_def)
  then have "sorted_wrt (<) (map (\<lambda>m. unat (m_seq m)) ?ms)" by (metis sorted_wrt_upt)
  then have "sorted_wrt (\<lambda>m m'. m_seq m < m_seq m') ?ms"
    by (simp only: sorted_wrt_map word_less_nat_alt)
  then show ?thesis
    by (simp add: sorted_wrt_map seq_of_def meter_view_def flip: word_less_def)
qed

lemma m_cost_nonneg:
  assumes "reachable net st" and "m \<in> set (meters_of d (published st))"
  shows "0 \<le> sint (m_cost m)"
proof -
  have h: "device_history_ok st d" "accounts_ok st"
    using history.inv_reachable [OF assms(1)] by (simp_all add: history_ok_def)
  then have "p_registration (persistent st) d \<noteq> None" using assms(2) by (auto simp: device_history_ok_def)
  then obtain tp where tp: "p_tariff (persistent st) d = Some tp" using h(2) by (fastforce simp: accounts_ok_def)
  then have "0 \<le> sint (rate_per_unit tp)" using h(2) by (simp add: accounts_ok_def)
  with h(1) tp assms(2) show ?thesis by (auto simp: device_history_ok_def)
qed

lemma ordered_rows_view:
  assumes "cache_driver drv" and "reachable net st"
    and rows: "mset (map row_view (meter_events c)) = mset (map meter_view (meters (published st)))"
  shows "map row_view (ordered_rows drv d c) = map meter_view (meters_of d (published st))"
proof (rule sorted_wrt_unique [where le = "\<lambda>v w. seq_of v \<le> seq_of w"])
  have "mset (map row_view (ordered_rows drv d c)) = mset (map row_view (rows_of d c))"
    using cache_driver.ordered_rows_mset [OF assms(1)] by (simp add: rows_of_def)
  then show m: "mset (map row_view (ordered_rows drv d c)) = mset (map meter_view (meters_of d (published st)))"
    using device_rows_are_events [OF rows] by simp
  show "sorted_wrt (\<lambda>v w. seq_of v \<le> seq_of w) (map meter_view (meters_of d (published st)))"
    using meter_seqs [OF assms(2)] by (rule sorted_wrt_mono_rel [rotated]) simp
  have some: "mr_seq r \<noteq> None" if "r \<in> set (ordered_rows drv d c)" for r
  proof -
    have "row_view r \<in> set (map meter_view (meters_of d (published st)))"
      using that mset_eq_setD [OF m] by auto
    then show ?thesis by (auto simp: row_view_def meter_view_def)
  qed
  have "sorted_wrt (seq_le drv) (ordered_rows drv d c)"
    unfolding ordered_rows_def by (rule cache_driver.metrics_sorted [OF assms(1)])
  then have "sorted_wrt (\<lambda>r r'. seq_of (row_view r) \<le> seq_of (row_view r')) (ordered_rows drv d c)"
  proof (rule sorted_wrt_mono_rel [rotated])
    fix r r' assume "r \<in> set (ordered_rows drv d c)" "r' \<in> set (ordered_rows drv d c)" "seq_le drv r r'"
    with some [of r] some [of r'] show "seq_of (row_view r) \<le> seq_of (row_view r')"
      by (auto simp: seq_le_def null_le_def seq_of_def row_view_def)
  qed
  then show "sorted_wrt (\<lambda>v w. seq_of v \<le> seq_of w) (map row_view (ordered_rows drv d c))"
    by (simp add: sorted_wrt_map)
  show "v = w" if "v \<in> set (map row_view (ordered_rows drv d c))" "w \<in> set (map row_view (ordered_rows drv d c))"
    "seq_of v \<le> seq_of w" "seq_of w \<le> seq_of v" for v w
  proof -
    have "inj_on seq_of (set (map meter_view (meters_of d (published st))))"
    proof -
      have "distinct (map seq_of (map meter_view (meters_of d (published st))))"
        using meter_seqs [OF assms(2), of d]
        by (metis sorted_wrt_map strict_sorted_iff)
      then have "inj_on (seq_of \<circ> meter_view) (set (meters_of d (published st)))"
        by (simp add: distinct_map)
      then show ?thesis by (simp add: inj_on_imageI)
    qed
    then show ?thesis using that mset_eq_setD [OF m] by (metis antisym inj_onD)
  qed
qed

section \<open>The balance endpoint\<close>

text \<open>What the balance endpoint answers over a cache that holds the contract's log.\<close>

lemma balance_of_log:
  assumes drv: "cache_driver drv" and reach: "reachable net st"
    and rows: "mset (map row_view (meter_events c)) = mset (map meter_view (meters (published st)))"
    and small: "int (metered d (published st)) \<le> 2 ^ 53" "billed d (published st) \<le> 2 ^ 53"
  obtains bv where "balance_view drv d c = (Inr bv, c)"
    and "bv_total_units bv = number_of_int (int (metered d (published st)))"
    and "bv_total_billed bv = number_of_int (billed d (published st))"
    and "bv_latest_seq bv = number_of_int (int (length (meters_of d (published st))))"
    and "bv_on_chain_balance bv = (if meters_of d (published st) = [] then None
        else Some (number_of_int (sint (m_balance (last (meters_of d (published st)))))))"
proof -
  let ?ms = "meters_of d (published st)" and ?rows = "ordered_rows drv d c"
  have view: "map row_view ?rows = map meter_view ?ms" by (rule ordered_rows_view [OF drv reach rows])
  note dev = device_rows_are_events [OF rows, of d]
  have units: "map mr_units ?rows = map (\<lambda>m. uint (m_units m)) ?ms"
    and costs: "map mr_cost ?rows = map (\<lambda>m. sint (m_cost m)) ?ms"
    and bals: "map mr_balance_after ?rows = map (\<lambda>m. Some (sint (m_balance m))) ?ms"
    using arg_cong [OF view, of "map (fst \<circ> snd)"] arg_cong [OF view, of "map (fst \<circ> snd \<circ> snd)"]
      arg_cong [OF view, of "map (fst \<circ> snd \<circ> snd \<circ> snd)"]
    by (simp_all add: row_view_def meter_view_def comp_def)
  have sums: "(\<Sum>r\<leftarrow>?rows. mr_units r) = int (metered d (published st))"
    "(\<Sum>r\<leftarrow>?rows. mr_cost r) = billed d (published st)"
    by (simp_all add: units costs metered_def billed_def int_sum_list)
  have pos: "0 \<le> mr_units r \<and> 0 \<le> mr_cost r" if "r \<in> set ?rows" for r
  proof -
    have "mr_units r \<in> set (map mr_units ?rows)" "mr_cost r \<in> set (map mr_cost ?rows)" using that by simp_all
    then show ?thesis unfolding units costs using m_cost_nonneg [OF reach] by auto
  qed
  have tot: "total_of sm_units (map sample_of ?rows) = number_of_int (int (metered d (published st)))"
    "total_of sm_cost (map sample_of ?rows) = number_of_int (billed d (published st))"
    using total_of_exact [of ?rows mr_units "sm_units \<circ> sample_of"] total_of_exact [of ?rows mr_cost "sm_cost \<circ> sample_of"]
      pos small by (simp_all add: sums total_of_def foldl_map comp_def sample_of_def)
  have seq: "map (\<lambda>m. unat (m_seq m)) ?ms = [1..<Suc (length ?ms)]"
    using history.inv_reachable [OF reach] by (simp add: history_ok_def device_history_ok_def)
  have latest: "(case sql_max (map mr_seq (rows_of d c)) of None \<Rightarrow> 0 | Some n \<Rightarrow> n) = int (length ?ms)"
    by (rule latest_seq_of_log [OF seq device_sums(4) [OF dev]])
  have nil: "?rows = [] \<longleftrightarrow> ?ms = []" using arg_cong [OF view, of length] by auto
  have lastb: "mr_balance_after (last ?rows) = Some (sint (m_balance (last ?ms)))" if "?ms \<noteq> []"
    using arg_cong [OF bals, of last] that nil by (simp add: last_map)
  show thesis
  proof
    let ?bv = "\<lparr>bv_device_id = d,
        bv_on_chain_balance = (if ?ms = [] then None else Some (number_of_int (sint (m_balance (last ?ms))))),
        bv_latest_seq = number_of_int (int (length ?ms)), bv_pending_uncommitted_units = Fin 0,
        bv_total_units = number_of_int (int (metered d (published st))),
        bv_total_billed = number_of_int (billed d (published st)),
        bv_last_reading = map_option sample_of (if ?rows = [] then None else Some (last ?rows))\<rparr>"
    have "(case sql_max (map mr_seq (rows_of d c)) of None \<Rightarrow> Fin 0 | Some n \<Rightarrow> number_of_int n) = number_of_int (int (length ?ms))"
      using latest by (auto simp: number_of_int_exact split: option.splits)
    then show "balance_view drv d c = (Inr ?bv, c)"
      using tot lastb nil by (simp add: cache_driver.balance_view_run [OF drv] Let_def rows_of_def)
  qed simp_all
qed


text \<open>A poll that logged no failure leaves the meter events of the contract's log in the cache.\<close>

lemma polled_rows:
  assumes "indexer_chain env enc chain_at latest_at"
    and "caught_up_with (env_contract_id env) chain_at w s" and "events_unique (cache s)"
    and "poll n env s = Some s'" and "console s' = console s"
    and "map ce_event (chain_at (rpc_calls s')) = published st"
    and "chain_at (rpc_calls s' - 1) = chain_at (rpc_calls s')" and "distinct (map ce_id (chain_at (rpc_calls s')))"
  shows "mset (map row_view (meter_events (cache s'))) = mset (map meter_view (meters (published st)))"
proof -
  let ?t = "rpc_calls s'"
  obtain t where t: "?t = Suc t" "covers (chain_at t) (cache s')"
    using indexer_chain.poll_keeps(2) [OF assms(1,2,4,5)] by blast
  then have "covers (chain_at ?t) (cache s')" using assms(7) by simp
  moreover have "faithful (env_contract_id env) (chain_at ?t) (cache s')"
    using indexer_chain.poll_keeps(1) [OF assms(1,2,4)] by (auto simp: caught_up_with_def)
  moreover have "events_unique (cache s')"
    using poll_keeps_frame [OF log.poll_frame_axioms assms(4)] assms(3) by (simp add: log_grows_def)
  ultimately show ?thesis using rows_are_events [of _ "chain_at ?t" "cache s'"] assms(6,8) by simp
qed

text \<open>The counters the contract stores of a device, in terms of its log.\<close>

lemma stored_counters:
  assumes "reachable net st" and "fst (get_reading d st) = Some r"
  shows "int (metered d (published st)) = uint (cumulative_units r)"
    and "int (length (meters_of d (published st))) = uint (last_seq r)"
proof -
  have "device_history_ok st d" using history.inv_reachable [OF assms(1)] by (simp add: history_ok_def)
  moreover have "p_reading (persistent st) d = Some r"
    using assms(2) by (simp add: get_reading_def model_simps split_beta)
  ultimately show "int (metered d (published st)) = uint (cumulative_units r)"
    and "int (length (meters_of d (published st))) = uint (last_seq r)"
    unfolding device_history_ok_def rdg_of_def uint_nat by simp_all
qed

lemma rows_nonneg:
  assumes "reachable net st"
    and rows: "mset (map row_view (meter_events c)) = mset (map meter_view (meters (published st)))"
  shows "\<forall>r\<in>set (meter_events c). 0 \<le> mr_units r \<and> 0 \<le> mr_cost r"
proof
  fix r assume "r \<in> set (meter_events c)"
  then obtain m where "m \<in> set (meters (published st))" "row_view r = meter_view m"
    using mset_eq_setD [OF rows] by (metis (no_types, lifting) imageE imageI set_map)
  then show "0 \<le> mr_units r \<and> 0 \<le> mr_cost r"
    using m_cost_nonneg [OF assms(1), of m "m_device m"] by (simp add: row_view_def meter_view_def meters_of_def)
qed

text \<open>Over such a cache the endpoint gives the counters the contract stores.\<close>

lemma counters_of_contract:
  assumes drv: "cache_driver drv" and reach: "reachable net st"
    and rows: "mset (map row_view (meter_events c)) = mset (map meter_view (meters (published st)))"
    and "fst (get_reading d st) = Some r" and "fst (get_balance d st) = Some b"
    and "uint (cumulative_units r) \<le> 2 ^ 53" and "billed d (published st) \<le> 2 ^ 53"
  obtains bv where "balance_view drv d c = (Inr bv, c)"
    and "bv_total_units bv = number_of_int (uint (cumulative_units r))"
    and "bv_latest_seq bv = number_of_int (uint (last_seq r))"
    and "bv_total_billed bv = number_of_int (deposited d (published st) - sint b)"
    and "bv_on_chain_balance bv = (if meters_of d (published st) = [] then None
        else Some (number_of_int (sint (m_balance (last (meters_of d (published st)))))))"
proof -
  note r = stored_counters [OF reach assms(4)]
  have "map_option amount (p_deposit (persistent st) d) = Some b"
    using assms(5) by (simp add: get_balance_def model_simps split_beta)
  then have "dep_int (persistent st) d = sint b" by (auto simp: dep_int_def)
  then have b: "billed d (published st) = deposited d (published st) - sint b"
    using history.inv_reachable [OF reach] unfolding history_ok_def device_history_ok_def by smt
  from balance_of_log [OF drv reach rows, of d] assms(6,7) r b that show thesis by auto
qed

text \<open>C2. The balance endpoint reports the contract's state: after a poll that logged no failure, with
  nothing published since its last call, the endpoint's units and sequence number of a device are
  the counters the contract stores, its total billed is what the device paid in less the balance the
  contract reports, and its balance is the one after the last bill.\<close>

theorem served_balance_is_contracts:
  assumes "indexer_chain env enc chain_at latest_at"
    and "caught_up_with (env_contract_id env) chain_at w s" and "events_unique (cache s)"
    and "poll n env s = Some s'" and "console s' = console s"
    and "reachable net st" and "map ce_event (chain_at (rpc_calls s')) = published st"
    and "chain_at (rpc_calls s' - 1) = chain_at (rpc_calls s')" and "distinct (map ce_id (chain_at (rpc_calls s')))"
    and "fst (get_reading d st) = Some r" and "fst (get_balance d st) = Some b"
    and "uint (cumulative_units r) \<le> 2 ^ 53" and "billed d (published st) \<le> 2 ^ 53"
  shows "\<exists>bv. balance_view (env_driver env) d (cache s') = (Inr bv, cache s')
    \<and> bv_total_units bv = number_of_int (uint (cumulative_units r))
    \<and> bv_latest_seq bv = number_of_int (uint (last_seq r))
    \<and> bv_total_billed bv = number_of_int (deposited d (published st) - sint b)
    \<and> (meters_of d (published st) \<noteq> [] \<longrightarrow>
        bv_on_chain_balance bv = Some (number_of_int (sint (m_balance (last (meters_of d (published st)))))))"
proof -
  have drv: "cache_driver (env_driver env)" using assms(1) by (simp add: indexer_chain_def indexer_host_def)
  from counters_of_contract [OF drv assms(6) polled_rows [OF assms(1-5,7-9)] assms(10-13)] show ?thesis by fastforce
qed

lemma demo_published: "published demo_billed = map ce_event demo_chain"
proof -
  have 1: "published demo_registered = [ce_event (demo_chain ! 0)]"
    by (simp add: demo_registered_def demo_start_def commit_def register_device_def model_simps demo_tx_def
        i128_less_def p_registration_def [of Map.empty] demo_chain_def TOPIC_DEVICE_REGISTERED_def)
  have 2: "published demo_funded = published demo_registered @ [ce_event (demo_chain ! 1)]"
    using demo_deposit_eval(1)
    by (cases rule: deposit_funds_cases)
      (auto simp: demo_registered_eval i128_checked_add_def demo_chain_def TOPIC_DEPOSIT_def split: if_splits)
  have 3: "published demo_billed = published demo_funded @ [ce_event (demo_chain ! 2)]"
    using demo_submit_eval(1)
  proof (cases rule: submit_reading_cases)
    case (accepted reg tp bal left earned units)
    then show ?thesis
      by (auto simp: demo_deposit_eval demo_tx_def i128_checked_sub_def demo_chain_def meter_event_def demo_meter_def
          split: if_splits)
  qed
  show ?thesis unfolding 3 2 1 by (simp add: demo_chain_def)
qed

lemma demo_reading: "fst (get_reading ''D'' demo_billed) = Some \<lparr>last_seq = 1, last_ts = 5, cumulative_units = 3\<rparr>"
  using demo_submit_eval(1)
proof (cases rule: submit_reading_cases)
  case (accepted reg tp bal left earned units)
  then show ?thesis
    by (auto simp: get_reading_def model_simps demo_deposit_eval demo_tx_def u64_checked_add_def rdg_of_def split: if_splits)
qed

theorem served_balance_is_contracts_witness:
  "\<exists>bv. balance_view (demo_driver Sqlite :: scval driver) ''D'' (cache demo_polled) = (Inr bv, cache demo_polled)
    \<and> bv_total_units bv = number_of_int 3 \<and> bv_latest_seq bv = number_of_int 1
    \<and> bv_on_chain_balance bv = Some (number_of_int 470)"
proof -
  have bal: "fst (get_balance ''D'' demo_billed) = Some 470"
    by (simp add: get_balance_def model_simps split_beta demo_submit_eval)
  have bill: "billed ''D'' (published demo_billed) = 30" by (simp add: billed_def demo_billed_meters)
  have uniq: "events_unique (cache demo_boot)" by (simp add: demo_boot_cache events_unique_def)
  have pub: "map ce_event demo_chain = published demo_billed" by (simp only: demo_published)
  have ids: "distinct (map ce_id demo_chain)" by (simp add: demo_chain_def)
  from served_balance_is_contracts [OF demo_chain.indexer_chain_axioms demo_caught_up_env uniq demo_poll
      demo_poll_console demo_reachable(3) pub refl ids demo_reading bal]
  show ?thesis unfolding bill demo_billed_meters by auto
qed

end
