(* ===== verification/Table_Properties.thy ===== *)
theory Table_Properties
  imports Service_Properties Frontend_Properties
begin

text \<open>
  The service from end to end: what the dashboard's table shows against what the contract holds,
  over the indexer, the cache, the endpoints and the loading of the page.
\<close>

section \<open>The devices of a cache\<close>

lemma sum_below:
  fixes f :: "'a \<Rightarrow> int"
  assumes "\<forall>r\<in>set rs. 0 \<le> f r" and "(\<Sum>r\<leftarrow>rs. f r) \<le> 2 ^ 53"
  shows "sql_sum drv (map f rs) = Inr (\<Sum>r\<leftarrow>rs. f r)"
  using assms by (intro sql_sum_exact) auto

text \<open>The list of devices of a cache whose amounts the API can report.\<close>

lemma devices_of_cache:
  assumes drv: "cache_driver drv" and col: "has_column ''ledger_ts'' c"
    and pos: "\<forall>r\<in>set (meter_events c). 0 \<le> mr_units r \<and> 0 \<le> mr_cost r"
    and small: "\<forall>d. (\<Sum>r\<leftarrow>rows_of d c. mr_units r) \<le> 2 ^ 53 \<and> (\<Sum>r\<leftarrow>rows_of d c. mr_cost r) \<le> 2 ^ 53"
  obtains ds where "listDevices drv c = (Inr ds, c)"
    and "dv_device_id ` set ds = mr_device_id ` set (meter_events c)"
    and "\<forall>row\<in>set ds. dv_event_count row = number_of_int (int (length (rows_of (dv_device_id row) c)))"
proof -
  let ?g = "\<lambda>d. filter (\<lambda>r. mr_device_id r = d) (scan drv (meter_events c))"
  have rows: "rows_of d c = filter (\<lambda>r. mr_device_id r = d) (meter_events c)" for d
    by (auto simp: rows_of_def intro: filter_cong)
  have ok: "\<exists>row. device_row_of drv d (?g d) = Inr row \<and> dv_device_id row = d
      \<and> dv_event_count row = number_of_int (int (length (rows_of d c)))" for d
  proof -
    have "\<forall>r\<in>set (?g d). 0 \<le> mr_units r" "\<forall>r\<in>set (?g d). 0 \<le> mr_cost r"
      using pos by (simp_all add: cache_driver.set_scan [OF drv])
    moreover have "(\<Sum>r\<leftarrow>?g d. mr_units r) \<le> 2 ^ 53" "(\<Sum>r\<leftarrow>?g d. mr_cost r) \<le> 2 ^ 53"
      using small rows by (simp_all add: cache_driver.scan_sum [OF drv])
    ultimately show ?thesis
      by (simp add: device_row_of_def sum_below cache_driver.scan_count [OF drv] rows)
  qed
  define g where "g d = (SOME row. device_row_of drv d (?g d) = Inr row \<and> dv_device_id row = d
      \<and> dv_event_count row = number_of_int (int (length (rows_of d c))))" for d
  have g: "device_row_of drv d (?g d) = Inr (g d)" "dv_device_id (g d) = d"
    "dv_event_count (g d) = number_of_int (int (length (rows_of d c)))" for d
    using someI_ex [OF ok [of d]] unfolding g_def by blast+
  show thesis
  proof (rule that)
    let ?last = "\<lambda>d. sql_max (map mr_ledger (?g d))"
    let ?ids = "sort_by (\<lambda>d1 d2. null_le (dialect drv) (\<le>) (?last d2) (?last d1)) (remdups (map mr_device_id (scan drv (meter_events c))))"
    show "listDevices drv c = (Inr (map g ?ids), c)"
      using col by (simp add: listDevices_def need_column_def js_bind_def js_read_def js_lift_def Let_def g mapE_Inr [of _ _ g])
    show "dv_device_id ` set (map g ?ids) = mr_device_id ` set (meter_events c)"
      by (simp add: cache_driver.set_scan [OF drv] image_image g)
    show "\<forall>row\<in>set (map g ?ids). dv_event_count row = number_of_int (int (length (rows_of (dv_device_id row) c)))"
      by (simp add: g)
  qed
qed

section \<open>The table\<close>

text \<open>
  The row of a device as the contract would fill it: the counters \<open>r\<close> it stores, the number of its
  bills, what was paid in less the balance \<open>b\<close> it reports, and the balance after the last bill.
\<close>

definition contract_row :: "string \<Rightarrow> event list \<Rightarrow> ReadingCounter \<Rightarrow> i128 \<Rightarrow> 'x device_line" where
  "contract_row d evs r b = \<lparr>dc_device = Str d,
     dc_balance = Num (number_of_int (sint (m_balance (last (meters_of d evs))))),
     dc_units = number_of_int (uint (cumulative_units r)), dc_billed = number_of_int (deposited d evs - sint b),
     dc_latest_seq = Num (number_of_int (uint (last_seq r))), dc_records = Num (number_of_int (uint (last_seq r)))\<rparr>"

lemma row_of_contract:
  assumes "cache_driver drv" and "reachable net st"
    and "mset (map row_view (meter_events c)) = mset (map meter_view (meters (published st)))"
    and "fst (get_reading d st) = Some r" and "fst (get_balance d st) = Some b"
    and small: "int (metered d (published st)) \<le> 2 ^ 53" "billed d (published st) \<le> 2 ^ 53"
    and "meters_of d (published st) \<noteq> []" and bv: "balance_view drv d c = (Inr bv, c)"
  shows "\<lparr>dc_device = Str d, dc_balance = (case bv_on_chain_balance bv of None \<Rightarrow> dash | Some b \<Rightarrow> Num b),
      dc_units = bv_total_units bv, dc_billed = bv_total_billed bv, dc_latest_seq = Num (bv_latest_seq bv),
      dc_records = Num (number_of_int (int (length (meters_of d (published st)))))\<rparr> = contract_row d (published st) r b"
proof -
  note n = stored_counters [OF assms(2,4)]
  have "uint (cumulative_units r) \<le> 2 ^ 53" using small(1) n(1) by simp
  from counters_of_contract [OF assms(1-5) this small(2)] obtain bv' where "balance_view drv d c = (Inr bv', c)"
    "bv_total_units bv' = number_of_int (uint (cumulative_units r))" "bv_latest_seq bv' = number_of_int (uint (last_seq r))"
    "bv_total_billed bv' = number_of_int (deposited d (published st) - sint b)"
    "bv_on_chain_balance bv' = (if meters_of d (published st) = [] then None
      else Some (number_of_int (sint (m_balance (last (meters_of d (published st)))))))"
    by blast
  then show ?thesis using bv assms(8) n(2) by (simp add: contract_row_def)
qed

text \<open>C1. The dashboard's table shows the contract: after a poll that logged no failure, with nothing
  published since its last call and a server that answers from that cache, the page loads without an
  error, its rows are exactly the devices the contract has billed, and each row shows the counters
  the contract stores: units and sequence number, the number of bills, what the device paid in less
  the balance the contract reports, and the balance after its last bill.\<close>

theorem table_shows_contract:
  fixes http :: "string \<Rightarrow> ('n, 'x http_response) js"
  assumes "indexer_chain env enc chain_at latest_at"
    and "caught_up_with (env_contract_id env) chain_at w s" and "events_unique (cache s)"
    and "poll n env s = Some s'" and "console s' = console s"
    and "reachable net st" and "map ce_event (chain_at (rpc_calls s')) = published st"
    and "chain_at (rpc_calls s' - 1) = chain_at (rpc_calls s')" and "distinct (map ce_id (chain_at (rpc_calls s')))"
    and "\<forall>d. int (metered d (published st)) \<le> 2 ^ 53 \<and> billed d (published st) \<le> 2 ^ 53"
    and "answers_from (env_driver env) (cache s') base http"
  shows "\<exists>v m ds. load_list host http base m0 = (Inr v, m) \<and> dl_error (le_view v) = None
    \<and> dl_devices (le_view v) = Arr (map device_json ds)
    \<and> dv_device_id ` set ds = {d. meters_of d (published st) \<noteq> []}
    \<and> (\<forall>row\<in>set ds. \<forall>r b. fst (get_reading (dv_device_id row) st) = Some r \<and> fst (get_balance (dv_device_id row) st) = Some b \<longrightarrow>
        device_cells host (le_view v) (device_json row) = Inr (contract_row (dv_device_id row) (published st) r b))"
proof -
  let ?drv = "env_driver env" and ?c = "cache s'" and ?evs = "published st"
  have drv: "cache_driver ?drv" using assms(1) by (simp add: indexer_chain_def indexer_host_def)
  have rows: "mset (map row_view (meter_events ?c)) = mset (map meter_view (meters ?evs))"
    by (rule polled_rows [OF assms(1-5,7-9)])
  have col: "has_column ''ledger_ts'' ?c"
    using indexer_chain.poll_keeps(1) [OF assms(1,2,4)] by (auto simp: caught_up_with_def)
  note dev = device_sums [OF device_rows_are_events [OF rows]]
  have ids: "mr_device_id ` set (meter_events ?c) = {d. meters_of d ?evs \<noteq> []}"
  proof -
    have "d \<in> mr_device_id ` set (meter_events ?c) \<longleftrightarrow> rows_of d ?c \<noteq> []" for d
      by (auto simp: rows_of_def filter_empty_conv)
    moreover have "rows_of d ?c = [] \<longleftrightarrow> meters_of d ?evs = []" for d
      using dev(3) [of d] by (metis length_0_conv)
    ultimately show ?thesis by blast
  qed
  obtain ds where ds: "listDevices ?drv ?c = (Inr ds, ?c)" "dv_device_id ` set ds = {d. meters_of d ?evs \<noteq> []}"
    "\<forall>row\<in>set ds. dv_event_count row = number_of_int (int (length (meters_of (dv_device_id row) ?evs)))"
    using devices_of_cache [OF drv col] rows_nonneg [OF assms(6) rows] assms(10) dev(1-3) ids by metis
  have "fst (listDevices ?drv ?c) = Inr ds" using ds(1) by simp
  from table_shows_cache [OF drv assms(11) this] obtain v m where v: "load_list host http base m0 = (Inr v, m)"
    "dl_devices (le_view v) = Arr (map device_json ds)" "dl_error (le_view v) = None"
    "\<forall>d\<in>set ds. \<exists>bv. balance_view ?drv (dv_device_id d) ?c = (Inr bv, ?c)
        \<and> device_cells host (le_view v) (device_json d) = Inr \<lparr>dc_device = Str (dv_device_id d),
            dc_balance = (case bv_on_chain_balance bv of None \<Rightarrow> dash | Some b \<Rightarrow> Num b),
            dc_units = bv_total_units bv, dc_billed = bv_total_billed bv,
            dc_latest_seq = Num (bv_latest_seq bv), dc_records = Num (dv_event_count d)\<rparr>"
    by blast
  have "device_cells host (le_view v) (device_json row) = Inr (contract_row (dv_device_id row) ?evs r b)"
    if row: "row \<in> set ds" and "fst (get_reading (dv_device_id row) st) = Some r"
      and "fst (get_balance (dv_device_id row) st) = Some b" for row r b
  proof -
    obtain bv where bv: "balance_view ?drv (dv_device_id row) ?c = (Inr bv, ?c)"
      and cells: "device_cells host (le_view v) (device_json row) = Inr \<lparr>dc_device = Str (dv_device_id row),
            dc_balance = (case bv_on_chain_balance bv of None \<Rightarrow> dash | Some b \<Rightarrow> Num b),
            dc_units = bv_total_units bv, dc_billed = bv_total_billed bv,
            dc_latest_seq = Num (bv_latest_seq bv), dc_records = Num (dv_event_count row)\<rparr>"
      using v(4) row by blast
    have "meters_of (dv_device_id row) ?evs \<noteq> []" using row ds(2) by auto
    from row_of_contract [OF drv assms(6) rows that(2,3) _ _ this bv] assms(10) ds(3) row
    show ?thesis unfolding cells by metis
  qed
  then show ?thesis using v(1-3) ds(2) by blast
qed

theorem table_shows_contract_witness:
  "\<exists>v m ds. load_list (\<lambda>x. Inr []) (demo_http (demo_driver Sqlite :: scval driver) (cache demo_polled)) ''/api'' () = (Inr v, m)
    \<and> dl_devices (le_view v) = Arr (map device_json ds) \<and> dv_device_id ` set ds = {''D''}"
proof -
  have uniq: "events_unique (cache demo_boot)" by (simp add: demo_boot_cache events_unique_def)
  have pub: "map ce_event demo_chain = published demo_billed" by (simp only: demo_published)
  have ids: "distinct (map ce_id demo_chain)" by (simp add: demo_chain_def)
  have meters: "meters_of d (published demo_billed) = (if d = ''D'' then [demo_meter] else [])" for d
    unfolding demo_published by (simp add: meters_of_def meters_def map_filter_simps demo_chain_def meter_of_def log_decode meter_event_def demo_meter_def)
  have one: "{d. meters_of d (published demo_billed) \<noteq> []} = {''D''}" by (simp add: meters)
  have small: "\<forall>d. int (metered d (published demo_billed)) \<le> 2 ^ 53 \<and> billed d (published demo_billed) \<le> 2 ^ 53"
    by (simp add: metered_def billed_def meters demo_meter_def)
  have http: "answers_from (env_driver (demo_env Sqlite)) (cache demo_polled) ''/api'' (demo_http (demo_driver Sqlite) (cache demo_polled))"
    by (simp add: demo_answers)
  from table_shows_contract [OF demo_chain.indexer_chain_axioms demo_caught_up_env uniq demo_poll
      demo_poll_console demo_reachable(3) pub refl ids small http, of "\<lambda>x. Inr []" "()"]
  obtain v m ds where "load_list (\<lambda>x. Inr []) (demo_http (demo_driver Sqlite :: scval driver) (cache demo_polled)) ''/api'' () = (Inr v, m)"
    "dl_devices (le_view v) = Arr (map device_json ds)" "dv_device_id ` set ds = {''D''}"
    unfolding one by (elim exE conjE) (rule that)
  then show ?thesis by (intro exI conjI)
qed

end
