(* ===== verification/Gateway_Overlap_Properties.thy ===== *)
theory Gateway_Overlap_Properties
  imports Gateway_Properties Gateway_Overlap
begin

text \<open>
  The properties of overlapping requests to the gateway: what holds however they interleave, and
  what two readings in flight at the same time do to each other.
\<close>

section \<open>One request\<close>


section \<open>Verified in flight\<close>

text \<open>What is known of the transaction of a posted reading.\<close>

fun posting_verified :: "'t network \<Rightarrow> ('x, 'n, 'p) gateway_env \<Rightarrow> ('x, 'p) posting \<Rightarrow> bool" where
  "posting_verified net env (Fetching rd relayer args) =
     (\<forall>account. verified_tx net (ge_stellar env) (cfg_contract_id (ge_config env))
        (relay_tx_of relayer account (cfg_contract_id (ge_config env)) (cfg_passphrase (ge_config env)) args))"
| "posting_verified net env (Preparing rd tx) = verified_tx net (ge_stellar env) (cfg_contract_id (ge_config env)) tx"
| "posting_verified net env _ = True"

lemma checks_verified:
  assumes "ed25519_check (ge_node env) = ed25519_verify net"
    and "post_checks env body = Inr (Inr rd)" and "relay_setup env rd = Inr (relayer, args)"
  shows "verified_tx net (ge_stellar env) (cfg_contract_id (ge_config env))
    (relay_tx_of relayer account (cfg_contract_id (ge_config env)) pass args)"
proof -
  let ?node = "ge_node env"
  from assms(2) have p: "parseU64 ?node (get_prop body ''seq'') ''seq'' = Inr (rd_seq rd)"
    "parseU64 ?node (get_prop body ''delta_units'') ''delta_units'' = Inr (rd_units rd)"
    "parseU64 ?node (get_prop body ''timestamp_ms'') ''timestamp_ms'' = Inr (rd_time rd)"
    and v: "verifyDeviceSignature ?node (rd_key rd) (rd_seq rd) (rd_units rd) (rd_time rd) (rd_signature rd) = Inr True"
    and d: "bindE (buffer_from ?node (rd_key rd)) (encode_pubkey (ge_stellar env)) = Inr (rd_device rd)"
    by (auto simp: post_checks_def Let_def bindE_Inr_iff split: if_splits sum.splits prod.splits)
  obtain k sig u q t where k: "buffer_from ?node (rd_key rd) = Inr k" "length k = 32" "buffer_from ?node (rd_signature rd) = Inr sig"
    "relay_call (relay_args (rd_device rd) (rd_units rd) (rd_seq rd) (rd_time rd) sig) = Some (Submit_Reading (rd_device rd) u q t sig)"
    "verify_signature net k q u t sig = Inr ()"
    by (rule verified_args [OF assms(1) p v])
  moreover have "encode_pubkey (ge_stellar env) k = Inr (rd_device rd)" using d k(1) by simp
  moreover have "args = relay_args (rd_device rd) (rd_units rd) (rd_seq rd) (rd_time rd) sig"
    using assms(3) k(3) by (auto simp: relay_setup_def Let_def bindE_Inr_iff)
  ultimately show ?thesis by (auto simp: verified_tx_def relay_tx_of_def)
qed

text \<open>C13. However requests interleave, every transaction the gateway hands to the SDK calls
  \<open>submit_reading\<close> of the configured contract with a signature the contract verifies, for the device
  address of the key that signed it.\<close>

theorem in_flight_verified:
  assumes "ed25519_check (ge_node env) = ed25519_verify net"
    and "postings_reach env ([], s) (ps, s')" and "Preparing rd tx \<in> set ps"
  shows "verified_tx net (ge_stellar env) (cfg_contract_id (ge_config env)) tx"
proof -
  have "\<forall>p\<in>set ps. posting_verified net env p"
  proof (rule postings_all [OF assms(2)])
    show "posting_verified net env p'" if "posting_verified net env p" "posting_step env now p u = (p', u')" for now p u p' u'
    proof (cases p)
      case (Posted body)
      with that(2) show ?thesis
        by (auto simp: relay_failed_def checks_verified [OF assms(1)] split: sum.splits prod.splits if_splits)
    qed (use that in \<open>auto simp: relay_failed_def split: sum.splits prod.splits option.splits\<close>)
  qed simp
  with assms(3) show ?thesis by fastforce
qed


section \<open>The relayer's account\<close>





section \<open>A network with an account\<close>

text \<open>The state of the network is the list of the sequence numbers its one account has used.\<close>

definition account_stellar :: "(int list, relay_tx) stellar" where
  "account_stellar = \<lparr>keypair_public = (\<lambda>k. Inr ''R''), contract_id_ok = (\<lambda>c. Inr ()), address_ok = (\<lambda>a. Inr ()),
     encode_pubkey = (\<lambda>k. Inr ''D''), get_account = (\<lambda>a n. (Inr (int (length n)), n)),
     prepare_transaction = (\<lambda>tx. js_return tx),
     send_transaction = (\<lambda>a tx n. if tx_sequence tx \<in> set n
        then (Inr \<lparr>res_status = ''ERROR'', res_hash = [], res_errors = []\<rparr>, n)
        else (Inr \<lparr>res_status = ''PENDING'', res_hash = ''h'', res_errors = []\<rparr>, n @ [tx_sequence tx]))\<rparr>"


definition account_env :: "(scval, int list, relay_tx) gateway_env" where
  "account_env = gateway_env_of demo_node account_stellar (demo_driver Sqlite)
     \<lparr>cfg_contract_id = ''C'', cfg_relayer_secret = ''s'', cfg_passphrase = []\<rparr>"

definition account_gateway :: "int list gateway" where
  "account_gateway = \<lparr>gw_db = gw_db demo_gateway, gw_net = [], gw_console = []\<rparr>"

definition demo_reading_of :: "string \<Rightarrow> scval reading" where
  "demo_reading_of d = \<lparr>rd_device = d, rd_key = Str demo_hex_key, rd_signature = Str demo_hex_sig,
     rd_seq = number_of_int 1, rd_units = number_of_int 3, rd_time = number_of_int 7\<rparr>"


lemma postings_goes:
  "postings_reach env c (ps, s) \<Longrightarrow> i < length ps \<Longrightarrow> posting_step env now (ps ! i) s = (p, s') \<Longrightarrow> ps' = ps[i := p] \<Longrightarrow>
   postings_reach env c (ps', s')"
  by (blast intro: postings_reach.intros postings_step.intros)


text \<open>The demonstration device's reading, from its arrival to its record.\<close>

lemma demo_checks:
  "post_checks account_env (demo_body (Str demo_hex_key)) = Inr (Inr (demo_reading_of ''D''))"
  "relay_setup account_env (demo_reading_of ''D'') =
     Inr (''R'', relay_args ''D'' (number_of_int 3) (number_of_int 1) (number_of_int 7) demo_sig)"
proof -
  have bufs: "buffer_from (demo_node :: scval node) (Str demo_hex_key) = Inr demo_key"
    "buffer_from (demo_node :: scval node) (Str demo_hex_sig) = Inr demo_sig"
    by (simp_all add: buffer_from_def demo_hex_key_decode demo_hex_sig_decode)
  have "length demo_key = 32" by (simp add: demo_key_def)
  then have lens: "length demo_key = 32" "length demo_sig = 64" by (simp_all add: demo_sig_def length_signed_payload)
  have "create_public_key (demo_node :: scval node) demo_key = Inr ()"
    "ed25519_check (demo_node :: scval node) demo_key (signed_payload demo_key (of_int 1) (of_int 3) (of_int 7)) demo_sig"
    by (simp_all add: demo_node_def demo_net_def demo_sig_def)
  then have "verifyDeviceSignature (demo_node :: scval node) (Str demo_hex_key) (number_of_int 1) (number_of_int 3) (number_of_int 7)
      (Str demo_hex_sig) = Inr True"
    using verify_payload [OF bufs(1) lens(1) bufs(2) lens(2), of 1 3 7] by simp
  then show "post_checks account_env (demo_body (Str demo_hex_key)) = Inr (Inr (demo_reading_of ''D''))"
    by (simp add: post_checks_def account_env_def account_stellar_def Let_def demo_fields bufs demo_reading_of_def)
  show "relay_setup account_env (demo_reading_of ''D'') =
      Inr (''R'', relay_args ''D'' (number_of_int 3) (number_of_int 1) (number_of_int 7) demo_sig)"
    by (simp add: relay_setup_def account_env_def account_stellar_def demo_reading_of_def bufs)
qed

lemma demo_preparing:
  "\<exists>tx. postings_reach account_env ([], account_gateway) ([Preparing (demo_reading_of ''D'') tx], account_gateway)"
proof -
  let ?body = "demo_body (Str demo_hex_key)" and ?args = "relay_args ''D'' (number_of_int 3) (number_of_int 1) (number_of_int 7) demo_sig"
  have "postings_step account_env ([], account_gateway) ([] @ [Posted ?body], account_gateway)" by (rule postings_step.arrives)
  then have "postings_reach account_env ([], account_gateway) ([Posted ?body], account_gateway)"
    using postings_reach.moves [OF postings_reach.still] by fastforce
  then have "postings_reach account_env ([], account_gateway) ([Fetching (demo_reading_of ''D'') ''R'' ?args], account_gateway)"
    by (rule postings_goes [where i = 0]) (simp_all add: demo_checks, simp add: account_env_def)
  then have "postings_reach account_env ([], account_gateway)
      ([Preparing (demo_reading_of ''D'') (relay_tx_of ''R'' 0 ''C'' [] ?args)], account_gateway)"
    by (rule postings_goes [where i = 0]) (simp_all add: account_env_def account_stellar_def on_net_def account_gateway_def)
  then show ?thesis by blast
qed

theorem in_flight_verified_witness:
  "\<exists>tx s'. postings_reach account_env ([], account_gateway) ([Preparing (demo_reading_of ''D'') tx], s')
    \<and> verified_tx demo_net account_stellar ''C'' tx"
proof -
  obtain tx where run: "postings_reach account_env ([], account_gateway) ([Preparing (demo_reading_of ''D'') tx], account_gateway)"
    using demo_preparing by blast
  have "ed25519_check (ge_node account_env) = ed25519_verify demo_net" by (simp add: account_env_def demo_node_def)
  from in_flight_verified [OF this run, of "demo_reading_of ''D''" tx] run show ?thesis by (auto simp: account_env_def)
qed


end
