(* ===== verification/Shutdown.thy ===== *)
theory Shutdown
  imports Process
begin

text \<open>
  The life of the process to its end (\<open>backend/src/index.js\<close>): the handler of the signals stops the
  indexer, closes the hub, closes the store (\<open>close\<close> of \<open>backend/src/db/store.js\<close>) and then the
  server, whose last connection lets the process exit. Polls and requests that are in flight, and
  requests on connections still open, go on against a closed store.
\<close>

section \<open>A closed store\<close>

text \<open>
  What the two drivers throw: a statement on a closed store, and the second end of a Postgres pool;
  closing a SQLite file twice is allowed.
\<close>

record closing =
  not_open :: exn
  ended_twice :: exn

definition store_close :: "dialect \<Rightarrow> closing \<Rightarrow> bool \<Rightarrow> (exn + unit) \<times> bool" where
  "store_close d er opened = (case d of
       Sqlite \<Rightarrow> (Inr (), False)
     | Postgres \<Rightarrow> (if opened then Inr () else Inl (ended_twice er), False))"

text \<open>
  The driver of a closed store refuses every statement. The watermark and the list of devices are
  read without a parameter; the polls and the routes below refuse these on their own.
\<close>

definition closed_driver :: "exn \<Rightarrow> 'x driver \<Rightarrow> 'x driver" where
  "closed_driver e drv = drv\<lparr>bind_int := (\<lambda>v. Inl e), bind_text := (\<lambda>v. Inl e), no_column := (\<lambda>c. e)\<rparr>"

definition closed_env :: "exn \<Rightarrow> ('x, 'w) indexer_env \<Rightarrow> ('x, 'w) indexer_env" where
  "closed_env e env = env\<lparr>env_driver := closed_driver e (env_driver env)\<rparr>"

fun closed_poller_step ::
    "exn \<Rightarrow> ('x, 'w) indexer_env \<Rightarrow> 'x poller \<Rightarrow> 'w indexer \<Rightarrow> 'x poller \<times> 'w indexer" where
  "closed_poller_step e env Starting s = poll_failed e s"
| "closed_poller_step e env (Started first) s = poll_failed e s"
| "closed_poller_step e env (Finishing highest latest) s = poll_failed e s"
| "closed_poller_step e env p s = poller_step (closed_env e env) p s"

definition closed_layers ::
    "exn \<Rightarrow> ('x, 'l) packages \<Rightarrow> 'x node \<Rightarrow> ('n, 'p) stellar \<Rightarrow> 'x driver \<Rightarrow> config option \<Rightarrow> string \<Rightarrow> ('x, 'n, 'l) layer list" where
  "closed_layers e pk node sdk drv cfg now =
     routed_layers pk cfg (\<lambda>c. readings_layer pk node sdk (closed_driver e drv) c now)
       (\<lambda>ps rq. js_throw e) (\<lambda>ps rq. js_throw e) (\<lambda>ps rq. js_throw e)"

definition serve_closed ::
    "('x, 'n, 'p, 'l) platform \<Rightarrow> exn \<Rightarrow> string \<Rightarrow> 'x request \<Rightarrow> ('x, 'n, 'p, 'l) process \<Rightarrow> 'x reply option \<times> ('x, 'n, 'p, 'l) process" where
  "serve_closed pf e now rq p =
     settle_request (answer_request (pf_packages pf) (Some (pf_config pf))
        (closed_layers e (pf_packages pf) (pf_node pf) (pf_stellar pf) (env_driver (pf_env pf)) (Some (pf_config pf)) now) rq
        (with_cache (cache (pr_indexer p)) (pr_site p))) p"

section \<open>The process after its store is closed\<close>

definition closed_platform :: "exn \<Rightarrow> ('x, 'n, 'p, 'l) platform \<Rightarrow> ('x, 'n, 'p, 'l) platform" where
  "closed_platform e pf = pf\<lparr>pf_env := closed_env e (pf_env pf)\<rparr>"

text \<open>A request for one of the reading endpoints rejects at its next query.\<close>

fun closed_get_step :: "exn \<Rightarrow> 'x getting \<Rightarrow> 'x getting" where
  "closed_get_step e (Asked a) = Refused e"
| "closed_get_step e (SecondQuery a rows) = Refused e"
| "closed_get_step e g = g"

definition step_get_closed :: "exn \<Rightarrow> nat \<Rightarrow> ('x, 'n, 'p, 'l) process \<Rightarrow> ('x, 'n, 'p, 'l) process" where
  "step_get_closed e i p =
     (let g = closed_get_step e (pr_gets p ! i) in
      p\<lparr>pr_gets := (pr_gets p)[i := g], pr_alive := (case g of Refused _ \<Rightarrow> False | _ \<Rightarrow> True)\<rparr>)"

text \<open>No poll is started any more, no socket is accepted, and no heartbeat is due.\<close>

inductive closed_step ::
    "('x, 'n, 'p, 'l) platform \<Rightarrow> exn \<Rightarrow> ('x, 'n, 'p, 'l) process \<Rightarrow> ('x, 'n, 'p, 'l) process \<Rightarrow> bool" for pf e where
  poll: "pr_alive p \<Longrightarrow> i < length (pr_polls p) \<Longrightarrow> closed_poller_step e (pf_env pf) (pr_polls p ! i) (pr_indexer p) = (q, s) \<Longrightarrow>
     closed_step pf e p (p\<lparr>pr_polls := (pr_polls p)[i := q], pr_indexer := s\<rparr>)"
| request: "pr_alive p \<Longrightarrow> serve_closed pf e now rq p = (answer, p') \<Longrightarrow> closed_step pf e p p'"
| posted: "pr_alive p \<Longrightarrow> accept_post pf rq p = Some p' \<Longrightarrow> closed_step pf e p p'"
| posting: "pr_alive p \<Longrightarrow> i < length (pr_posts p) \<Longrightarrow> closed_step pf e p (step_post (closed_platform e pf) now i p)"
| asked: "pr_alive p \<Longrightarrow> accept_get (closed_platform e pf) rq p = Some p' \<Longrightarrow> closed_step pf e p p'"
| reading: "pr_alive p \<Longrightarrow> i < length (pr_gets p) \<Longrightarrow> closed_step pf e p (step_get_closed e i p)"
| pong: "pr_alive p \<Longrightarrow> closed_step pf e p (set_hub (on_pong i (world (pr_indexer p))) p)"

section \<open>Signals and the exit\<close>

record ('x, 'n, 'p, 'l) lifetime =
  lf_process :: "('x, 'n, 'p, 'l) process"
  lf_open :: bool
  lf_exited :: bool

text \<open>The handler is asynchronous: a rejection of \<open>close\<close> is unhandled.\<close>

definition on_signal :: "('x, 'n, 'p, 'l) platform \<Rightarrow> closing \<Rightarrow> ('x, 'n, 'p, 'l) lifetime \<Rightarrow> ('x, 'n, 'p, 'l) lifetime" where
  "on_signal pf er l =
     (let p = (lf_process l)\<lparr>pr_indexer := shutdown (pr_indexer (lf_process l))\<rparr> in
      case store_close (dialect (env_driver (pf_env pf))) er (lf_open l) of
        (r, opened) \<Rightarrow> l\<lparr>lf_process := p\<lparr>pr_alive := (case r of Inr _ \<Rightarrow> True | Inl _ \<Rightarrow> False)\<rparr>, lf_open := opened\<rparr>)"

inductive lifetime_step ::
    "('x, 'n, 'p, 'l) platform \<Rightarrow> closing \<Rightarrow> ('x, 'n, 'p, 'l) lifetime \<Rightarrow> ('x, 'n, 'p, 'l) lifetime \<Rightarrow> bool" for pf er where
  works: "\<not> lf_exited l \<Longrightarrow> lf_open l \<Longrightarrow> process_step pf (lf_process l) p \<Longrightarrow> lifetime_step pf er l (l\<lparr>lf_process := p\<rparr>)"
| signal: "\<not> lf_exited l \<Longrightarrow> pr_alive (lf_process l) \<Longrightarrow> lifetime_step pf er l (on_signal pf er l)"
| drains: "\<not> lf_exited l \<Longrightarrow> \<not> lf_open l \<Longrightarrow> closed_step pf (not_open er) (lf_process l) p \<Longrightarrow>
     lifetime_step pf er l (l\<lparr>lf_process := p\<rparr>)"
| exits: "\<not> lf_exited l \<Longrightarrow> \<not> lf_open l \<Longrightarrow> pr_alive (lf_process l) \<Longrightarrow> lifetime_step pf er l (l\<lparr>lf_exited := True\<rparr>)"

inductive lifetime_run ::
    "('x, 'n, 'p, 'l) platform \<Rightarrow> closing \<Rightarrow> ('x, 'n, 'p, 'l) lifetime \<Rightarrow> ('x, 'n, 'p, 'l) lifetime \<Rightarrow> bool" for pf er where
  begins: "lifetime_run pf er l l"
| continues: "lifetime_run pf er l1 l2 \<Longrightarrow> lifetime_step pf er l2 l3 \<Longrightarrow> lifetime_run pf er l1 l3"

section \<open>A closed store is not changed\<close>

definition frozen :: "'w indexer \<Rightarrow> 'w indexer \<Rightarrow> bool" where
  "frozen s s' \<longleftrightarrow> cache s' = cache s \<and> rpc_calls s \<le> rpc_calls s'"

lemma closed_driver_simps [simp]:
  "bind_text (closed_driver e drv) v = Inl e" "bind_int (closed_driver e drv) v = Inl e" "no_column (closed_driver e drv) c = e"
  by (simp_all add: closed_driver_def)

lemma closed_ingest: "ingest (closed_driver e drv) row s = (Inl e, s)"
  by (simp add: ingest_def need_column_def bind_row_def js_bind_def js_lift_def)

lemma closed_record: "recordPendingReading (closed_driver e drv) now d k q u t h s = (Inl e, s)"
  by (simp add: recordPendingReading_def js_bind_def js_lift_def)

lemma closed_watermark: "setLastLedger (closed_driver e drv) x s = (Inl e, s)"
  by (simp add: setLastLedger_def js_bind_def js_lift_def)

interpretation frozen: page_frame frozen "closed_env e env" for e and env :: "('x, 'w) indexer_env"
  by unfold_locales (auto simp: frozen_def keeps_def now_iso_def on_world_def on_cache_def closed_env_def closed_ingest split_beta)

lemma poll_failed_frozen: "poll_failed e s = (p', s') \<Longrightarrow> frozen s s'"
  by (auto simp: poll_failed_def frozen_def console_line_def)

lemma closed_poller_frozen:
  fixes p :: "'x poller" and s :: "'w indexer"
  assumes "closed_poller_step e env p s = (p', s')"
  shows "frozen s s'"
proof -
  let ?env = "closed_env e env"
  have pages: "frozen s s1" if "handle_page ?env events h s = (r, s1)" for events h r s1
    using that frozen.handle_page_keeps [of e env events h] by (rule keepsD [rotated])
  have calls: "frozen s s1" if "getEvents ?env q s = (r, s1)" for q r s1
    using that by (auto simp: getEvents_def frozen_def)
  have fails: "frozen a c" if "frozen a b" "poll_failed x b = (q, c)" for a b c :: "'w indexer" and x and q :: "'x poller"
    using frozen.R_trans [OF that(1) poll_failed_frozen [OF that(2)]] .
  show ?thesis
  proof (cases p)
    case (Handling events first h res)
    then show ?thesis using assms
      by (cases events) (auto dest!: pages intro: fails frozen.R_refl split: prod.splits sum.splits if_splits
          simp del: handle_page.simps)
  next
    case (Storing w)
    have "env_driver ?env = closed_driver e (env_driver env)" by (simp add: closed_env_def)
    with Storing show ?thesis using assms
      by (auto simp: on_cache_def closed_watermark poll_failed_def frozen_def console_line_def)
  qed (use assms in \<open>auto dest: calls poll_failed_frozen intro: fails frozen.R_refl split: prod.splits sum.splits\<close>)
qed

definition same_db :: "'n gateway \<Rightarrow> 'n gateway \<Rightarrow> bool" where
  "same_db g g' \<longleftrightarrow> gw_db g' = gw_db g"

interpretation kept: gateway_frame same_db "closed_driver e drv" for e and drv :: "'x driver"
  by unfold_locales (auto simp: same_db_def keeps_def on_db_def closed_record)

lemma first_layers_same:
  fixes c :: db and s :: "('n, 'l) site" and st
  assumes "k \<le> 4 \<or> drv = closed_driver e drv'" and "k \<le> 5"
    and "run_layers (take k (api_layers pk node sdk drv (Some cfg) now)) rq (with_cache c s) = (r, st)"
  shows "gw_db (st_gateway st) = c"
proof -
  let ?R = "\<lambda>s s' :: ('n, 'l) site. same_db (st_gateway s) (st_gateway s')"
  let ?ls = "api_layers pk node sdk drv (Some cfg) now"
  have four: "keeps ?R (l rq)" if "l \<in> set (take 4 ?ls)" for l rq
    using that
    by (auto simp: api_layers_def routed_layers_def cors_layer_def json_layer_def intro: kept.site_pure kept.limit_layer_keeps
        intro!: kept.get_layer_keeps) (auto simp: keeps_def on_db_def js_return_def same_db_def)
  have "keeps ?R (run_layers (take k ?ls) rq)"
  proof (rule kept.run_layers_keep)
    fix l :: "'a request \<Rightarrow> (('n, 'l) site, 'a flow) js" and rq
    assume l: "l \<in> set (take k ?ls)"
    show "keeps ?R (l rq)"
    proof (cases "k \<le> 4")
      case True
      with l show ?thesis using four set_take_subset_set_take [of k 4 ?ls] by blast
    next
      case False
      then have "k = 5" using assms(2) by simp
      then have "l \<in> set (take 4 ?ls) \<or> l = readings_layer pk node sdk drv cfg now"
        using l by (auto simp: api_layers_def routed_layers_def)
      then show ?thesis using four kept.readings_layer_keeps [of pk node sdk e drv' cfg now rq] assms(1) False by auto
    qed
  qed
  then have "?R (with_cache c s) st" using assms(3) by (rule keepsD)
  then show ?thesis by (simp add: same_db_def with_cache_def)
qed

lemma accept_post_same:
  assumes "accept_post pf rq p = Some p'"
  shows "pr_indexer p' = pr_indexer p \<and> pr_polls p' = pr_polls p"
  using assms
  by (auto simp: accept_post_def split: prod.splits sum.splits flow.splits if_splits dest!: first_layers_same [rotated 2])

lemma accept_get_same:
  assumes "accept_get (closed_platform e pf) rq p = Some p'"
  shows "pr_indexer p' = pr_indexer p \<and> pr_polls p' = pr_polls p"
  using assms
  by (auto simp: accept_get_def closed_platform_def closed_env_def
      split: prod.splits sum.splits flow.splits option.splits dest!: first_layers_same [rotated 2])

lemma serve_closed_same:
  assumes "serve_closed pf e now rq p = (answer, p')"
  shows "pr_indexer p' = pr_indexer p \<and> pr_polls p' = pr_polls p \<and> (pr_alive p' \<longleftrightarrow> answer \<noteq> None)"
proof -
  let ?s0 = "with_cache (cache (pr_indexer p)) (pr_site p)"
  let ?ls = "closed_layers e (pf_packages pf) (pf_node pf) (pf_stellar pf) (env_driver (pf_env pf)) (Some (pf_config pf)) now"
  obtain r st where r: "answer_request (pf_packages pf) (Some (pf_config pf)) ?ls rq ?s0 = (r, st)" by fastforce
  have "keeps same_db (on_db (js_throw e))" by (simp add: keeps_def on_db_def js_throw_def same_db_def)
  then have "keeps (\<lambda>s s'. same_db (st_gateway s) (st_gateway s')) (answer_request (pf_packages pf) (Some (pf_config pf)) ?ls rq)"
    unfolding closed_layers_def by (intro kept.answer_request_keeps kept.routed_layers_keep)
  then have "same_db (st_gateway ?s0) (st_gateway st)" using r by (rule keepsD)
  then have "gw_db (st_gateway st) = cache (pr_indexer p)" by (simp add: same_db_def with_cache_def)
  then show ?thesis using assms r by (auto simp: serve_closed_def settle_request_def split: sum.splits)
qed

lemma step_post_same:
  "pr_indexer (step_post (closed_platform e pf) now i p) = pr_indexer p
   \<and> pr_polls (step_post (closed_platform e pf) now i p) = pr_polls p"
proof -
  let ?g0 = "st_gateway (with_cache (cache (pr_indexer p)) (pr_site p))" and ?env = "posting_env (closed_platform e pf)"
  obtain q g where q: "posting_step ?env now (pr_posts p ! i) ?g0 = (q, g)" by fastforce
  have "ge_driver ?env = closed_driver e (env_driver (pf_env pf))"
    by (simp add: posting_env_def closed_platform_def closed_env_def)
  from kept.posting_step_keeps [OF this q] q show ?thesis
    by (simp add: same_db_def with_cache_def step_post_def)
qed

lemma closed_step_frozen:
  assumes "closed_step pf e p p'"
  shows "frozen (pr_indexer p) (pr_indexer p') \<and> length (pr_polls p') = length (pr_polls p)"
  using assms
proof cases
  case (poll i q s)
  then show ?thesis using closed_poller_frozen by fastforce
next
  case (request now rq answer)
  then show ?thesis using serve_closed_same [OF request(2)] frozen.R_refl by simp
next
  case (posted rq)
  then show ?thesis using accept_post_same [OF posted(2)] frozen.R_refl by simp
next
  case (posting i now)
  then show ?thesis using step_post_same frozen.R_refl by metis
next
  case (asked rq)
  then show ?thesis using accept_get_same [OF asked(2)] frozen.R_refl by simp
next
  case (reading i)
  then show ?thesis by (simp add: step_get_closed_def Let_def frozen_def)
next
  case (pong i)
  then show ?thesis by (simp add: set_hub_def frozen_def)
qed

text \<open>From the close on, the cache stays as it is, and no poll is started.\<close>

lemma signal_view:
  "\<not> lf_open (on_signal pf er l)" "cache (pr_indexer (lf_process (on_signal pf er l))) = cache (pr_indexer (lf_process l))"
  "rpc_calls (pr_indexer (lf_process (on_signal pf er l))) = rpc_calls (pr_indexer (lf_process l))"
  "pr_polls (lf_process (on_signal pf er l)) = pr_polls (lf_process l)"
  by (simp_all add: on_signal_def store_close_def shutdown_def stop_def Let_def split: dialect.split)

lemma closed_run_frozen:
  assumes "lifetime_run pf er l l'" and "\<not> lf_open l"
  shows "\<not> lf_open l' \<and> frozen (pr_indexer (lf_process l)) (pr_indexer (lf_process l'))
    \<and> length (pr_polls (lf_process l')) = length (pr_polls (lf_process l))"
  using assms
proof (induction rule: lifetime_run.induct)
  case (begins l)
  then show ?case using frozen.R_refl by simp
next
  case (continues l1 l2 l3)
  then have two: "\<not> lf_open l2" "frozen (pr_indexer (lf_process l1)) (pr_indexer (lf_process l2))"
    "length (pr_polls (lf_process l2)) = length (pr_polls (lf_process l1))" by simp_all
  have "\<not> lf_open l3 \<and> frozen (pr_indexer (lf_process l2)) (pr_indexer (lf_process l3))
    \<and> length (pr_polls (lf_process l3)) = length (pr_polls (lf_process l2))"
    using continues.hyps(2)
  proof cases
    case signal
    then show ?thesis using signal_view [of pf er l2] by (simp add: frozen_def)
  next
    case (drains p)
    then show ?thesis using closed_step_frozen two(1) by simp
  qed (use two frozen.R_refl in auto)
  then show ?case using two frozen.R_trans by metis
qed

section \<open>The guarantee of the cache over the whole life\<close>

lemma caught_up_frozen: "caught_up_with k chain_at w s \<Longrightarrow> frozen s s' \<Longrightarrow> caught_up_with k chain_at w s'"
  by (auto simp: caught_up_with_def frozen_def)

lemma lifetime_ok:
  assumes chain: "indexer_chain (pf_env pf) enc chain_at latest_at"
    and run: "lifetime_run pf er l l'" and ok: "process_ok enc chain_at latest_at (pf_env pf) (lf_process l)"
  shows "(lf_open l' \<longrightarrow> process_ok enc chain_at latest_at (pf_env pf) (lf_process l'))
    \<and> (\<exists>w. caught_up_with (env_contract_id (pf_env pf)) chain_at w (pr_indexer (lf_process l')))
    \<and> cache_grows (cache (pr_indexer (lf_process l))) (cache (pr_indexer (lf_process l')))"
  using run ok
proof (induction rule: lifetime_run.induct)
  case (begins l)
  then show ?case by (auto simp: process_ok_def cache_grows_def)
next
  case (continues l1 l2 l3)
  let ?s2 = "pr_indexer (lf_process l2)" and ?s3 = "pr_indexer (lf_process l3)"
  obtain w where two: "lf_open l2 \<longrightarrow> process_ok enc chain_at latest_at (pf_env pf) (lf_process l2)"
    "caught_up_with (env_contract_id (pf_env pf)) chain_at w ?s2" "cache_grows (cache (pr_indexer (lf_process l1))) (cache ?s2)"
    using continues by blast
  have frozen: "?case" if "\<not> lf_open l3" "frozen ?s2 ?s3"
    using that two(3) caught_up_frozen [OF two(2) that(2)] by (auto simp: frozen_def)
  from continues.hyps(2) show ?case
  proof cases
    case (works p)
    then have "process_ok enc chain_at latest_at (pf_env pf) p" "cache_grows (cache ?s2) (cache (pr_indexer p))"
      using two process_step_ok [OF chain] process_step_grows by blast+
    then show ?thesis using works two cache_grows_trans by (fastforce simp: process_ok_def)
  next
    case signal
    then show ?thesis using signal_view [of pf er l2] by (intro frozen) (simp_all add: frozen_def)
  next
    case (drains p)
    then show ?thesis using closed_step_frozen [OF drains(4)] by (intro frozen) simp_all
  next
    case exits
    then show ?thesis using frozen.R_refl by (intro frozen) simp_all
  qed
qed

end
