(* ===== verification/Shutdown_Properties.thy ===== *)
theory Shutdown_Properties
  imports Shutdown Process_Properties
begin

text \<open>
  The properties of the process over its whole life: the guarantee of the cache under any
  interleaving, before and after a signal, and how a shutdown can end.
\<close>

section \<open>Everything at once\<close>

text \<open>C7. The guarantees of the cache hold over the whole life of the process: however polls, posted
  readings, reading requests (each from one await to the next), sockets and signals take turns, and
  whatever is still in flight when the store is closed, the watermark stays a ledger up to which
  every \<open>meter\<close> event is cached, every row records an event of the chain, no event is stored
  twice, and neither a row nor a pending reading is ever changed or lost.\<close>

theorem service_keeps_cache:
  fixes l l' :: "('x, 'n, 'p, 'l) lifetime"
  assumes "indexer_chain (pf_env pf) enc chain_at latest_at"
    and "caught_up_with (env_contract_id (pf_env pf)) chain_at w (pr_indexer (lf_process l))" and "pr_polls (lf_process l) = []"
    and "events_unique (cache (pr_indexer (lf_process l)))" and "lifetime_run pf er l l'"
  defines "c \<equiv> cache (pr_indexer (lf_process l))" and "s' \<equiv> pr_indexer (lf_process l')"
  shows "(\<exists>w'. caught_up_with (env_contract_id (pf_env pf)) chain_at w' s') \<and> events_unique (cache s')
    \<and> prefix (meter_events c) (meter_events (cache s')) \<and> prefix (pending_readings c) (pending_readings (cache s'))"
proof -
  have "process_ok enc chain_at latest_at (pf_env pf) (lf_process l)" using assms(2,3) by (auto simp: process_ok_def)
  from lifetime_ok [OF assms(1,5) this] assms(4) show ?thesis by (simp add: c_def s'_def cache_grows_def)
qed

section \<open>Shutdown\<close>


text \<open>A process that has died is never one that exits.\<close>

lemma dead_never_exits:
  assumes "lifetime_run pf er l l'" and "\<not> pr_alive (lf_process l)"
  shows "l' = l"
  using assms
proof (induction rule: lifetime_run.induct)
  case (continues l1 l2 l3)
  then have "l2 = l1" by simp
  with continues.hyps(2) continues.prems show ?case
    by cases (auto elim: process_step.cases closed_step.cases)
qed simp


text \<open>So does a reading request that was in flight when the store was closed, at its next query.\<close>

theorem in_flight_read_ends_process:
  fixes l :: "('x, 'n, 'p, 'l) lifetime"
  defines "p \<equiv> lf_process l"
  assumes "\<not> lf_open l" and "\<not> lf_exited l" and "pr_alive p" and "i < length (pr_gets p)"
    and "pr_gets p ! i \<in> {Asked a, SecondQuery a rows}"
  shows "lifetime_run pf er l (l\<lparr>lf_process := step_get_closed (not_open er) i p\<rparr>)
    \<and> (\<forall>l'. lifetime_run pf er (l\<lparr>lf_process := step_get_closed (not_open er) i p\<rparr>) l' \<longrightarrow> \<not> lf_exited l')"
proof
  let ?l = "l\<lparr>lf_process := step_get_closed (not_open er) i p\<rparr>"
  have "lifetime_step pf er l ?l"
    using assms(2-5) unfolding p_def by (intro lifetime_step.drains closed_step.reading)
  then show "lifetime_run pf er l ?l" by (rule lifetime_run.continues [OF lifetime_run.begins])
  have "\<not> pr_alive (lf_process ?l)" using assms(6) by (auto simp: step_get_closed_def)
  then show "\<forall>l'. lifetime_run pf er ?l l' \<longrightarrow> \<not> lf_exited l'"
    using dead_never_exits assms(3) by fastforce
qed

text \<open>A second signal does no harm on SQLite; on Postgres the pool refuses to end twice, and the
  process dies of the rejection.\<close>

theorem second_signal_by_dialect:
  "pr_alive (lf_process (on_signal pf er (on_signal pf er l))) \<longleftrightarrow> dialect (env_driver (pf_env pf)) = Sqlite"
  by (simp add: on_signal_def store_close_def Let_def split: dialect.split)

section \<open>A life\<close>

definition demo_life :: "(scval, string list, string, nat) lifetime" where
  "demo_life = \<lparr>lf_process = demo_process 0, lf_open = True, lf_exited = False\<rparr>"

definition demo_closing :: closing where
  "demo_closing = \<lparr>not_open = type_error ''The database connection is not open'',
     ended_twice = Exn ''Error'' ''Called end on pool more than once''\<rparr>"

text \<open>A poll starts, a signal arrives, and the poll ends at the closed store.\<close>

definition demo_polling :: "(scval, string list, string, nat) lifetime" where
  "demo_polling = demo_life\<lparr>lf_process := demo_process 0\<lparr>pr_polls := [Starting]\<rparr>\<rparr>"

lemma demo_polling_run: "lifetime_run demo_platform demo_closing demo_life demo_polling"
proof -
  have "polls_step (pf_env demo_platform) (pr_polls (demo_process 0), pr_indexer (demo_process 0)) ([] @ [Starting], demo_boot)"
    unfolding demo_process_def by (simp del: append_Nil add: polls_step.fires)
  then have "process_step demo_platform (demo_process 0) (demo_process 0\<lparr>pr_polls := [Starting], pr_indexer := demo_boot\<rparr>)"
    by (intro process_step.polls) (simp_all add: demo_process_def)
  moreover have "demo_process 0\<lparr>pr_polls := [Starting], pr_indexer := demo_boot\<rparr> = demo_process 0\<lparr>pr_polls := [Starting]\<rparr>"
    by (simp add: demo_process_def)
  ultimately have "lifetime_step demo_platform demo_closing demo_life demo_polling"
    unfolding demo_polling_def by (intro lifetime_step.works) (simp_all add: demo_life_def)
  then show ?thesis by (rule lifetime_run.continues [OF lifetime_run.begins])
qed


theorem service_keeps_cache_witness:
  "\<exists>l'. lifetime_run demo_platform demo_closing demo_life l' \<and> pr_polls (lf_process l') = [Starting]
    \<and> (\<exists>w'. caught_up_with ''C'' (\<lambda>t. demo_chain) w' (pr_indexer (lf_process l')))"
proof -
  have "\<exists>w'. caught_up_with ''C'' (\<lambda>t. demo_chain) w' (pr_indexer (lf_process demo_polling))"
    using service_keeps_cache [of demo_platform "\<lambda>v. v" "\<lambda>t. demo_chain" "\<lambda>t. 9" 0 demo_life demo_closing demo_polling]
      demo_polling_run demo_chain.indexer_chain_axioms demo_caught_up
    by (simp add: demo_platform_def demo_life_def demo_process_def events_unique_def demo_boot_cache)
  moreover have "pr_polls (lf_process demo_polling) = [Starting]" by (simp add: demo_polling_def)
  ultimately show ?thesis using demo_polling_run by blast
qed



end
