(* ===== verification/Emulator.thy ===== *)
theory Emulator
  imports Readings
begin

text \<open>
  The device emulator (\<open>emulator/client.py\<close>): a device that accumulates sensor values, signs a
  reading per round and posts it to the gateway. Python's floats are doubles, its integers
  unbounded. PyNaCl, the sine, the random draws, the clock and the network are parameters; a value
  of the clock or a draw is an input of the round.
\<close>

section \<open>Python's numbers\<close>

definition fl :: "rat \<Rightarrow> js_number" where
  "fl q = to_double q"

definition py_mul :: "js_number \<Rightarrow> js_number \<Rightarrow> js_number" where
  "py_mul x y = (case (x, y) of
       (Fin a, Fin b) \<Rightarrow> to_double (a * b)
     | _ \<Rightarrow> if x = NaN \<or> y = NaN \<or> x = Fin 0 \<or> y = Fin 0 then NaN
        else if js_less x (Fin 0) = js_less y (Fin 0) then PosInf else NegInf)"

definition py_div :: "js_number \<Rightarrow> js_number \<Rightarrow> exn + js_number" where
  "py_div x y = (if y = Fin 0 then Inl (Exn ''ZeroDivisionError'' ''float division by zero'')
     else Inr (case (x, y) of
         (Fin a, Fin b) \<Rightarrow> to_double (a / b)
       | (Fin a, PosInf) \<Rightarrow> Fin 0
       | (Fin a, NegInf) \<Rightarrow> Fin 0
       | (NaN, _) \<Rightarrow> NaN
       | (_, NaN) \<Rightarrow> NaN
       | (_, Fin b) \<Rightarrow> if js_less x (Fin 0) = js_less y (Fin 0) then PosInf else NegInf
       | _ \<Rightarrow> NaN))"

text \<open>\<open>int(x)\<close> truncates; \<open>max(a, b)\<close> is \<open>a\<close> unless \<open>b\<close> is greater.\<close>

definition py_int :: "js_number \<Rightarrow> exn + int" where
  "py_int x = (case x of
       Fin q \<Rightarrow> Inr (if 0 \<le> q then \<lfloor>q\<rfloor> else \<lceil>q\<rceil>)
     | NaN \<Rightarrow> Inl (Exn ''ValueError'' ''cannot convert float NaN to integer'')
     | _ \<Rightarrow> Inl (Exn ''OverflowError'' ''cannot convert float infinity to integer''))"

definition py_max :: "js_number \<Rightarrow> js_number \<Rightarrow> js_number" where
  "py_max a b = (if js_less a b then b else a)"

text \<open>\<open>n.to_bytes(8, 'big')\<close> and \<open>bytes.hex\<close>.\<close>

definition to_bytes8 :: "int \<Rightarrow> exn + byte list" where
  "to_bytes8 n =
     (if n < 0 then Inl (Exn ''OverflowError'' ''can't convert negative int to unsigned'')
      else if 2 ^ 64 \<le> n then Inl (Exn ''OverflowError'' ''int too big to convert'')
      else Inr (u64_to_be_bytes (of_int n)))"

definition hex_char :: "nat \<Rightarrow> char" where
  "hex_char n = ''0123456789abcdef'' ! n"

definition py_hex :: "byte list \<Rightarrow> string" where
  "py_hex bs = concat (map (\<lambda>b. [hex_char (unat b div 16), hex_char (unat b mod 16)]) bs)"

section \<open>Profiles\<close>

record device_profile =
  device_type :: string
  interval_ms :: int
  base_delta :: js_number
  jitter :: js_number
  resolution :: js_number

definition PROFILES :: "string \<rightharpoonup> device_profile" where
  "PROFILES = [
     ''solar'' \<mapsto> \<lparr>device_type = ''solar'', interval_ms = 100, base_delta = fl (5 / 100), jitter = fl (3 / 100),
       resolution = fl (1 / 1000)\<rparr>,
     ''meter'' \<mapsto> \<lparr>device_type = ''meter'', interval_ms = 1000, base_delta = fl (1 / 1000), jitter = fl (5 / 10000),
       resolution = fl 1\<rparr>,
     ''generic'' \<mapsto> \<lparr>device_type = ''generic'', interval_ms = 500, base_delta = fl 1, jitter = fl (1 / 2),
       resolution = fl 1\<rparr>]"

text \<open>\<open>u\<close> is the draw of \<open>random.uniform(-jitter, jitter)\<close>.\<close>

definition compute_delta :: "(js_number \<Rightarrow> js_number) \<Rightarrow> device_profile \<Rightarrow> js_number \<Rightarrow> js_number \<Rightarrow> js_number" where
  "compute_delta sine profile t u =
     (let envelope = js_add (fl 1) (py_mul (fl (1 / 2)) (sine (case py_div t (fl 10) of Inr x \<Rightarrow> x | Inl _ \<Rightarrow> NaN)))
      in py_max (resolution profile) (js_add (py_mul (base_delta profile) envelope) u))"

section \<open>Signing\<close>

record 'k nacl =
  verify_key :: "'k \<Rightarrow> byte list"
  sign_bytes :: "'k \<Rightarrow> byte list \<Rightarrow> byte list"

definition emulator_domain :: "byte list" where
  "emulator_domain = bytes_of_string ''iot-billing-v1''"

definition sign_payload :: "'k nacl \<Rightarrow> 'k \<Rightarrow> int \<Rightarrow> int \<Rightarrow> int \<Rightarrow> exn + byte list \<times> string" where
  "sign_payload nacl sk q delta_units ts =
     (let pubkey = verify_key nacl sk in
      bindE (to_bytes8 q) (\<lambda>qb.
      bindE (to_bytes8 delta_units) (\<lambda>ub.
      bindE (to_bytes8 ts) (\<lambda>tb.
        Inr (pubkey, py_hex (sign_bytes nacl sk (emulator_domain @ pubkey @ qb @ ub @ tb)))))))"

section \<open>The device\<close>

record 'k emulated_device =
  ed_profile :: device_profile
  ed_device_key :: string
  ed_endpoint :: "string option"
  ed_signer :: 'k
  ed_seq :: int
  ed_cumulative :: js_number
  ed_started :: js_number

record payload =
  pl_device_id :: string
  pl_device_pubkey :: string
  pl_device_type :: string
  pl_seq :: int
  pl_delta_units :: int
  pl_cumulative_units :: int
  pl_timestamp_ms :: int
  pl_signature :: string

text \<open>The inputs of a round: \<open>time.time()\<close> twice, and the draw.\<close>

record emission =
  clock1 :: js_number
  draw :: js_number
  clock2 :: js_number

definition accumulated_ticks :: "'k emulated_device \<Rightarrow> js_number \<Rightarrow> exn + int" where
  "accumulated_ticks d v =
     bindE (py_div v (resolution (ed_profile d))) (\<lambda>r. bindE (py_int r) (\<lambda>ticks. Inr (max 1 ticks)))"

definition emit :: "'k nacl \<Rightarrow> (js_number \<Rightarrow> js_number) \<Rightarrow> emission \<Rightarrow> ('k emulated_device, payload) js" where
  "emit nacl sine e =
     js_bind (js_read (\<lambda>d. compute_delta sine (ed_profile d) (js_add (clock1 e) (js_negate (ed_started d))) (draw e))) (\<lambda>v.
     js_bind (js_modify (\<lambda>d. d\<lparr>ed_cumulative := js_add (ed_cumulative d) v\<rparr>)) (\<lambda>_.
     js_bind (js_read (\<lambda>d. accumulated_ticks d v)) (\<lambda>ticks.
     js_bind (js_lift ticks) (\<lambda>delta_units.
     js_bind (js_lift (py_int (py_mul (clock2 e) (fl 1000)))) (\<lambda>ts.
     js_bind (js_modify (\<lambda>d. d\<lparr>ed_seq := ed_seq d + 1\<rparr>)) (\<lambda>_.
     js_bind (js_read (\<lambda>d. d)) (\<lambda>d.
     js_bind (js_lift (sign_payload nacl (ed_signer d) (ed_seq d) delta_units ts)) (\<lambda>(pubkey, signature).
     js_bind (js_lift (py_int (ed_cumulative d))) (\<lambda>cumulative.
     js_return \<lparr>pl_device_id = ed_device_key d, pl_device_pubkey = py_hex pubkey,
       pl_device_type = device_type (ed_profile d), pl_seq = ed_seq d, pl_delta_units = delta_units,
       pl_cumulative_units = cumulative, pl_timestamp_ms = ts, pl_signature = signature\<rparr>)))))))))"

text \<open>The body of the request, as the gateway parses it.\<close>

definition payload_json :: "payload \<Rightarrow> 'x jsval" where
  "payload_json p = Obj [(''device_id'', Str (pl_device_id p)), (''device_pubkey'', Str (pl_device_pubkey p)),
     (''device_type'', Str (pl_device_type p)), (''seq'', Num (number_of_int (pl_seq p))),
     (''delta_units'', Num (number_of_int (pl_delta_units p))),
     (''cumulative_units'', Num (number_of_int (pl_cumulative_units p))),
     (''timestamp_ms'', Num (number_of_int (pl_timestamp_ms p))), (''signature'', Str (pl_signature p))]"

section \<open>The stream\<close>

text \<open>
  The network's answer to a post is a status, or an exception (which \<open>urlopen\<close> also raises for
  an error status); \<open>dumps\<close> is \<open>json.dumps\<close>. The world is what a post changes, and what was printed.
\<close>

definition deliver ::
    "(string \<Rightarrow> payload \<Rightarrow> 'w \<Rightarrow> (exn + nat) \<times> 'w) \<Rightarrow> (payload \<Rightarrow> string) \<Rightarrow> string option \<Rightarrow> payload \<Rightarrow>
     'w \<times> string list \<Rightarrow> 'w \<times> string list" where
  "deliver post dumps endpoint p ws =
     (case ws of (w, out) \<Rightarrow>
       if endpoint = None \<or> endpoint = Some [] then (w, out @ [dumps p])
       else (case post (the endpoint) p w of
           (Inr status, w') \<Rightarrow> (w', out @ [''[client] POST '' @ the endpoint @ '' -> '' @ dec_int (int status)])
         | (Inl err, w') \<Rightarrow> (w', out @ [''[client] delivery failed: '' @ exn_message err])))"

text \<open>The loop, for the rounds whose inputs are given; an exception of \<open>emit\<close> ends it.\<close>

fun stream ::
    "'k nacl \<Rightarrow> (js_number \<Rightarrow> js_number) \<Rightarrow> (string \<Rightarrow> payload \<Rightarrow> 'w \<Rightarrow> (exn + nat) \<times> 'w) \<Rightarrow> (payload \<Rightarrow> string) \<Rightarrow>
     emission list \<Rightarrow> 'k emulated_device \<Rightarrow> 'w \<times> string list \<Rightarrow> (exn + unit) \<times> 'k emulated_device \<times> 'w \<times> string list" where
  "stream nacl sine post dumps [] d ws = (Inr (), d, ws)"
| "stream nacl sine post dumps (e # es) d ws =
     (case emit nacl sine e d of
        (Inl x, d') \<Rightarrow> (Inl x, d', ws)
      | (Inr p, d') \<Rightarrow> stream nacl sine post dumps es d' (deliver post dumps (ed_endpoint d') p ws))"

text \<open>\<open>main\<close>: the profile as the arguments change it, and a new device.\<close>

definition emulator_profile ::
    "string \<Rightarrow> js_number \<Rightarrow> int option \<Rightarrow> js_number option \<Rightarrow> device_profile option" where
  "emulator_profile typ rate interval res =
     map_option (\<lambda>p.
       let p1 = (case interval of Some i \<Rightarrow> if i \<noteq> 0 then p\<lparr>interval_ms := i\<rparr> else p | None \<Rightarrow> p);
           p2 = (case res of Some r \<Rightarrow> if r \<noteq> Fin 0 then p1\<lparr>resolution := r\<rparr> else p1 | None \<Rightarrow> p1)
       in p2\<lparr>base_delta := rate\<rparr>) (PROFILES typ)"

definition new_device :: "device_profile \<Rightarrow> string \<Rightarrow> string option \<Rightarrow> 'k \<Rightarrow> js_number \<Rightarrow> 'k emulated_device" where
  "new_device profile key endpoint sk now = \<lparr>ed_profile = profile, ed_device_key = key, ed_endpoint = endpoint,
     ed_signer = sk, ed_seq = 0, ed_cumulative = Fin 0, ed_started = now\<rparr>"

section \<open>What a reading is\<close>

text \<open>The three programs sign and check the same payload.\<close>

lemma hex_char_digit: "n < 16 \<Longrightarrow> hex_digit (hex_char n) = Some n"
proof -
  have "\<forall>n\<in>set [0..<16]. hex_digit (hex_char n) = Some n"
    by (simp add: upt_rec hex_char_def hex_digit_def radix_digit_def del: set_upt)
  then show "n < 16 \<Longrightarrow> hex_digit (hex_char n) = Some n" by simp
qed

lemma hex_decode_py_hex: "hex_decode (py_hex bs) = bs"
proof (induction bs)
  case (Cons b bs)
  have "unat b < 256" using unsigned_less [of b, where ?'a = nat] by simp
  then have "unat b div 16 < 16" "16 * (unat b div 16) + unat b mod 16 = unat b" by simp_all
  moreover have "unat b mod 16 < 16" by simp
  ultimately show ?case using Cons.IH by (simp add: py_hex_def hex_char_digit)
qed (simp add: py_hex_def)

lemma sign_payload_Inr:
  "sign_payload nacl sk q u t = Inr r \<longleftrightarrow>
    0 \<le> q \<and> q < 2 ^ 64 \<and> 0 \<le> u \<and> u < 2 ^ 64 \<and> 0 \<le> t \<and> t < 2 ^ 64
    \<and> r = (verify_key nacl sk, py_hex (sign_bytes nacl sk (signed_payload (verify_key nacl sk) (of_int q) (of_int u) (of_int t))))"
  by (auto simp: sign_payload_def Let_def to_bytes8_def signed_payload_def emulator_domain_def bindE_Inr_iff)

text \<open>A round that does not raise counts on by one, and reports at least one unit.\<close>

lemma emit_facts:
  assumes "emit nacl sine e d = (Inr p, d')"
  shows "pl_seq p = ed_seq d + 1" and "0 \<le> pl_seq p" and "pl_seq p < 2 ^ 64"
    and "1 \<le> pl_delta_units p" and "pl_delta_units p < 2 ^ 64"
    and "0 \<le> pl_timestamp_ms p" and "pl_timestamp_ms p < 2 ^ 64"
    and "pl_device_pubkey p = py_hex (verify_key nacl (ed_signer d))"
    and "pl_signature p = py_hex (sign_bytes nacl (ed_signer d) (signed_payload (verify_key nacl (ed_signer d))
         (of_int (pl_seq p)) (of_int (pl_delta_units p)) (of_int (pl_timestamp_ms p))))"
    and "d' = d\<lparr>ed_cumulative := ed_cumulative d', ed_seq := pl_seq p\<rparr>"
  using assms
  by (auto simp: emit_def js_bind_def js_simps sign_payload_Inr accumulated_ticks_def bindE_Inr_iff
      split: prod.splits sum.splits)

end
