(* ===== verification/Deployment.thy ===== *)
theory Deployment
  imports Process Emulator
begin

text \<open>
  The process definitions of PM2 (\<open>ecosystem.config.cjs\<close>): the environment the backend is started
  with and the arguments of the emulator.
\<close>

record pm2_app =
  app_name :: string
  app_cwd :: string
  app_script :: string
  app_interpreter :: string
  app_args :: "string list"
  app_env :: "(string \<times> string) list"
  app_autostart :: bool

definition pm2_apps :: "pm2_app list" where
  "pm2_apps = [
     \<lparr>app_name = ''iot-billing-backend'', app_cwd = ''./backend'', app_script = ''src/index.js'', app_interpreter = ''node'',
       app_args = [], app_env = [(''NODE_ENV'', ''production'')], app_autostart = True\<rparr>,
     \<lparr>app_name = ''iot-device-emulator'', app_cwd = ''./emulator'', app_script = ''client.py'', app_interpreter = ''python3'',
       app_args = [''--type'', ''meter'', ''--device-key'', ''demo_meter'', ''--endpoint'', ''http://127.0.0.1:8080/api/readings''],
       app_env = [], app_autostart = False\<rparr>]"

text \<open>The environment of an application, over what the shell and a \<open>.env\<close> file provide.\<close>

definition app_environment :: "pm2_app \<Rightarrow> (string \<rightharpoonup> string) \<Rightarrow> (string \<rightharpoonup> string)" where
  "app_environment app base = base ++ map_of (app_env app)"

lemma post_without_contract:
  assumes "cfg_contract_id cfg = []"
  shows "gw_net (snd (post_reading node sdk drv cfg now body g)) = gw_net g"
  by (cases rule: post_reading_cases [where 'p = 'c, of node drv cfg now body g])
    (auto simp: assms accept_reading_def on_db_def js_bind_def js_return_def Let_def split: sum.split prod.split)

end
