(* ===== verification/Dashboard_Properties.thy ===== *)
theory Dashboard_Properties
  imports Dashboard Deployment Process_Properties Frontend_Properties
begin

text \<open>
  The properties of the shell around the service: the pages it serves, the sockets its dashboard
  opens, and what it does as deployed.
\<close>

section \<open>Pages\<close>

text \<open>Every link of the dashboard can be loaded from the backend: with the built files in place and no
  file of that name, a request for a linked path gets the page whose router shows it, past all
  routes of the API; and no path of the API client is ever answered with that page, or kept from
  the backend by the development server.\<close>

theorem dashboard_pages_served:
  assumes "(path, title) \<in> set nav_links" and "rq_method rq = ''GET''" and "rq_path rq = path"
    and "cors_check (allowed_origins (Some (corsOrigin c))) (rq_origin rq) = Inr ()" and "\<not> preflight pk rq"
    and "parse_body pk rq = Inr b" and "\<not> under pk ''/api/readings'' path"
    and "\<forall>pattern\<in>{''/health'', ''/api/devices/:id/metrics'', ''/api/devices/:id/balance'', ''/api/devices''}.
      route_params pk pattern path = None"
    and "frontendDist c \<noteq> []" and "dir_exists pk (frontendDist c)"
    and "static_file pk (frontendDist c) (rq\<lparr>rq_body := b\<rparr>) = None"
  shows "page_at path \<noteq> None \<and> handle_request pk node sdk drv (Some c) now rq s = (Inr (index_page pk (frontendDist c)), s)
    \<and> (\<forall>q. \<not> spa_route (api_url None @ q) \<and> proxied (api_url None @ q) = Some ''http://localhost:8080'')"
proof (intro conjI allI)
  show "page_at path \<noteq> None" using assms(1) by (auto simp: nav_links_def page_at_def app_routes_def)
  have "spa_route path" using assms(1) by (auto simp: nav_links_def spa_route_def)
  then show "handle_request pk node sdk drv (Some c) now rq s = (Inr (index_page pk (frontendDist c)), s)"
    using assms
    by (simp add: app_defs frontend_answer_def js_bind_def js_return_def)
qed (simp_all add: spa_route_def api_url_def proxied_def vite_proxy_def)

theorem dashboard_pages_served_witness:
  "fst (handle_request demo_packages demo_node demo_stellar (demo_driver Sqlite) (Some demo_config) []
     (demo_request ''GET'' ''/live'' Undef []) (pr_site (demo_process 0))) = Inr \<lparr>reply_status = 200, reply_body = Str ''index.html''\<rparr>"
  using dashboard_pages_served [where path = "''/live''" and title = "''Live Telemetry''" and pk = demo_packages and c = demo_config
      and rq = "demo_request ''GET'' ''/live'' Undef []" and b = "demo_body Null" and node = demo_node and sdk = demo_stellar
      and drv = "demo_driver Sqlite" and now = "[]" and s = "pr_site (demo_process 0)"]
  by (simp add: demo_request_def demo_packages_def nav_links_def cors_check_def demo_config_def read_config_def env_or_def)

section \<open>Sockets\<close>

text \<open>The dashboard never leaks a socket: in any life of the component, however often its device
  changes, at most one of the sockets it opened is open, and none once it is unmounted.\<close>

theorem one_socket_open:
  assumes "lifecycle False es"
  shows "let h = fold (hook_step set_device parse bus vite) es fresh_hook in
    card (open_sockets h) \<le> 1 \<and> (mounted_after False es \<or> open_sockets h = {})"
proof -
  let ?h = "fold (hook_step set_device parse bus vite) es fresh_hook"
  have "hook_ok (mounted_after False es) ?h"
    by (rule hook_run_ok [OF assms]) (simp add: hook_ok_def fresh_hook_def open_sockets_def)
  then have sub: "open_sockets ?h \<subseteq> set_option (th_current ?h)" "mounted_after False es \<or> open_sockets ?h = {}"
    by (auto simp: hook_ok_def split: if_splits)
  have "card (set_option (th_current ?h)) \<le> 1" by (cases "th_current ?h") simp_all
  then have "card (open_sockets ?h) \<le> 1" using card_mono [OF _ sub(1)] by fastforce
  with sub(2) show ?thesis by (simp add: Let_def)
qed

theorem one_socket_open_witness:
  "open_sockets (fold (hook_step (\<lambda>b d. Inr b) demo_parse None None) [Mount None, Change (Some ''D''), Unmount] fresh_hook) = {}"
  using one_socket_open [of "[Mount None, Change (Some ''D''), Unmount]" "\<lambda>b d. Inr b" demo_parse None None]
  by (simp add: Let_def)

section \<open>Deployment\<close>

text \<open>Without a contract address the service is idle: no poll is ever scheduled, and whatever is posted
  to the gateway, it never talks to the network. PM2 starts it so, unless its surroundings name a
  contract.\<close>

theorem unconfigured_service_idle:
  assumes "env ''CONTRACT_ID'' \<in> {None, Some []}"
  shows "\<not> pollEnabled (read_config env)
    \<and> (case boot (service_env (read_config env) sdk drv server clock stringify) s of
        (started, i) \<Rightarrow> \<not> started \<and> timer i = None \<and> intervals i = [])
    \<and> gw_net (snd (post_reading node stellar drv (gateway_config_of (read_config env)) now body g)) = gw_net g"
proof -
  have id: "contractId (read_config env) = []" using assms by (auto simp: read_config_def env_or_def)
  then show ?thesis
    by (simp add: pollEnabled_def boot_def start_def service_env_def console_line_def post_without_contract gateway_config_of_def)
qed

theorem unconfigured_service_idle_witness:
  "\<not> pollEnabled (read_config (app_environment (hd pm2_apps) Map.empty))"
  by (rule unconfigured_service_idle [THEN conjunct1]) (simp add: app_environment_def pm2_apps_def)

end
