(* ===== verification/Emulator_Properties.thy ===== *)
theory Emulator_Properties
  imports Emulator Gateway_Properties
begin

text \<open>
  The emulated device against the gateway and the contract: what it signs both accept, and what
  one lost reading does to the readings after it.
\<close>

section \<open>From the device to the bill\<close>

lemma unat_of_int_u64: "0 \<le> n \<Longrightarrow> n < 2 ^ 64 \<Longrightarrow> int (unat (of_int n :: u64)) = n"
  by (simp add: unsigned_of_int take_bit_int_eq_self)





section \<open>A lost reading\<close>

lemma submit_needs_exact_seq:
  assumes "submit_reading net tx dev u q t sig st = Inr r"
  shows "unat q = Suc (unat (last_seq (rdg_of (persistent st) dev)))"
proof -
  obtain c st' where "submit_reading net tx dev u q t sig st = Inr (c, st')" using assms by (cases r) simp
  then show ?thesis by (cases rule: submit_reading_cases) (auto dest: u64_checked_add_exact)
qed

text \<open>The call the gateway relays for a reading.\<close>

definition reading_call :: "address \<Rightarrow> payload \<Rightarrow> call" where
  "reading_call dev p = Submit_Reading dev (of_int (pl_delta_units p)) (of_int (pl_seq p)) (of_int (pl_timestamp_ms p))
     (hex_decode (pl_signature p))"

lemma ahead_rejected:
  assumes "int (unat (last_seq (rdg_of (persistent st) dev))) + 1 < pl_seq p" and "pl_seq p < 2 ^ 64"
  shows "exec net tx (reading_call dev p) st = st"
proof -
  have seq: "int (unat (of_int (pl_seq p) :: u64)) = pl_seq p"
  proof (rule unat_of_int_u64)
    show "0 \<le> pl_seq p" using assms(1) by linarith
  qed (rule assms(2))
  have "submit_reading net tx dev u (of_int (pl_seq p)) t sig st \<noteq> Inr r" for u t sig r
    using submit_needs_exact_seq [of net tx dev u "of_int (pl_seq p)" t sig st r] seq assms(1) by linarith
  then show ?thesis
    unfolding reading_call_def exec.simps commit_def by (metis (no_types, lifting) old.sum.simps(5) sumE)
qed

lemma deliver_world:
  assumes "\<And>url. snd (post url p w) = w"
  shows "fst (deliver post dumps endpoint p (w, out)) = w"
proof -
  obtain r w' where r: "post (the endpoint) p w = (r, w')" by fastforce
  with assms [of "the endpoint"] have "w' = w" by simp
  with r show ?thesis by (simp add: deliver_def split: sum.split)
qed

text \<open>C20. One lost reading silences the device: the emulator counts a reading that did not arrive, so
  once its counter is ahead of the contract's, the contract refuses every later reading of the
  stream, however long it goes on and however the posts are answered; the emulator only prints.\<close>

theorem lost_reading_blocks_device:
  assumes post: "\<And>url p st. snd (post url p st) \<in> {st, exec net tx (reading_call dev p) st}"
    and gap: "int (unat (last_seq (rdg_of (persistent st) dev))) < ed_seq d"
    and run: "stream nacl sine post dumps es d (st, out) = (r, d', st', out')"
  shows "st' = st"
  using gap run
proof (induction es arbitrary: d out)
  case (Cons e es)
  obtain x d1 where emits: "emit nacl sine e d = (x, d1)" by fastforce
  show ?case
  proof (cases x)
    case (Inl err)
    then show ?thesis using Cons.prems(2) emits by simp
  next
    case (Inr p)
    note facts = emit_facts [OF emits [unfolded Inr]]
    have "snd (post url p st) = st" for url
      using post [of url p st] ahead_rejected [of st dev p net tx] Cons.prems(1) facts(1,3) by auto
    then obtain out1 where "deliver post dumps (ed_endpoint d1) p (st, out) = (st, out1)"
      using deliver_world [of post p st dumps "ed_endpoint d1" out] by (metis prod.collapse)
    moreover have "ed_seq d1 = pl_seq p" by (subst facts(10)) simp
    ultimately show ?thesis
      using Cons.IH [of d1 out1] Cons.prems emits Inr facts(1) by simp
  qed
qed simp

section \<open>A device\<close>

definition demo_nacl :: "unit nacl" where
  "demo_nacl = \<lparr>verify_key = (\<lambda>k. demo_key), sign_bytes = (\<lambda>k m. take 64 m)\<rparr>"

definition demo_device :: "int \<Rightarrow> unit emulated_device" where
  "demo_device n = (new_device (the (emulator_profile ''generic'' (Fin 1) None None)) ''demo'' (Some ''u'') () (Fin 0))\<lparr>ed_seq := n\<rparr>"

definition demo_round :: emission where
  "demo_round = \<lparr>clock1 = Fin 0, draw = Fin 0, clock2 = Fin 1\<rparr>"

lemma doubles: "to_double 0 = Fin 0" "to_double 1 = Fin 1" "to_double 1000 = Fin 1000"
  using number_of_int_exact [of 0] number_of_int_exact [of 1] number_of_int_exact [of 1000]
  by (simp_all add: number_of_int_def)

lemma half: "to_double (1 / 2) = Fin (1 / 2)"
  by code_simp

lemma demo_profile: "emulator_profile ''generic'' (Fin 1) None None =
    Some \<lparr>device_type = ''generic'', interval_ms = 500, base_delta = Fin 1, jitter = Fin (1 / 2), resolution = Fin 1\<rparr>"
  by (simp add: emulator_profile_def PROFILES_def fl_def doubles half)

definition demo_payload :: "int \<Rightarrow> payload" where
  "demo_payload n = \<lparr>pl_device_id = ''demo'', pl_device_pubkey = py_hex demo_key, pl_device_type = ''generic'',
     pl_seq = n + 1, pl_delta_units = 1, pl_cumulative_units = 1, pl_timestamp_ms = 1000,
     pl_signature = py_hex (take 64 (signed_payload demo_key (of_int (n + 1)) 1 1000))\<rparr>"

lemma demo_emit:
  assumes "n = 0 \<or> n = 1"
  shows "\<exists>d'. emit demo_nacl (\<lambda>x. Fin 0) demo_round (demo_device n) = (Inr (demo_payload n), d') \<and> ed_seq d' = n + 1"
proof -
  have val: "compute_delta (\<lambda>x. Fin 0) (ed_profile (demo_device n)) t (Fin 0) = Fin 1" for t
    by (simp add: demo_device_def demo_profile new_device_def compute_delta_def Let_def fl_def doubles half py_mul_def py_max_def)
  have ticks: "accumulated_ticks (demo_device n\<lparr>ed_cumulative := c\<rparr>) (Fin 1) = Inr 1" for c
    by (simp add: accumulated_ticks_def demo_device_def demo_profile new_device_def py_div_def py_int_def doubles)
  have sign: "sign_payload demo_nacl k (n + 1) 1 1000 =
      Inr (demo_key, py_hex (take 64 (signed_payload demo_key (of_int (n + 1)) 1 1000)))" for k
    using assms by (subst sign_payload_Inr) (auto simp: demo_nacl_def)
  have start: "ed_started (demo_device n) = Fin 0" "ed_cumulative (demo_device n) = Fin 0" "ed_seq (demo_device n) = n"
    "ed_device_key (demo_device n) = ''demo''" "device_type (ed_profile (demo_device n)) = ''generic''"
    by (simp_all add: demo_device_def demo_profile new_device_def)
  show ?thesis
    by (simp add: emit_def js_bind_def js_simps val ticks start demo_round_def demo_payload_def sign py_mul_def py_int_def fl_def doubles)
qed


theorem lost_reading_blocks_device_witness:
  "\<exists>r d' out'. stream demo_nacl (\<lambda>x. Fin 0) (\<lambda>url p st. (Inr 200, exec demo_net demo_tx (reading_call ''D'' p) st)) (\<lambda>p. [])
      [demo_round] (demo_device 1) (demo_funded, []) = (r, d', demo_funded, out') \<and> ed_seq d' = 2"
proof -
  let ?run = "stream demo_nacl (\<lambda>x. Fin 0) (\<lambda>url p st. (Inr 200, exec demo_net demo_tx (reading_call ''D'' p) st)) (\<lambda>p. [])
      [demo_round] (demo_device 1) (demo_funded, [])"
  obtain r d' st' out' where run: "?run = (r, d', st', out')" by (metis prod_cases4)
  have "int (unat (last_seq (rdg_of (persistent demo_funded) ''D''))) < ed_seq (demo_device 1)"
    by (simp add: rdg_of_def demo_deposit_eval demo_device_def)
  from lost_reading_blocks_device [where net = demo_net and tx = demo_tx and dev = "''D''", OF _ this run] run
  have "?run = (r, d', demo_funded, out')" by simp
  moreover have "ed_seq d' = 2" using run demo_emit [of 1] by auto
  ultimately show ?thesis by blast
qed

end
