(* ===== verification/Spec2Isabelle.thy ===== *)
theory Spec2Isabelle
  imports Sql_Text Api_Overlap_Properties Interfaces App_Shell Table_Properties Gateway_Overlap_Properties Shutdown_Properties Dashboard_Properties Emulator_Properties
begin

text \<open>
  The IoT billing service: a verification development.

  \<^bold>\<open>The program.\<close> Devices sign meter readings. The gateway of the backend (\<open>backend/src/api/readings.js\<close>)
  checks a posted reading and its signature, relays it as a transaction to a Soroban contract
  (\<open>contracts/src\<close>) and records it as pending. The contract bills the reading against the device's
  deposit, credits the operator and publishes a \<open>meter\<close> event. The indexer
  (\<open>backend/src/indexer\<close>) polls the RPC server for these events, decodes them, stores them in a
  cache (\<open>backend/src/db/store.js\<close>, SQLite or Postgres) and hands each to the telemetry bus, which
  the WebSocket hub (\<open>backend/src/api/ws.js\<close>) subscribes to. The REST API
  (\<open>backend/src/api/server.js\<close>) answers from the cache; the dashboard (\<open>frontend/src\<close>) shows what
  the API and the live stream deliver. An emulator (\<open>emulator/client.py\<close>) plays the devices, and PM2
  starts the processes (\<open>ecosystem.config.cjs\<close>).

  \<^bold>\<open>Conventions.\<close> Each theory models the files named here, with the source's own names; a name
  that clashes with one of HOL is changed (\<open>device_line\<close>, \<open>balance_body\<close>). The
  contract's integers are words of their width with Rust's checked and saturating operations
  (\<open>Rust_Int\<close>). JavaScript values are the datatype \<open>jsval\<close> (\<open>Js_Value\<close>), numbers the exact integers
  up to \<open>2^53\<close>, NaN, the infinities and the rest as inexact (\<open>Js_Number\<close>). An exception is \<open>Inl\<close>,
  and an operation that changes a state returns it beside its result, also when it throws.

  \<^bold>\<open>The contract.\<close>
  \<^item> \<open>Prelude\<close>, \<open>Rust_Int\<close>, \<open>Bytes\<close>: shared lemmas; the integer types; the signed payload of
    \<open>storage.rs\<close> as bytes (locale \<open>fixed_codec\<close>).
  \<^item> \<open>Contract_Storage\<close>: \<open>types.rs\<close> and the typed accessors of \<open>storage.rs\<close>. \<open>Contract\<close>:
    \<open>verify_signature\<close> and the entry points of \<open>lib.rs\<close>, every check in its order. An invocation that
    fails is rolled back by the host.
  \<^item> \<open>Contract_Effects\<close>: what each accessor and entry point reads and changes (locale
    \<open>typed_entry\<close>, interpreted for the five kinds of entries). \<open>Contract_System\<close>: invocations and the states
    reachable from a deployment (locale \<open>ledger_invariant\<close>, the induction over them).
    \<open>Contract_Ledger\<close>: the money invariants. \<open>Contract_History\<close>: the event log as the record of the
    storage. \<open>Billing_Spec\<close>: the abstract billing ledger over integers.
  \<^item> \<open>Contract_Properties\<close>: solvency, refinement of the billing ledger, the decision table of
    \<open>submit_reading\<close>, billing at most once, the log as the record of devices and operators, withdrawals.

  \<^bold>\<open>The backend.\<close>
  \<^item> \<open>Decode\<close>: \<open>decode.js\<close>; locale \<open>contract_values\<close> says how the SDK shows a value of the contract.
  \<^item> \<open>Store\<close>: \<open>store.js\<close>, the tables of both dialects, every statement and query. \<open>Sql_Text\<close>: the
    text of the statements with their placeholders and arguments. \<open>Store_Facts\<close>: what holds for
    every driver. \<open>Store_Driver\<close>: what the cache relies on of its driver (locales \<open>cache_driver\<close> and
    \<open>two_drivers\<close>), what the queries compute under it, and a driver of each dialect that keeps it.
  \<^item> \<open>Indexer\<close>: \<open>indexer.js\<close>. \<open>Indexer_Facts\<close>: what a poll keeps, for every relation its steps keep
    (locales \<open>respected\<close>, \<open>page_frame\<close>, \<open>poll_frame\<close>). \<open>Indexer_Chain\<close>, \<open>Indexer_Complete\<close>: polling a
    chain that grows behind a server that may fail (locales \<open>indexer_host\<close>, \<open>indexer_chain\<close>).
    \<open>Overlap\<close>: the polls the interval starts, each a machine cut at its awaits, interleaved over the
    shared state. \<open>Mirror\<close>: the cached rows against the contract's log.
  \<^item> \<open>Telemetry\<close>: \<open>TelemetryBus\<close> of \<open>server.js\<close>, \<open>ws.js\<close> and their wiring in \<open>index.js\<close>.
    \<open>Readings\<close>: \<open>readings.js\<close>. \<open>Gateway_Overlap\<close>: posted readings in flight together, each a machine
    cut at the handler's awaits. \<open>Api\<close>: the routes of \<open>server.js\<close>, and \<open>Api_Overlap\<close>: those that
    read the cache, cut at their awaits. \<open>Service\<close>: \<open>config.js\<close>, \<open>index.js\<close>,
    \<open>migrate.js\<close>. \<open>Demo_Service\<close>: a concrete service on which the locales are interpreted.
  \<^item> \<open>Http_App\<close>: \<open>createApi\<close> as the ordered layers of the Express application. \<open>Process\<close>: the running
    process of \<open>index.js\<close>, in which polls, posted readings, reading requests and sockets take turns over
    one cache, each from one of its awaits to the next (locale \<open>gateway_frame\<close>: what every request
    keeps). \<open>Shutdown\<close>: its life to the end, with signals, the closing of the store (\<open>close\<close> of \<open>store.js\<close>) and what is still in flight then.
  \<^item> \<open>Indexer_Properties\<close>, \<open>Overlap_Properties\<close>: no event is lost, polls end, a clean poll catches up,
    failures keep the watermark; and the two ways the indexer falls short (a poison event, a full page
    without a cursor). \<open>Store_Properties\<close>: both dialects answer alike, aggregation conserves, round
    trips. \<open>Stream_Properties\<close>: delivery to clients, and that the indexer's rows, whose amounts are
    BigInts, reach none. \<open>Gateway_Properties\<close>, \<open>Gateway_Overlap_Properties\<close>: however requests interleave,
    only verified readings are relayed and a row stands for each accepted one, and of two relays on one
    account number one fails (locale \<open>relayer_account\<close>); the error paths.
    \<open>Process_Properties\<close>: the guards before the gateway, and the requests that end the process.
    \<open>Api_Overlap_Properties\<close>: what an answer whose two queries the process runs between can show, and
    how its parts may disagree.
    \<open>Shutdown_Properties\<close>: the guarantee of the cache over the whole life of the process, and how a
    shutdown can end. \<open>Service_Properties\<close>: the balance endpoint reports the contract's own counters.

  \<^bold>\<open>The dashboard and the rest.\<close>
  \<^item> \<open>Frontend\<close>: \<open>services/api.ts\<close>, \<open>DeviceList.tsx\<close>, \<open>LiveStream.tsx\<close>, \<open>useTelemetry.ts\<close>,
    \<open>useWallet.ts\<close>, \<open>WalletConnect.tsx\<close>: the state of each component, its transitions, and what it
    renders. \<open>Dashboard\<close>: the routes and links of \<open>App.tsx\<close>, the proxy of \<open>vite.config.ts\<close>, the life of
    the telemetry hook with its sockets. \<open>App_Shell\<close>: \<open>App.tsx\<close> as a whole under \<open>main.tsx\<close>, with pages
    that come and go, and that only the one on the screen is at work. \<open>Interfaces\<close>: the TypeScript
    interfaces, checked against the API's answers. \<open>Deployment\<close>: the applications of \<open>ecosystem.config.cjs\<close>.
  \<^item> \<open>Frontend_Properties\<close>: loading settles, the table shows the cache, the chart its last 60 bills.
    \<open>Dashboard_Properties\<close>: pages and sockets. \<open>Table_Properties\<close>: the table, end to end, shows the
    contract's counters.
  \<^item> \<open>Emulator\<close>, \<open>Emulator_Properties\<close>: the profiles, the signing and the stream of \<open>client.py\<close>; what
    it signs the contract bills, and what it loses blocks its device.

  \<^bold>\<open>Parameters.\<close> Code outside the repository is an argument: the token contract, the host's check of
  ed25519 signatures, and the transaction's authorisations and time (\<open>network\<close>,
  \<open>txn\<close>); the Stellar SDK's host objects (\<open>sdk\<close>); the database with its Node driver (\<open>driver\<close>: binding, collation, integer width, errors); the RPC server, the clock,
  the callback and \<open>JSON.stringify\<close> of an event (\<open>indexer_env\<close>); Node's crypto, the SDK's accounts and
  transactions in the gateway (\<open>stellar\<close>); the URL parser and \<open>StrKey\<close> in the hub (\<open>hub_env\<close>); the
  packages of the Express application and its matching of paths (\<open>packages\<close>); the errors of a closed
  database (\<open>closing\<close>); \<open>fetch\<close>, \<open>JSON.parse\<close> and the Freighter extension in the dashboard; PyNaCl
  (\<open>nacl\<close>), the sine, the clock and the network in the emulator. What a property needs of them is a
  hypothesis or a locale, which \<open>Demo_Service\<close>, \<open>Store_Driver\<close> and the witnesses show satisfiable.

  \<^bold>\<open>Bounds and fuel.\<close> \<open>poll\<close> takes fuel for its pages: of a chain with \<open>L\<close> events, any fuel above
  \<open>L div 200\<close> suffices (\<open>poll_terminates\<close>). The machines of \<open>Overlap\<close>, \<open>Gateway_Overlap\<close>
  and \<open>Api_Overlap\<close> need none: each step is total, a posted reading takes at most five and a reading
  request two. Integer columns have 64 bits in both dialects, and a driver rejects what does not fit;
  the sums of the API are doubles, exact up to \<open>2^53\<close>, which the properties over them assume.

  \<^bold>\<open>Not modelled.\<close> Listening sockets, the delivery of signals, the connection pool (I/O); styles and
  layout of the dashboard (declarative); the parsing of the emulator's arguments (argparse); tests,
  scripts, pipelines and linter settings. An event's handling, from decoding to callback, is one step
  of \<open>Overlap\<close>: its only await is the insertion. \<open>Process\<close> lets any other work run at each await; on
  SQLite, whose queries do not wait, fewer interleavings occur, so what holds of all of them holds
  there, and what some of them show is stated for Postgres.
\<close>

end
